(* ===== verification/Prelude.thy ===== *)
theory Prelude
  imports Main
begin

text \<open>
  What every component shares: the types of the program's values (byte strings, 64-bit
  signed integers, errors, results that may panic or block) and the generic lemmas on
  lists that carry the component proofs. Nothing here models code of the repository but
  the error values, which the packages declare with \<open>errors.New\<close>.
\<close>

section \<open>Values\<close>

text \<open>
  A Go \<open>string\<close> and a \<open>[]byte\<close> are both sequences of bytes; Isabelle's \<open>char\<close> has exactly
  256 values, so both are \<open>char list\<close> and \<open>length\<close> counts bytes, as \<open>len\<close> does.
\<close>

type_synonym bytes = string

text \<open>
  \<open>int64\<close> (and \<open>int\<close>, which is 64 bits wide on the platforms the program runs on) is an
  \<open>int\<close> whose arithmetic is followed by the two's complement wrap-around.
\<close>

definition i64 :: "int \<Rightarrow> int" where
  "i64 x = (x + 2 ^ 63) mod 2 ^ 64 - 2 ^ 63"

definition is_i64 :: "int \<Rightarrow> bool" where
  "is_i64 x \<longleftrightarrow> - (2 ^ 63) \<le> x \<and> x < 2 ^ 63"

lemma is_i64_i64 [simp, intro]: "is_i64 (i64 x)"
  by (simp add: is_i64_def i64_def)

lemma i64_id: "is_i64 x \<Longrightarrow> i64 x = x"
  by (simp add: is_i64_def i64_def)

lemma i64_idem [simp]: "i64 (i64 x) = i64 x"
  by (simp add: i64_id)

lemma i64_nonneg: "0 \<le> x \<Longrightarrow> x < 2 ^ 63 \<Longrightarrow> i64 x = x"
  by (rule i64_id) (simp add: is_i64_def)

section \<open>Errors and outcomes\<close>

text \<open>
  The error values the program compares or returns. A Go function with result
  \<open>(T, error)\<close> returns a pair whose second part is \<open>None\<close> for a nil error.
\<close>

datatype go_error =
    EOF                       \<comment> \<open>\<open>io.EOF\<close>\<close>
  | ErrUnexpectedEOF          \<comment> \<open>\<open>io.ErrUnexpectedEOF\<close>\<close>
  | ErrNotRegistered          \<comment> \<open>broker: Channel is not registered.\<close>
  | ErrWhence                 \<comment> \<open>broker: Seek: invalid whence\<close>
  | ErrOffset                 \<comment> \<open>broker: Seek: invalid offset\<close>
  | ErrNoStorage              \<comment> \<open>storage: No storage defined\<close>
  | ErrNotFound               \<comment> \<open>storage: HTTP 404\<close>
  | ErrRange                  \<comment> \<open>storage: HTTP 416: Invalid Range\<close>
  | Err5xx                    \<comment> \<open>storage: HTTP 5xx\<close>
  | ErrStatus int             \<comment> \<open>storage: Expected 2xx, got \<open>%d\<close>\<close>
  | ErrNoContent              \<comment> \<open>server: No Content\<close>
  | ErrMissingURL             \<comment> \<open>busltee: Missing URL\<close>
  | ErrNil                    \<comment> \<open>redigo: nil returned\<close>
  | ErrNegativeInt            \<comment> \<open>redigo: unexpected value for Uint64\<close>
  | ErrReplyType string       \<comment> \<open>redigo: unexpected type for ...\<close>
  | RedisErr string           \<comment> \<open>a \<open>redis.Error\<close> reply\<close>
  | ErrSyntax                 \<comment> \<open>\<open>strconv.ErrSyntax\<close>\<close>
  | ErrNumRange               \<comment> \<open>\<open>strconv.ErrRange\<close>\<close>
  | ErrNet bool string        \<comment> \<open>a \<open>net.Error\<close>, with the result of \<open>Timeout()\<close>\<close>
  | ErrExit int               \<comment> \<open>an \<open>*exec.ExitError\<close>, with its exit status\<close>
  | ErrOther string

text \<open>
  A call may return, panic (an index out of range, a failed type assertion) or block
  until another goroutine acts.
\<close>

datatype 'a go = Return 'a | Panic string | Blocked

fun go_bind :: "'a go \<Rightarrow> ('a \<Rightarrow> 'b go) \<Rightarrow> 'b go" where
  "go_bind (Return x) f = f x"
| "go_bind (Panic m) f = Panic m"
| "go_bind Blocked f = Blocked"

lemma go_bind_Return: "go_bind x f = Return y \<longleftrightarrow> (\<exists>a. x = Return a \<and> f a = Return y)"
  by (cases x) auto

section \<open>Lists\<close>

lemma take_min_length: "take (min n (length xs)) xs = take n xs"
  by (simp add: min_def)

lemma take_drop_append: "take m xs @ take k (drop m xs) = take (m + k) xs"
  by (simp add: take_add)

lemma last_split_nth: "k < length xs \<Longrightarrow> rev xs ! k = xs ! (length xs - Suc k)"
  by (rule rev_nth)

end
