(* ===== verification/GoLib.thy ===== *)
theory GoLib
  imports Prelude
begin

text \<open>
  The parts of the Go standard library (Go 1.4) the program uses on bytes and strings:
  \<open>copy\<close>, \<open>strings.Index\<close>, \<open>Split\<close>, \<open>SplitN\<close> and \<open>Join\<close>, \<open>strconv.Itoa\<close>, \<open>Atoi\<close>, \<open>ParseInt\<close>,
  \<open>ParseUint\<close> and \<open>ParseBool\<close>, \<open>hex.EncodeToString\<close>, with the round trips between them.
\<close>

section \<open>copy\<close>

text \<open>\<open>copy(dst, src)\<close> overwrites a prefix of \<open>dst\<close> and returns how many bytes it copied.\<close>

definition go_copy :: "bytes \<Rightarrow> bytes \<Rightarrow> bytes \<times> nat" where
  "go_copy dst src =
     (let n = min (length dst) (length src) in (take n src @ drop n dst, n))"

lemma fst_go_copy_length [simp]: "length (fst (go_copy dst src)) = length dst"
  by (simp add: go_copy_def Let_def)

lemma snd_go_copy [simp]: "snd (go_copy dst src) = min (length dst) (length src)"
  by (simp add: go_copy_def Let_def)

lemma take_fst_go_copy:
  "length src \<le> length dst \<Longrightarrow> take (length src) (fst (go_copy dst src)) = src"
  by (simp add: go_copy_def Let_def)

lemma take_fst_go_copy_min:
  "take (min (length dst) (length src)) (fst (go_copy dst src)) = take (length dst) src"
  by (simp add: go_copy_def Let_def min_def)

section \<open>strings.Index, strings.Contains\<close>

fun starts_with :: "string \<Rightarrow> string \<Rightarrow> bool" where
  "starts_with [] s = True"
| "starts_with (c # p) [] = False"
| "starts_with (c # p) (d # s) = (c = d \<and> starts_with p s)"

text \<open>The first place of \<open>p\<close> in a string; \<open>None\<close> is -1.\<close>

fun str_index :: "string \<Rightarrow> string \<Rightarrow> nat option" where
  "str_index p [] = (if p = [] then Some 0 else None)"
| "str_index p (c # s) = (if starts_with p (c # s) then Some 0 else map_option Suc (str_index p s))"

definition contains :: "string \<Rightarrow> string \<Rightarrow> bool" where
  "contains p s \<longleftrightarrow> str_index p s \<noteq> None"

lemma starts_with_append [simp]: "starts_with p (p @ s)"
  by (induction p) auto

lemma starts_with_iff: "starts_with p s \<longleftrightarrow> (\<exists>t. s = p @ t)"
  by (induction p s rule: starts_with.induct) auto

lemma contains_iff: "contains p s \<longleftrightarrow> (\<exists>a b. s = a @ p @ b)"
proof (induction s)
  case (Cons c s)
  have "contains p (c # s) \<longleftrightarrow> starts_with p (c # s) \<or> contains p s" by (simp add: contains_def)
  also have "\<dots> \<longleftrightarrow> (\<exists>a b. c # s = a @ p @ b)" unfolding Cons.IH starts_with_iff by (metis append_Cons append_Nil neq_Nil_conv list.inject)
  finally show ?case .
qed (simp add: contains_def)

section \<open>strings.Split, strings.SplitN, strings.Join\<close>

text \<open>Every separator the program splits at is one byte long.\<close>

fun split_on :: "char \<Rightarrow> string \<Rightarrow> string list" where
  "split_on c [] = [[]]"
| "split_on c (x # xs) =
     (if x = c then [] # split_on c xs
      else (x # hd (split_on c xs)) # tl (split_on c xs))"

definition split2 :: "char \<Rightarrow> string \<Rightarrow> string list" where
  "split2 c s = (case dropWhile (\<lambda>x. x \<noteq> c) s of [] \<Rightarrow> [s]
     | _ # rest \<Rightarrow> [takeWhile (\<lambda>x. x \<noteq> c) s, rest])"

fun join :: "string \<Rightarrow> string list \<Rightarrow> string" where
  "join sep [] = []"
| "join sep [s] = s"
| "join sep (s # t # ss) = s @ sep @ join sep (t # ss)"

lemma split_on_not_Nil [simp]: "split_on c s \<noteq> []"
  by (cases s) auto

lemma join_Cons: "ss \<noteq> [] \<Longrightarrow> join sep (s # ss) = s @ sep @ join sep ss"
  by (cases ss) auto

lemma join_hd: "ss \<noteq> [] \<Longrightarrow> join sep ((x # hd ss) # tl ss) = x # join sep ss"
  by (cases ss; cases "tl ss") auto

lemma join_split_on [simp]: "join [c] (split_on c s) = s"
  by (induction s) (auto simp: join_Cons join_hd)

lemma split_on_free: "t \<in> set (split_on c s) \<Longrightarrow> c \<notin> set t"
proof (induction s arbitrary: t)
  case (Cons x xs)
  show ?case
  proof (cases "t = x # hd (split_on c xs) \<and> x \<noteq> c")
    case True
    with Cons.IH [of "hd (split_on c xs)"] show ?thesis by auto
  next
    case False
    with Cons.prems have "t = [] \<or> t \<in> set (split_on c xs)"
      by (auto split: if_splits dest: list.set_sel(2) [OF split_on_not_Nil])
    with Cons.IH show ?thesis by auto
  qed
qed simp

lemma split_on_append:
  "c \<notin> set s \<Longrightarrow> split_on c (s @ c # t) = s # split_on c t"
  by (induction s) auto

lemma split_on_single: "c \<notin> set s \<Longrightarrow> split_on c s = [s]"
  by (induction s) auto

lemma split_on_join:
  "ss \<noteq> [] \<Longrightarrow> \<forall>s \<in> set ss. c \<notin> set s \<Longrightarrow> split_on c (join [c] ss) = ss"
  by (induction "[c]" ss rule: join.induct) (auto simp: split_on_single split_on_append)

lemma upto_free:
  assumes "c \<notin> set s"
  shows "takeWhile (\<lambda>x. x \<noteq> c) (s @ t) = s @ takeWhile (\<lambda>x. x \<noteq> c) t"
    and "dropWhile (\<lambda>x. x \<noteq> c) (s @ t) = dropWhile (\<lambda>x. x \<noteq> c) t"
  using assms by (induction s) auto

lemma split2_none: "c \<notin> set s \<Longrightarrow> split2 c s = [s]"
proof -
  assume "c \<notin> set s"
  from upto_free(2) [OF this, of "[]"] have d: "dropWhile (\<lambda>x. x \<noteq> c) s = []"
    by (simp only: append_Nil2 dropWhile.simps)
  show ?thesis by (simp only: split2_def d list.case)
qed

lemma split2_append: "c \<notin> set s \<Longrightarrow> split2 c (s @ c # t) = [s, t]"
  by (simp add: split2_def upto_free)

section \<open>strconv\<close>

definition digit_char :: "nat \<Rightarrow> char" where
  "digit_char d = char_of (48 + d)"

definition is_digit :: "char \<Rightarrow> bool" where
  "is_digit c \<longleftrightarrow> 48 \<le> (of_char c :: nat) \<and> (of_char c :: nat) \<le> 57"

definition digit_val :: "char \<Rightarrow> nat" where
  "digit_val c = of_char c - 48"

fun nat_digits :: "nat \<Rightarrow> string" where
  "nat_digits n = (if n < 10 then [digit_char n]
     else nat_digits (n div 10) @ [digit_char (n mod 10)])"

declare nat_digits.simps [simp del]

text \<open>\<open>strconv.Itoa\<close>, and \<open>%d\<close> of \<open>fmt\<close>.\<close>

definition itoa :: "int \<Rightarrow> string" where
  "itoa n = (if n < 0 then ''-'' @ nat_digits (nat (- n)) else nat_digits (nat n))"

text \<open>
  \<open>strconv.ParseUint(s, 10, 64)\<close>: the digits are read from the left; a byte that is no
  digit is a syntax error with value 0, the first digit that takes the value past
  \<open>2^64 - 1\<close> is a range error with that maximum, whatever follows it.
\<close>

definition max_u64 :: int where
  "max_u64 = 2 ^ 64 - 1"

fun parse_digits :: "nat \<Rightarrow> string \<Rightarrow> nat \<times> go_error option" where
  "parse_digits acc [] = (acc, None)"
| "parse_digits acc (c # cs) =
     (if \<not> is_digit c then (0, Some ErrSyntax)
      else if max_u64 < int (acc * 10 + digit_val c) then (nat max_u64, Some ErrNumRange)
      else parse_digits (acc * 10 + digit_val c) cs)"

definition parse_uint :: "string \<Rightarrow> nat \<times> go_error option" where
  "parse_uint s = (if s = [] then (0, Some ErrSyntax) else parse_digits 0 s)"

text \<open>
  \<open>strconv.ParseInt(s, 10, 64)\<close>: an optional sign, then \<open>ParseUint\<close>; a value out of range
  is cut off at the nearest \<open>int64\<close>. \<open>Atoi\<close> is \<open>ParseInt(s, 10, 0)\<close>.
\<close>

definition parse_int :: "string \<Rightarrow> int \<times> go_error option" where
  "parse_int s =
     (case s of [] \<Rightarrow> (0, Some ErrSyntax)
      | c # cs \<Rightarrow>
         (let neg = (c = CHR ''-'');
              digits = (if c = CHR ''+'' \<or> c = CHR ''-'' then cs else s);
              (un, err) = parse_uint digits
          in if err \<noteq> None \<and> err \<noteq> Some ErrNumRange then (0, err)
             else if \<not> neg \<and> 2 ^ 63 \<le> int un then (2 ^ 63 - 1, Some ErrNumRange)
             else if neg \<and> 2 ^ 63 < int un then (- (2 ^ 63), Some ErrNumRange)
             else (if neg then - int un else int un, None)))"

definition atoi :: "string \<Rightarrow> int \<times> go_error option" where
  "atoi s = parse_int s"

definition parse_bool :: "string \<Rightarrow> bool \<times> go_error option" where
  "parse_bool s =
     (if s \<in> {''1'', ''t'', ''T'', ''true'', ''TRUE'', ''True''} then (True, None)
      else if s \<in> {''0'', ''f'', ''F'', ''false'', ''FALSE'', ''False''} then (False, None)
      else (False, Some ErrSyntax))"

lemma of_char_digit_char [simp]: "d < 10 \<Longrightarrow> (of_char (digit_char d) :: nat) = 48 + d"
  by (simp add: digit_char_def)

lemma is_digit_digit_char [simp]: "d < 10 \<Longrightarrow> is_digit (digit_char d)"
  by (simp add: is_digit_def)

lemma digit_val_digit_char [simp]: "d < 10 \<Longrightarrow> digit_val (digit_char d) = d"
  by (simp add: digit_val_def)

lemma nat_digits_not_Nil [simp]: "nat_digits n \<noteq> []"
  by (subst nat_digits.simps) simp

lemma nat_digits_digits: "c \<in> set (nat_digits n) \<Longrightarrow> is_digit c"
proof (induction n rule: nat_digits.induct)
  case (1 n)
  then show ?case
    by (subst (asm) nat_digits.simps) (auto split: if_splits)
qed

lemma parse_digits_append:
  "parse_digits a s = (n, None) \<Longrightarrow> parse_digits a (s @ t) = parse_digits n t"
  by (induction a s arbitrary: n rule: parse_digits.induct) (auto split: if_splits)

lemma parse_digits_nat_digits: "int n \<le> max_u64 \<Longrightarrow> parse_digits 0 (nat_digits n) = (n, None)"
proof (induction n rule: nat_digits.induct)
  case (1 n)
  show ?case
  proof (cases "n < 10")
    case True
    with 1 show ?thesis by (subst nat_digits.simps) simp
  next
    case False
    with 1 have "parse_digits 0 (nat_digits (n div 10)) = (n div 10, None)" by (simp add: zdiv_int)
    from parse_digits_append [OF this] False "1.prems" show ?thesis
      by (subst nat_digits.simps) simp
  qed
qed

lemma itoa_not_Nil [simp]: "itoa n \<noteq> []"
  by (simp add: itoa_def)

lemma is_digit_not_sign: "is_digit c \<Longrightarrow> c \<noteq> CHR ''-'' \<and> c \<noteq> CHR ''+''"
  by (auto simp: is_digit_def)

lemma itoa_chars: "c \<in> set (itoa n) \<Longrightarrow> is_digit c \<or> c = CHR ''-''"
  by (auto simp: itoa_def dest: nat_digits_digits split: if_splits)

theorem atoi_itoa: "is_i64 n \<Longrightarrow> atoi (itoa n) = (n, None)"
proof (cases "n < 0")
  case True
  assume n: "is_i64 n"
  with True have "int (nat (- n)) \<le> max_u64" and "int (nat (- n)) \<le> 2 ^ 63"
    by (simp_all add: is_i64_def max_u64_def)
  with True show ?thesis
    by (simp add: atoi_def parse_int_def itoa_def parse_uint_def parse_digits_nat_digits)
next
  case False
  assume n: "is_i64 n"
  obtain c cs where d: "nat_digits (nat n) = c # cs"
    by (cases "nat_digits (nat n)") auto
  then have "is_digit c" using nat_digits_digits [of c "nat n"] by simp
  moreover have "parse_digits 0 (c # cs) = (nat n, None)"
    using n False d parse_digits_nat_digits [of "nat n"]
    by (simp add: is_i64_def max_u64_def)
  ultimately show ?thesis
    using n False d
    by (simp add: atoi_def parse_int_def itoa_def parse_uint_def is_digit_not_sign is_i64_def
        del: parse_digits.simps)
qed

section \<open>hex.EncodeToString\<close>

definition hex_char :: "nat \<Rightarrow> char" where
  "hex_char d = (if d < 10 then char_of (48 + d) else char_of (87 + d))"

definition hex_byte :: "char \<Rightarrow> string" where
  "hex_byte b = [hex_char (of_char b div 16), hex_char (of_char b mod 16)]"

definition hex_encode :: "bytes \<Rightarrow> string" where
  "hex_encode s = concat (map hex_byte s)"

lemma hex_encode_Nil [simp]: "hex_encode [] = []"
  by (simp add: hex_encode_def)

lemma hex_encode_Cons [simp]:
  "hex_encode (b # s) = hex_char (of_char b div 16) # hex_char (of_char b mod 16) # hex_encode s"
  by (simp add: hex_encode_def hex_byte_def)

lemma length_hex_encode [simp]: "length (hex_encode s) = 2 * length s"
  by (induction s) auto

lemma of_char_hex_char:
  "d < 16 \<Longrightarrow> (of_char (hex_char d) :: nat) = (if d < 10 then 48 + d else 87 + d)"
  by (simp add: hex_char_def take_bit_nat_eq_self)

lemma hex_char_inject: "a < 16 \<Longrightarrow> b < 16 \<Longrightarrow> hex_char a = hex_char b \<longleftrightarrow> a = b"
proof
  assume d: "a < 16" "b < 16" and "hex_char a = hex_char b"
  then have "(of_char (hex_char a) :: nat) = of_char (hex_char b)" by simp
  with d show "a = b" by (simp add: of_char_hex_char split: if_splits)
qed simp

lemma of_char_nibbles: "(of_char (c :: char) :: nat) div 16 < 16"
  by (rule less_mult_imp_div_less) simp

lemma hex_encode_inject: "hex_encode s = hex_encode t \<longleftrightarrow> s = t"
proof (induction s arbitrary: t)
  case Nil
  then show ?case by (cases t) auto
next
  case (Cons a s)
  show ?case
  proof (cases t)
    case (Cons b t')
    have "(of_char a :: nat) div 16 = of_char b div 16 \<and> (of_char a :: nat) mod 16 = of_char b mod 16
        \<longleftrightarrow> (of_char a :: nat) = of_char b"
      by (metis mult_div_mod_eq)
    with Cons Cons.IH [of t'] show ?thesis
      by (simp add: hex_char_inject of_char_nibbles) blast
  qed simp
qed

end
