(* ===== verification/Reply.thy ===== *)
theory Reply
  imports GoLib
begin

text \<open>
  The reply helpers of the vendored Redis client
  (\<open>Godeps/_workspace/src/github.com/garyburd/redigo/redis/reply.go\<close>). A reply of the
  server is one of the dynamic types of \<open>interface{}\<close> the client produces; a helper turns it,
  together with the error of the call that fetched it, into a Go value and an error.
\<close>

section \<open>Replies\<close>

datatype reply =
    RInt int              \<comment> \<open>\<open>int64\<close>: an integer reply\<close>
  | RBulk bytes           \<comment> \<open>\<open>[]byte\<close>: a bulk string\<close>
  | RStatus string        \<comment> \<open>\<open>string\<close>: a simple string\<close>
  | RNil                  \<comment> \<open>\<open>nil\<close>\<close>
  | RError string         \<comment> \<open>\<open>redis.Error\<close>\<close>
  | RArray "reply list"   \<comment> \<open>\<open>[]interface{}\<close>\<close>

section \<open>The helpers\<close>

text \<open>
  Each helper returns the zero value of its type and the error it was given when there is
  one; \<open>typed\<close> is the part they share: the replies every helper but its own cases treats
  alike.
\<close>

definition reply_rest :: "string \<Rightarrow> 'a \<Rightarrow> reply \<Rightarrow> 'a \<times> go_error option" where
  "reply_rest helper zero r =
     (case r of RNil \<Rightarrow> (zero, Some ErrNil)
      | RError e \<Rightarrow> (zero, Some (RedisErr e))
      | _ \<Rightarrow> (zero, Some (ErrReplyType helper)))"

text \<open>\<open>Int\<close>: the test \<open>int64(x) != reply\<close> is void where \<open>int\<close> has 64 bits.\<close>

definition reply_int :: "reply \<Rightarrow> go_error option \<Rightarrow> int \<times> go_error option" where
  "reply_int r err =
     (if err \<noteq> None then (0, err)
      else case r of
        RInt n \<Rightarrow> (if i64 n \<noteq> n then (0, Some ErrNumRange) else (i64 n, None))
      | RBulk s \<Rightarrow> parse_int s
      | _ \<Rightarrow> reply_rest ''Int'' 0 r)"

definition reply_int64 :: "reply \<Rightarrow> go_error option \<Rightarrow> int \<times> go_error option" where
  "reply_int64 r err =
     (if err \<noteq> None then (0, err)
      else case r of
        RInt n \<Rightarrow> (n, None)
      | RBulk s \<Rightarrow> parse_int s
      | _ \<Rightarrow> reply_rest ''Int64'' 0 r)"

definition reply_uint64 :: "reply \<Rightarrow> go_error option \<Rightarrow> nat \<times> go_error option" where
  "reply_uint64 r err =
     (if err \<noteq> None then (0, err)
      else case r of
        RInt n \<Rightarrow> (if n < 0 then (0, Some ErrNegativeInt) else (nat n, None))
      | RBulk s \<Rightarrow> parse_uint s
      | _ \<Rightarrow> reply_rest ''Uint64'' 0 r)"

definition reply_string :: "reply \<Rightarrow> go_error option \<Rightarrow> string \<times> go_error option" where
  "reply_string r err =
     (if err \<noteq> None then ([], err)
      else case r of
        RBulk s \<Rightarrow> (s, None)
      | RStatus s \<Rightarrow> (s, None)
      | _ \<Rightarrow> reply_rest ''String'' [] r)"

definition reply_bytes :: "reply \<Rightarrow> go_error option \<Rightarrow> bytes \<times> go_error option" where
  "reply_bytes r err =
     (if err \<noteq> None then ([], err)
      else case r of
        RBulk s \<Rightarrow> (s, None)
      | RStatus s \<Rightarrow> (s, None)
      | _ \<Rightarrow> reply_rest ''Bytes'' [] r)"

definition reply_bool :: "reply \<Rightarrow> go_error option \<Rightarrow> bool \<times> go_error option" where
  "reply_bool r err =
     (if err \<noteq> None then (False, err)
      else case r of
        RInt n \<Rightarrow> (n \<noteq> 0, None)
      | RBulk s \<Rightarrow> parse_bool s
      | _ \<Rightarrow> reply_rest ''Bool'' False r)"

definition reply_values :: "reply \<Rightarrow> go_error option \<Rightarrow> reply list \<times> go_error option" where
  "reply_values r err =
     (if err \<noteq> None then ([], err)
      else case r of
        RArray rs \<Rightarrow> (rs, None)
      | _ \<Rightarrow> reply_rest ''Values'' [] r)"

text \<open>\<open>Strings\<close>: a nil element becomes the empty string, any other non-bulk element an error.\<close>

fun strings_loop :: "reply list \<Rightarrow> (string list) option" where
  "strings_loop [] = Some []"
| "strings_loop (RNil # rs) = map_option (Cons []) (strings_loop rs)"
| "strings_loop (RBulk s # rs) = map_option (Cons s) (strings_loop rs)"
| "strings_loop (_ # rs) = None"

definition reply_strings :: "reply \<Rightarrow> go_error option \<Rightarrow> string list \<times> go_error option" where
  "reply_strings r err =
     (if err \<noteq> None then ([], err)
      else case r of
        RArray rs \<Rightarrow>
          (case strings_loop rs of Some ss \<Rightarrow> (ss, None)
           | None \<Rightarrow> ([], Some (ErrReplyType ''Strings'')))
      | _ \<Rightarrow> reply_rest ''Strings'' [] r)"

fun stringMap_loop :: "reply list \<Rightarrow> (string \<rightharpoonup> string) \<Rightarrow> (string \<rightharpoonup> string) option" where
  "stringMap_loop (RBulk k # RBulk v # rs) m = stringMap_loop rs (m(k \<mapsto> v))"
| "stringMap_loop [] m = Some m"
| "stringMap_loop _ m = None"

definition reply_stringMap ::
  "reply \<Rightarrow> go_error option \<Rightarrow> (string \<rightharpoonup> string) \<times> go_error option" where
  "reply_stringMap r err =
     (let (values, err) = reply_values r err
      in if err \<noteq> None then (Map.empty, err)
         else if length values mod 2 \<noteq> 0
           then (Map.empty, Some (ErrOther ''redigo: StringMap expects even number of values result''))
         else case stringMap_loop values Map.empty of
           Some m \<Rightarrow> (m, None)
         | None \<Rightarrow> (Map.empty, Some (ErrOther ''redigo: ScanMap key not a bulk string value'')))"

section \<open>Lemmas\<close>

text \<open>Evaluation on the replies the program's commands have.\<close>

lemma reply_err [simp]:
  "reply_int r (Some e) = (0, Some e)"
  "reply_int64 r (Some e) = (0, Some e)"
  "reply_uint64 r (Some e) = (0, Some e)"
  "reply_string r (Some e) = ([], Some e)"
  "reply_bytes r (Some e) = ([], Some e)"
  "reply_bool r (Some e) = (False, Some e)"
  "reply_values r (Some e) = ([], Some e)"
  "reply_strings r (Some e) = ([], Some e)"
  by (simp_all add: reply_int_def reply_int64_def reply_uint64_def reply_string_def
      reply_bytes_def reply_bool_def reply_values_def reply_strings_def)

lemma reply_ok_simps [simp]:
  "reply_int64 (RInt n) None = (n, None)"
  "reply_bool (RInt n) None = (n \<noteq> 0, None)"
  "reply_bytes (RBulk s) None = (s, None)"
  "reply_values (RArray rs) None = (rs, None)"
  by (simp_all add: reply_int64_def reply_bool_def reply_bytes_def reply_values_def)

text \<open>A helper that reports no error was given none.\<close>

lemma reply_no_err:
  "reply_int64 r err = (n, None) \<Longrightarrow> err = None"
  "reply_bytes r err = (s, None) \<Longrightarrow> err = None"
  "reply_bool r err = (b, None) \<Longrightarrow> err = None"
  "reply_values r err = (rs, None) \<Longrightarrow> err = None"
  by (auto simp: reply_int64_def reply_bytes_def reply_bool_def reply_values_def split: if_splits)

lemma reply_values_fail:
  "reply_values r err = (rs, Some e) \<Longrightarrow> rs = []"
  by (auto simp: reply_values_def reply_rest_def split: if_splits reply.splits)

lemma stringMap_loop_even: "stringMap_loop rs m = Some m' \<Longrightarrow> even (length rs)"
  by (induction rs m rule: stringMap_loop.induct) auto

fun flatten_map :: "(string \<times> string) list \<Rightarrow> reply list" where
  "flatten_map [] = []"
| "flatten_map ((k, v) # kvs) = RBulk k # RBulk v # flatten_map kvs"

lemma length_flatten_map [simp]: "length (flatten_map kvs) = 2 * length kvs"
  by (induction kvs rule: flatten_map.induct) auto

lemma stringMap_loop_flatten:
  "stringMap_loop (flatten_map kvs) m = Some (m ++ map_of (rev kvs))"
proof (induction kvs arbitrary: m rule: flatten_map.induct)
  case (2 k v kvs)
  have "m(k \<mapsto> v) ++ map_of (rev kvs) = m ++ map_of (rev ((k, v) # kvs))"
    by (rule ext) (simp add: map_add_def split: option.split)
  with 2 show ?case by (simp only: flatten_map.simps stringMap_loop.simps)
qed simp

end
