(* ===== verification/RedisServer.thy ===== *)
theory RedisServer
  imports Reply
begin

text \<open>
  The Redis server is a service: nothing of it is under \<open>src/\<close>. The broker's definitions
  take it as an argument, a record of the calls the client library makes on its behalf over
  an opaque world \<open>'w\<close> (the server, the network, the other clients). What the broker
  relies on is the locale \<open>redis_server\<close>: the documented effect of the nine commands it
  sends, of a \<open>MULTI\<close>/\<open>EXEC\<close> block and of a pattern subscription, seen through three
  observations of the world (the database, the messages waiting at a connection and its
  patterns). The last section gives one concrete world that has this behaviour.
\<close>

section \<open>Commands\<close>

datatype cmd =
    GET string
  | SETEX string int bytes
  | APPEND string bytes
  | EXPIRE string int
  | DEL string
  | EXISTS string
  | STRLEN string
  | GETRANGE string int int
  | PUBLISH string bytes

text \<open>
  What \<open>PubSubConn.Receive\<close> returns when it returns no error: a message or a notification.
\<close>

datatype psmsg =
    Message string bytes
  | PMessage string string bytes   \<comment> \<open>pattern, channel, data\<close>
  | Subscription string string int

type_synonym conn = nat

text \<open>
  The calls of the client. \<open>r_do\<close> is \<open>conn.Do\<close> of one command on a pooled connection,
  \<open>r_exec\<close> the commands sent between \<open>MULTI\<close> and \<open>EXEC\<close>; \<open>r_psubscribe\<close> takes a
  connection from the pool and subscribes it to a pattern, \<open>r_receive\<close> waits for the next
  message there and \<open>r_close\<close> unsubscribes and closes it.
\<close>

record 'w redis =
  r_do :: "'w \<Rightarrow> cmd \<Rightarrow> 'w \<times> reply \<times> go_error option"
  r_exec :: "'w \<Rightarrow> cmd list \<Rightarrow> 'w \<times> reply \<times> go_error option"
  r_psubscribe :: "'w \<Rightarrow> string \<Rightarrow> 'w \<times> conn \<times> go_error option"
  r_receive :: "'w \<Rightarrow> conn \<Rightarrow> 'w \<times> (go_error + psmsg) go"
  r_close :: "'w \<Rightarrow> conn \<Rightarrow> 'w \<times> go_error option"

section \<open>The documented effect of the commands\<close>

text \<open>A key holds a string and, unless it is persistent, the seconds it has left to live.\<close>

type_synonym db = "string \<rightharpoonup> bytes \<times> nat option"

definition db_get :: "db \<Rightarrow> string \<Rightarrow> bytes" where
  "db_get d k = (case d k of None \<Rightarrow> [] | Some (v, _) \<Rightarrow> v)"

text \<open>
  \<open>GETRANGE\<close>: both ends are inclusive, a negative end counts from the end of the value, and
  what lies outside the value is cut off.
\<close>

definition getrange :: "bytes \<Rightarrow> int \<Rightarrow> int \<Rightarrow> bytes" where
  "getrange v a b =
     (let n = int (length v);
          a' = max 0 (if a < 0 then n + a else a);
          b' = min (n - 1) (max 0 (if b < 0 then n + b else b))
      in if b' < a' then [] else take (nat (b' - a' + 1)) (drop (nat a') v))"

fun cmd_db :: "db \<Rightarrow> cmd \<Rightarrow> db" where
  "cmd_db d (SETEX k s v) = (if s \<le> 0 then d else d(k \<mapsto> (v, Some (nat s))))"
| "cmd_db d (APPEND k v) =
     (case d k of None \<Rightarrow> d(k \<mapsto> (v, None)) | Some (v0, t) \<Rightarrow> d(k \<mapsto> (v0 @ v, t)))"
| "cmd_db d (EXPIRE k s) =
     (case d k of None \<Rightarrow> d
      | Some (v, _) \<Rightarrow> (if s \<le> 0 then d(k := None) else d(k \<mapsto> (v, Some (nat s)))))"
| "cmd_db d (DEL k) = d(k := None)"
| "cmd_db d _ = d"

fun cmd_reply :: "db \<Rightarrow> cmd \<Rightarrow> reply \<Rightarrow> bool" where
  "cmd_reply d (GET k) r = (r = (case d k of None \<Rightarrow> RNil | Some (v, _) \<Rightarrow> RBulk v))"
| "cmd_reply d (SETEX k s v) r =
     (if s \<le> 0 then (case r of RError _ \<Rightarrow> True | _ \<Rightarrow> False) else r = RStatus ''OK'')"
| "cmd_reply d (APPEND k v) r = (r = RInt (int (length (db_get d k) + length v)))"
| "cmd_reply d (EXPIRE k s) r = (r = RInt (if d k = None then 0 else 1))"
| "cmd_reply d (DEL k) r = (r = RInt (if d k = None then 0 else 1))"
| "cmd_reply d (EXISTS k) r = (r = RInt (if d k = None then 0 else 1))"
| "cmd_reply d (STRLEN k) r = (r = RInt (int (length (db_get d k))))"
| "cmd_reply d (GETRANGE k a b) r = (r = RBulk (getrange (db_get d k) a b))"
| "cmd_reply d (PUBLISH ch m) r = (case r of RInt n \<Rightarrow> 0 \<le> n | _ \<Rightarrow> False)"

text \<open>A \<open>MULTI\<close>/\<open>EXEC\<close> block runs its commands in order, with no other client in between.\<close>

fun cmds_db :: "db \<Rightarrow> cmd list \<Rightarrow> db" where
  "cmds_db d [] = d"
| "cmds_db d (c # cs) = cmds_db (cmd_db d c) cs"

fun cmds_reply :: "db \<Rightarrow> cmd list \<Rightarrow> reply list \<Rightarrow> bool" where
  "cmds_reply d [] rs = (rs = [])"
| "cmds_reply d (c # cs) [] = False"
| "cmds_reply d (c # cs) (r # rs) = (cmd_reply d c r \<and> cmds_reply (cmd_db d c) cs rs)"

lemma cmds_reply_Cons:
  "cmds_reply d (c # cs) rs \<longleftrightarrow>
     (\<exists>r rs'. rs = r # rs' \<and> cmd_reply d c r \<and> cmds_reply (cmd_db d c) cs rs')"
  by (cases rs) auto

text \<open>Time passes: a key whose time has run out is gone.\<close>

definition age :: "nat \<Rightarrow> db \<Rightarrow> db" where
  "age n d = (\<lambda>k. case d k of None \<Rightarrow> None
     | Some (v, None) \<Rightarrow> Some (v, None)
     | Some (v, Some t) \<Rightarrow> (if t \<le> n then None else Some (v, Some (t - n))))"

section \<open>Pattern subscriptions\<close>

text \<open>
  The glob patterns of \<open>PSUBSCRIBE\<close>: \<open>*\<close>, \<open>?\<close>, a class in brackets (negated by a caret, with
  ranges) and the backslash, which takes the next byte literally. \<open>glob_class\<close> reads a class
  after its opening bracket and returns whether the byte is in it and the rest of the
  pattern.
\<close>

fun glob_class :: "string \<Rightarrow> char \<Rightarrow> bool \<times> string" where
  "glob_class [] x = (False, [])"
| "glob_class (a # p) x =
     (if a = CHR 0x5D then (False, p)
      else if a = CHR 0x5C \<and> p \<noteq> []
        then (let (m, q) = glob_class (tl p) x in (hd p = x \<or> m, q))
      else if length p \<ge> 2 \<and> hd p = CHR ''-''
        then (let (m, q) = glob_class (drop 2 p) x;
                  lo = min (of_char a :: nat) (of_char (p ! 1));
                  hi = max (of_char a :: nat) (of_char (p ! 1))
              in (lo \<le> of_char x \<and> of_char x \<le> hi \<or> m, q))
      else (let (m, q) = glob_class p x in (a = x \<or> m, q)))"

lemma glob_class_length: "length (snd (glob_class p x)) \<le> length p"
proof (induction p x rule: glob_class.induct)
  case (2 a p x)
  then show ?case by (auto simp: Let_def split: prod.splits)
qed simp

function glob :: "string \<Rightarrow> string \<Rightarrow> bool" where
  "glob [] s = (s = [])"
| "glob (c # p) s =
     (if c = CHR ''*'' then (if s = [] then glob p s else glob p s \<or> glob (c # p) (tl s))
      else if s = [] then False
      else if c = CHR ''?'' then glob p (tl s)
      else if c = CHR 0x5B then
        (let neg = (p \<noteq> [] \<and> hd p = CHR 0x5E);
             mq = glob_class (if neg then tl p else p) (hd s)
         in fst mq \<noteq> neg \<and> glob (snd mq) (tl s))
      else if c = CHR 0x5C \<and> p \<noteq> [] then hd p = hd s \<and> glob (tl p) (tl s)
      else c = hd s \<and> glob p (tl s))"
  by pat_completeness auto
termination
proof (relation "measure (\<lambda>(p, s). length p + length s)", goal_cases)
  case (6 c p s neg mq)
  then have "length (snd mq) \<le> length p"
    using glob_class_length [of "if neg then tl p else p" "hd s"] by (auto split: if_splits)
  with 6 show ?case by (cases s) auto
qed (auto simp: neq_Nil_conv)

declare glob.simps [simp del]

text \<open>What a block of commands puts into the queue of a connection with these patterns.\<close>

fun deliver :: "string list \<Rightarrow> cmd \<Rightarrow> psmsg list" where
  "deliver pats (PUBLISH ch m) = map (\<lambda>p. PMessage p ch m) (filter (\<lambda>p. glob p ch) pats)"
| "deliver pats _ = []"

definition deliveries :: "string list \<Rightarrow> cmd list \<Rightarrow> psmsg list" where
  "deliveries pats cs = concat (map (deliver pats) cs)"

lemma deliveries_simps [simp]:
  "deliveries pats [] = []"
  "deliveries pats (c # cs) = deliver pats c @ deliveries pats cs"
  by (simp_all add: deliveries_def)

section \<open>What the broker relies on\<close>

text \<open>
  A call that fails says nothing of its effect; one that reports no error has had the
  documented effect. Messages wait in order at each connection, every connection with a
  matching pattern gets each published message once, and \<open>r_receive\<close> blocks only when none
  is waiting.
\<close>

locale redis_server =
  fixes R :: "'w redis"
    and db_of :: "'w \<Rightarrow> db"
    and inbox :: "'w \<Rightarrow> conn \<Rightarrow> psmsg list"
    and pats :: "'w \<Rightarrow> conn \<Rightarrow> string list"
  assumes do_law: "r_do R w c = (w', r, None) \<Longrightarrow>
      cmd_reply (db_of w) c r \<and> db_of w' = cmd_db (db_of w) c
      \<and> inbox w' = (\<lambda>k. inbox w k @ deliver (pats w k) c) \<and> pats w' = pats w"
    and exec_law: "r_exec R w cs = (w', r, None) \<Longrightarrow>
      (\<exists>rs. r = RArray rs \<and> cmds_reply (db_of w) cs rs) \<and> db_of w' = cmds_db (db_of w) cs
      \<and> inbox w' = (\<lambda>k. inbox w k @ deliveries (pats w k) cs) \<and> pats w' = pats w"
    and receive_law: "r_receive R w k = (w', Return (Inr m)) \<Longrightarrow>
      inbox w k \<noteq> [] \<and> m = hd (inbox w k) \<and> inbox w' = (inbox w)(k := tl (inbox w k))
      \<and> db_of w' = db_of w \<and> pats w' = pats w"
    and receive_frame: "r_receive R w k = (w', x) \<Longrightarrow> db_of w' = db_of w"
    and receive_blocked: "r_receive R w k = (w', Blocked) \<Longrightarrow> inbox w k = [] \<and> w' = w"
    and close_law: "r_close R w k = (w', e) \<Longrightarrow> db_of w' = db_of w
      \<and> (\<forall>j. j \<noteq> k \<longrightarrow> inbox w' j = inbox w j \<and> pats w' j = pats w j)"

text \<open>
  A subscription that has reached the server before the next call: the client's
  \<open>PSUBSCRIBE\<close> on a fresh connection is confirmed there by a notification, and every later
  message on a matching channel follows it.
\<close>

locale redis_pubsub = redis_server +
  assumes psubscribe_law: "r_psubscribe R w p = (w', k, None) \<Longrightarrow>
      pats w' = (pats w)(k := [p])
      \<and> inbox w' = (inbox w)(k := [Subscription ''psubscribe'' p 1]) \<and> db_of w' = db_of w"

text \<open>A server that answers: no call fails, and a waiting message can be received.\<close>

locale redis_up = redis_pubsub +
  assumes exec_up: "\<exists>w' r. r_exec R w cs = (w', r, None)"
    and do_up: "\<exists>w' r. r_do R w cmd = (w', r, None)"
    and receive_up: "inbox w k \<noteq> [] \<Longrightarrow> \<exists>w' m. r_receive R w k = (w', Return (Inr m))"

section \<open>Lemmas on the documented behaviour\<close>

lemma getrange_take_drop:
  assumes "0 \<le> a" and "0 < l"
  shows "getrange v a (a + int l - 1) = take l (drop (nat a) v)"
proof (cases "int (length v) \<le> a")
  case True
  then show ?thesis using assms by (auto simp: getrange_def Let_def)
next
  case False
  then have "min (int (length v) - 1) (a + int l - 1) - a + 1 = min (int (length v) - a) (int l)"
    by simp
  moreover have "take (nat (min (int (length v) - a) (int l))) (drop (nat a) v) = take l (drop (nat a) v)"
    using False assms by (cases "int l \<le> int (length v) - a") (simp_all add: min_def nat_diff_distrib)
  ultimately show ?thesis using False assms by (auto simp: getrange_def Let_def)
qed

lemma getrange_length: "0 < l \<Longrightarrow> length (getrange v a (a + int l - 1)) \<le> l"
  by (auto simp: getrange_def Let_def min_def max_def)

lemma getrange_whole: "getrange v 0 (- 1) = v"
  by (cases v) (auto simp: getrange_def Let_def)

text \<open>The last bytes of the value: a range that starts \<open>m\<close> bytes before its end.\<close>

lemma getrange_suffix:
  assumes "0 < m" and "m \<le> length v" and "int (length v) - 1 \<le> b"
  shows "getrange v (- int m) b = drop (length v - m) v"
  using assms by (auto simp: getrange_def Let_def of_nat_diff nat_diff_distrib)

lemma age_None [simp]: "d k = None \<Longrightarrow> age n d k = None"
  by (simp add: age_def)

lemma age_Some:
  "age n d k = Some (v, t') \<Longrightarrow> \<exists>t. d k = Some (v, t)"
  by (auto simp: age_def split: option.splits if_splits)

definition plain :: "string \<Rightarrow> bool" where
  "plain s \<longleftrightarrow> CHR 0x5B \<notin> set s \<and> CHR 0x5C \<notin> set s"

text \<open>A literal without brackets and backslashes matches itself, a star matches anything.\<close>

lemma glob_star_skip: "glob p s \<Longrightarrow> glob (CHR ''*'' # p) s"
  by (subst glob.simps) auto

lemma glob_same: "c \<noteq> CHR 0x5B \<Longrightarrow> c \<noteq> CHR 0x5C \<Longrightarrow> glob p s \<Longrightarrow> glob (c # p) (c # s)"
  by (subst glob.simps) (auto intro: glob_star_skip)

lemma glob_star: "glob ''*'' s"
  by (induction s) (subst glob.simps; simp add: glob.simps(1))+

lemma glob_literal: "plain l \<Longrightarrow> glob p s \<Longrightarrow> glob (l @ p) (l @ s)"
  by (induction l) (auto simp: plain_def intro: glob_same)

section \<open>A concrete world with this behaviour\<close>

text \<open>
  A single process that executes the commands as documented. It shows that the laws can
  hold together, and witnesses run the broker on it; no definition of the broker uses it.
\<close>

record refworld =
  rw_db :: db
  rw_inbox :: "conn \<Rightarrow> psmsg list"
  rw_pats :: "conn \<Rightarrow> string list"
  rw_next :: conn

fun ref_reply :: "db \<Rightarrow> cmd \<Rightarrow> reply" where
  "ref_reply d (GET k) = (case d k of None \<Rightarrow> RNil | Some (v, _) \<Rightarrow> RBulk v)"
| "ref_reply d (SETEX k s v) =
     (if s \<le> 0 then RError ''ERR invalid expire time in setex'' else RStatus ''OK'')"
| "ref_reply d (APPEND k v) = RInt (int (length (db_get d k) + length v))"
| "ref_reply d (EXPIRE k s) = RInt (if d k = None then 0 else 1)"
| "ref_reply d (DEL k) = RInt (if d k = None then 0 else 1)"
| "ref_reply d (EXISTS k) = RInt (if d k = None then 0 else 1)"
| "ref_reply d (STRLEN k) = RInt (int (length (db_get d k)))"
| "ref_reply d (GETRANGE k a b) = RBulk (getrange (db_get d k) a b)"
| "ref_reply d (PUBLISH ch m) = RInt 0"

fun ref_replies :: "db \<Rightarrow> cmd list \<Rightarrow> reply list" where
  "ref_replies d [] = []"
| "ref_replies d (c # cs) = ref_reply d c # ref_replies (cmd_db d c) cs"

definition ref_exec :: "refworld \<Rightarrow> cmd list \<Rightarrow> refworld" where
  "ref_exec w cs = w\<lparr>rw_db := cmds_db (rw_db w) cs,
     rw_inbox := (\<lambda>k. rw_inbox w k @ deliveries (rw_pats w k) cs)\<rparr>"

definition ref_receive :: "refworld \<Rightarrow> conn \<Rightarrow> refworld \<times> (go_error + psmsg) go" where
  "ref_receive w k = (case rw_inbox w k of [] \<Rightarrow> (w, Blocked)
     | m # ms \<Rightarrow> (w\<lparr>rw_inbox := (rw_inbox w)(k := ms)\<rparr>, Return (Inr m)))"

definition ref_redis :: "refworld redis" where
  "ref_redis = \<lparr>
     r_do = (\<lambda>w c. (ref_exec w [c], ref_reply (rw_db w) c, None)),
     r_exec = (\<lambda>w cs. (ref_exec w cs, RArray (ref_replies (rw_db w) cs), None)),
     r_psubscribe = (\<lambda>w p. (w\<lparr>rw_pats := (rw_pats w)(rw_next w := [p]),
       rw_inbox := (rw_inbox w)(rw_next w := [Subscription ''psubscribe'' p 1]),
       rw_next := Suc (rw_next w)\<rparr>, rw_next w, None)),
     r_receive = ref_receive,
     r_close = (\<lambda>w k. (w\<lparr>rw_pats := (rw_pats w)(k := []), rw_inbox := (rw_inbox w)(k := [])\<rparr>,
       None))\<rparr>"

definition ref_empty :: refworld where
  "ref_empty = \<lparr>rw_db = Map.empty, rw_inbox = (\<lambda>_. []), rw_pats = (\<lambda>_. []), rw_next = 0\<rparr>"

lemma ref_reply_ok: "cmd_reply d c (ref_reply d c)"
  by (cases c) auto

lemma ref_replies_ok: "cmds_reply d cs (ref_replies d cs)"
  by (induction cs arbitrary: d) (auto simp: ref_reply_ok)

lemmas ref_simps = ref_redis_def ref_exec_def ref_receive_def ref_empty_def

interpretation refred: redis_up ref_redis rw_db rw_inbox rw_pats
  by unfold_locales
    (auto simp: ref_simps ref_reply_ok ref_replies_ok split: list.splits)

end
