(* ===== verification/Broker.thy ===== *)
theory Broker
  imports RedisServer
begin

text \<open>
  Package \<open>broker\<close>: the registrar (\<open>broker.go\<close>, \<open>redis.go\<close>), the writer and the reader of a
  channel (\<open>io.go\<close>) as functions on the world of the Redis client, and what each does to
  the database under the documented behaviour of the server. A method of \<open>*reader\<close> takes
  the reader and returns it updated; a call that may index past the end of a reply or wait
  for a message returns a \<open>go\<close> outcome.
\<close>

section \<open>Channels\<close>

definition redisKeyExpire :: int where "redisKeyExpire = 60"

definition redisChannelExpire :: int where "redisChannelExpire = redisKeyExpire * 5"

definition chan_id :: "string \<Rightarrow> string" where "chan_id c = c @ '':id''"

definition chan_wildcardId :: "string \<Rightarrow> string" where "chan_wildcardId c = c @ '':*''"

definition chan_doneId :: "string \<Rightarrow> string" where "chan_doneId c = c @ '':done''"

definition chan_killId :: "string \<Rightarrow> string" where "chan_killId c = c @ '':kill''"

section \<open>The registrar\<close>

definition registrar_register :: "'w redis \<Rightarrow> 'w \<Rightarrow> string \<Rightarrow> 'w \<times> go_error option" where
  "registrar_register R w channel =
     (let (w', _, err) = r_do R w (SETEX (chan_id channel) redisChannelExpire []) in (w', err))"

definition registrar_isRegistered :: "'w redis \<Rightarrow> 'w \<Rightarrow> string \<Rightarrow> 'w \<times> bool" where
  "registrar_isRegistered R w channel =
     (let (w', rep, err) = r_do R w (EXISTS (chan_id channel));
          (exists, err) = reply_bool rep err
      in (w', if err \<noteq> None then False else exists))"

definition broker_get :: "'w redis \<Rightarrow> 'w \<Rightarrow> string \<Rightarrow> 'w \<times> bytes \<times> go_error option" where
  "broker_get R w key =
     (let (w', rep, err) = r_do R w (GET (chan_id key)) in (w', reply_bytes rep err))"

section \<open>The writer\<close>

text \<open>A writer has no state but its channel.\<close>

definition newWriter :: "'w redis \<Rightarrow> 'w \<Rightarrow> string \<Rightarrow> 'w \<times> (go_error + string)" where
  "newWriter R w key =
     (let (w', reg) = registrar_isRegistered R w key
      in if \<not> reg then (w', Inl ErrNotRegistered) else (w', Inr key))"

definition writer_close :: "'w redis \<Rightarrow> 'w \<Rightarrow> string \<Rightarrow> 'w \<times> go_error option" where
  "writer_close R w c =
     (let (w', _, err) = r_exec R w
        [SETEX (chan_doneId c) redisChannelExpire [CHR 0x01],
         PUBLISH (chan_killId c) ''1'']
      in (w', err))"

definition writer_write ::
  "'w redis \<Rightarrow> 'w \<Rightarrow> string \<Rightarrow> bytes \<Rightarrow> 'w \<times> nat \<times> go_error option" where
  "writer_write R w c p =
     (let (w', _, err) = r_exec R w
        [APPEND (chan_id c) p,
         EXPIRE (chan_id c) redisChannelExpire,
         DEL (chan_doneId c),
         PUBLISH (chan_id c) ''1'']
      in (w', length p, err))"

section \<open>The reader\<close>

record reader =
  rd_channel :: string
  rd_psc :: conn
  rd_offset :: int
  rd_replayed :: bool
  rd_closed :: bool
  rd_buffered :: bool

text \<open>
  The result of a read into a buffer: the buffer after the call, the count and the error.
\<close>

type_synonym read_result = "(bytes \<times> nat \<times> go_error option) go"

definition new_reader :: "string \<Rightarrow> conn \<Rightarrow> reader" where
  "new_reader channel psc = \<lparr>rd_channel = channel, rd_psc = psc, rd_offset = 0,
     rd_replayed = False, rd_closed = False, rd_buffered = False\<rparr>"

text \<open>The error of \<open>PSubscribe\<close> is dropped.\<close>

definition newReader :: "'w redis \<Rightarrow> 'w \<Rightarrow> string \<Rightarrow> 'w \<times> (go_error + reader)" where
  "newReader R w key =
     (let (w1, reg) = registrar_isRegistered R w key
      in if \<not> reg then (w1, Inl ErrNotRegistered)
         else let (w2, psc, _) = r_psubscribe R w1 (chan_wildcardId key)
              in (w2, Inr (new_reader key psc)))"

definition reader_seek ::
  "reader \<Rightarrow> int \<Rightarrow> int \<Rightarrow> reader \<times> int \<times> go_error option" where
  "reader_seek r offset whence =
     (if whence \<noteq> 0 \<and> whence \<noteq> 1 then (r, 0, Some ErrWhence)
      else let r' = (if whence = 0 then r\<lparr>rd_offset := offset\<rparr>
                     else r\<lparr>rd_offset := i64 (rd_offset r + offset)\<rparr>)
           in if offset < 0 then (r', 0, Some ErrOffset) else (r', rd_offset r', None))"

text \<open>
  \<open>list[0]\<close>, \<open>list[1]\<close> and \<open>list[2]\<close> are read whatever the error of \<open>EXEC\<close>: a list that is
  too short is a panic.
\<close>

definition reader_fetch ::
  "'w redis \<Rightarrow> 'w \<Rightarrow> reader \<Rightarrow> int \<Rightarrow> 'w \<times> reader \<times> (bytes \<times> go_error option) go" where
  "reader_fetch R w r len =
     (let start = rd_offset r; stop = i64 (rd_offset r + len); c = rd_channel r;
          (w', rep, err) = r_exec R w
            [GETRANGE (chan_id c) start (i64 (stop - 1)),
             STRLEN (chan_id c),
             EXISTS (chan_doneId c),
             EXPIRE (chan_id c) redisChannelExpire];
          (list, err) = reply_values rep err
      in case list of
           x0 # x1 # x2 # _ \<Rightarrow>
             (let (data, err) = reply_bytes x0 err;
                  (size, err) = reply_int64 x1 err;
                  (done, err) = reply_bool x2 err;
                  buffered = (stop < size)
              in (w', r\<lparr>rd_buffered := buffered\<rparr>,
                  Return (data, if \<not> buffered \<and> done then Some EOF else err)))
         | _ \<Rightarrow> (w', r, Panic ''index out of range''))"

definition reader_replay ::
  "'w redis \<Rightarrow> 'w \<Rightarrow> reader \<Rightarrow> bytes \<Rightarrow> 'w \<times> reader \<times> read_result" where
  "reader_replay R w r p =
     (if rd_replayed r then (w, r, Return (p, 0, None))
      else case reader_fetch R w r (int (length p)) of
        (w', r', Return (buf, err)) \<Rightarrow>
          (let n = length buf;
               r1 = (if n > 0 then r'\<lparr>rd_offset := i64 (rd_offset r' + int n)\<rparr> else r');
               p1 = (if n > 0 then fst (go_copy p buf) else p)
           in (w', r1\<lparr>rd_replayed := \<not> rd_buffered r1 \<or> err = Some EOF\<rparr>, Return (p1, n, err)))
      | (w', r', Panic m) \<Rightarrow> (w', r', Panic m)
      | (w', r', Blocked) \<Rightarrow> (w', r', Blocked))"

definition reader_close :: "'w redis \<Rightarrow> 'w \<Rightarrow> reader \<Rightarrow> 'w \<times> reader \<times> go_error option" where
  "reader_close R w r =
     (if rd_closed r then (w, r, None)
      else let (w', err) = r_close R w (rd_psc r) in (w', r\<lparr>rd_closed := True\<rparr>, err))"

text \<open>\<open>read(msg, p)\<close>: only the channel of the message matters.\<close>

definition reader_read_msg ::
  "'w redis \<Rightarrow> 'w \<Rightarrow> reader \<Rightarrow> string \<Rightarrow> bytes \<Rightarrow> 'w \<times> reader \<times> read_result" where
  "reader_read_msg R w r ch p =
     (let kill = chan_killId (rd_channel r); ident = chan_id (rd_channel r);
          (w1, r1, res) =
            (if ch = kill \<or> ch = ident then reader_fetch R w r (int (length p))
             else (w, r, Return ([], None)))
      in case res of
           Return (buf, err) \<Rightarrow>
             (let n = length buf;
                  p1 = (if n > 0 then fst (go_copy p buf) else p);
                  r2 = (if n > 0 then r1\<lparr>rd_offset := i64 (rd_offset r1 + int n)\<rparr> else r1)
              in if ch = kill \<or> err = Some EOF
                 then let (w2, r3, _) = reader_close R w1 r2 in (w2, r3, Return (p1, n, Some EOF))
                 else (w1, r2, Return (p1, n, err)))
         | Panic m \<Rightarrow> (w1, r1, Panic m)
         | Blocked \<Rightarrow> (w1, r1, Blocked))"

text \<open>What \<open>Read\<close> does with what it has received: the cases of its type switch.\<close>

definition reader_on_msg ::
  "'w redis \<Rightarrow> 'w \<Rightarrow> reader \<Rightarrow> go_error + psmsg \<Rightarrow> bytes \<Rightarrow> 'w \<times> reader \<times> read_result" where
  "reader_on_msg R w r msg p =
     (case msg of
        Inr (Message _ _) \<Rightarrow> (w, r, Return (p, 0, None))
      | Inr (PMessage _ ch _) \<Rightarrow> reader_read_msg R w r ch p
      | Inr (Subscription _ _ _) \<Rightarrow> (w, r, Return (p, 0, None))
      | Inl e \<Rightarrow> (w, r, Return (p, 0, Some e)))"

text \<open>
  \<open>Read\<close>. The reader that waits for a message is \<open>Blocked\<close> after its replay; the world in
  which it goes on is the subject of the theory \<open>Bus\<close>.
\<close>

definition reader_read ::
  "'w redis \<Rightarrow> 'w \<Rightarrow> reader \<Rightarrow> bytes \<Rightarrow> 'w \<times> reader \<times> read_result" where
  "reader_read R w r p =
     (if rd_closed r then (w, r, Return (p, 0, Some EOF))
      else case reader_replay R w r p of
        (w1, r1, Return (p1, n, err)) \<Rightarrow>
          (if n > 0 \<or> err \<noteq> None then (w1, r1, Return (p1, n, err))
           else case r_receive R w1 (rd_psc r1) of
             (w2, Return msg) \<Rightarrow> reader_on_msg R w2 r1 msg p1
           | (w2, Panic m) \<Rightarrow> (w2, r1, Panic m)
           | (w2, Blocked) \<Rightarrow> (w2, r1, Blocked))
      | other \<Rightarrow> other)"

section \<open>Functions on readers\<close>

text \<open>
  They take any \<open>io.Reader\<close> and ask whether it is a \<open>*reader\<close>; \<open>None\<close> is a reader of any
  other type.
\<close>

definition readerDone :: "'w redis \<Rightarrow> 'w \<Rightarrow> reader option \<Rightarrow> 'w \<times> bool" where
  "readerDone R w rd =
     (case rd of None \<Rightarrow> (w, False)
      | Some r \<Rightarrow>
          (if rd_closed r then (w, True)
           else let (w', rep, err) = r_do R w (EXISTS (chan_doneId (rd_channel r)))
                in (w', fst (reply_bool rep err))))"

definition noContent :: "'w redis \<Rightarrow> 'w \<Rightarrow> reader option \<Rightarrow> int \<Rightarrow> 'w \<times> bool" where
  "noContent R w rd offset =
     (let (w1, finished) = readerDone R w rd
      in if \<not> finished then (w1, False)
         else case rd of None \<Rightarrow> (w1, False)
         | Some r \<Rightarrow>
             (let (w2, rep, err) = r_do R w1 (STRLEN (chan_id (rd_channel r)));
                  (strlen, err) = reply_int64 rep err
              in if err \<noteq> None then (w2, False) else (w2, offset > i64 (strlen - 1))))"

definition renewExpiry :: "'w redis \<Rightarrow> 'w \<Rightarrow> reader option \<Rightarrow> 'w" where
  "renewExpiry R w rd =
     (case rd of None \<Rightarrow> w
      | Some r \<Rightarrow> fst (r_exec R w [EXPIRE (chan_id (rd_channel r)) redisChannelExpire]))"

section \<open>The database as channels\<close>

text \<open>
  The abstract state of the broker: for each channel its content, when it is registered,
  and whether it is marked done.
\<close>

type_synonym channels = "string \<Rightarrow> bytes option \<times> bool"

definition chan_val :: "db \<Rightarrow> string \<Rightarrow> bytes" where
  "chan_val d c = db_get d (chan_id c)"

definition chan_done :: "db \<Rightarrow> string \<Rightarrow> bool" where
  "chan_done d c \<longleftrightarrow> d (chan_doneId c) \<noteq> None"

definition channels_of :: "db \<Rightarrow> channels" where
  "channels_of d = (\<lambda>c. (map_option fst (d (chan_id c)), chan_done d c))"

lemma redisChannelExpire_pos [simp]: "redisChannelExpire = 300"
  by (simp add: redisChannelExpire_def redisKeyExpire_def)

lemma chan_keys_differ [simp]:
  "chan_id a \<noteq> chan_doneId b" "chan_doneId b \<noteq> chan_id a"
  "chan_id a \<noteq> chan_killId b" "chan_killId b \<noteq> chan_id a"
  "chan_id a = chan_id b \<longleftrightarrow> a = b" "chan_doneId a = chan_doneId b \<longleftrightarrow> a = b"
  "chan_killId a = chan_killId b \<longleftrightarrow> a = b"
proof -
  have "chan_id a \<noteq> chan_doneId b" "chan_id a \<noteq> chan_killId b"
    using arg_cong [of "chan_id a" _ last] by (fastforce simp: chan_id_def chan_doneId_def chan_killId_def)+
  then show "chan_id a \<noteq> chan_doneId b" "chan_doneId b \<noteq> chan_id a"
    "chan_id a \<noteq> chan_killId b" "chan_killId b \<noteq> chan_id a" by metis+
qed (simp_all add: chan_id_def chan_doneId_def chan_killId_def)

lemma db_get_simps [simp]:
  "db_get (d(k \<mapsto> e)) j = (if j = k then fst e else db_get d j)"
  "db_get (d(k := None)) j = (if j = k then [] else db_get d j)"
  by (auto simp: db_get_def split: prod.splits)

lemma expire_frame:
  "0 < s \<Longrightarrow> db_get (cmd_db d (EXPIRE k s)) j = db_get d j"
  "0 < s \<Longrightarrow> cmd_db d (EXPIRE k s) j = None \<longleftrightarrow> d j = None"
  "0 < s \<Longrightarrow> map_option fst (cmd_db d (EXPIRE k s) j) = map_option fst (d j)"
  by (auto simp: db_get_def split: option.splits)

lemma channels_of_expire [simp]: "0 < s \<Longrightarrow> channels_of (cmd_db d (EXPIRE k s)) = channels_of d"
  by (simp only: channels_of_def chan_done_def expire_frame)

lemma channels_of_upd [simp]:
  "channels_of (d(chan_id c \<mapsto> (v, t))) = (channels_of d)(c := (Some v, chan_done d c))"
  "channels_of (d(chan_doneId c := x)) = (channels_of d)(c := (map_option fst (d (chan_id c)), x \<noteq> None))"
  by (rule ext, simp add: channels_of_def chan_done_def)+

lemma chan_done_upd [simp]:
  "chan_done (d(chan_id c := x)) b = chan_done d b"
  "chan_done (d(chan_doneId c := x)) b = (if b = c then x \<noteq> None else chan_done d b)"
  by (auto simp: chan_done_def)

text \<open>The blocks of commands as single updates of the database.\<close>

lemma cmd_db_register:
  "cmd_db d (SETEX (chan_id c) redisChannelExpire []) = d(chan_id c \<mapsto> ([], Some 300))"
  by simp

lemma cmds_db_write:
  "cmds_db d [APPEND (chan_id c) p, EXPIRE (chan_id c) redisChannelExpire, DEL (chan_doneId c), PUBLISH ch m]
   = d(chan_id c \<mapsto> (chan_val d c @ p, Some 300), chan_doneId c := None)"
  by (auto simp: chan_val_def db_get_def split: option.splits)

lemma cmds_db_close:
  "cmds_db d [SETEX (chan_doneId c) redisChannelExpire v, PUBLISH ch m]
   = d(chan_doneId c \<mapsto> (v, Some 300))"
  by simp

lemma cmds_db_fetch:
  "cmds_db d [GETRANGE k a b, STRLEN k', EXISTS k'', EXPIRE j s] = cmd_db d (EXPIRE j s)"
  by simp

lemma cmds_reply_fetch:
  "cmds_reply d [GETRANGE k a b, STRLEN k', EXISTS k'', EXPIRE j s] rs \<longleftrightarrow>
   rs = [RBulk (getrange (db_get d k) a b), RInt (int (length (db_get d k'))),
         RInt (if d k'' = None then 0 else 1), RInt (if d j = None then 0 else 1)]"
  by (auto simp: cmds_reply_Cons)

declare cmd_db.simps [simp del] cmds_db.simps [simp del]

section \<open>The interface of a registrar\<close>

text \<open>
  \<open>Registrar\<close> of \<open>broker.go\<close>: what its clients (the handlers that create a stream) rely on.
  A registration that reports no error is seen by every later lookup that reports a
  channel at all, and a lookup never invents one.
\<close>

locale registrar =
  fixes register :: "'w \<Rightarrow> string \<Rightarrow> 'w \<times> go_error option"
    and isRegistered :: "'w \<Rightarrow> string \<Rightarrow> 'w \<times> bool"
    and known :: "'w \<Rightarrow> string set"
  assumes register_known: "register w c = (w', None) \<Longrightarrow> known w' = insert c (known w)"
    and lookup_known: "isRegistered w c = (w', True) \<Longrightarrow> c \<in> known w \<and> known w' = known w"
begin

lemma lookup_after_register:
  "register w c = (w1, None) \<Longrightarrow> isRegistered w1 b = (w2, True) \<Longrightarrow> b = c \<or> b \<in> known w"
  using register_known lookup_known by blast

lemma register_keeps: "register w c = (w1, None) \<Longrightarrow> known w \<subseteq> known w1 \<and> c \<in> known w1"
  using register_known by blast

end

definition known_channels :: "db \<Rightarrow> string set" where
  "known_channels d = {c. d (chan_id c) \<noteq> None}"

section \<open>The operations under the documented behaviour\<close>

context redis_server
begin

lemma register_db:
  assumes "registrar_register R w c = (w', None)"
  shows "db_of w' = (db_of w)(chan_id c \<mapsto> ([], Some 300))" and "inbox w' = inbox w"
    and "pats w' = pats w"
proof -
  from assms obtain rep where
    "r_do R w (SETEX (chan_id c) redisChannelExpire []) = (w', rep, None)"
    by (auto simp: registrar_register_def Let_def split: prod.splits)
  from do_law [OF this] show "db_of w' = (db_of w)(chan_id c \<mapsto> ([], Some 300))"
    "inbox w' = inbox w" "pats w' = pats w"
    by (simp_all only: cmd_db_register deliver.simps append_Nil2)
qed

lemma isRegistered_db:
  assumes "registrar_isRegistered R w c = (w', True)"
  shows "db_of w (chan_id c) \<noteq> None" and "db_of w' = db_of w" and "inbox w' = inbox w"
    and "pats w' = pats w"
proof -
  obtain rep err where do: "r_do R w (EXISTS (chan_id c)) = (w', rep, err)"
    and b: "reply_bool rep err = (True, None)"
    using assms by (auto simp: registrar_isRegistered_def Let_def split: prod.splits if_splits)
  with reply_no_err(3) have "r_do R w (EXISTS (chan_id c)) = (w', rep, None)" by blast
  from do_law [OF this] have "rep = RInt (if db_of w (chan_id c) = None then 0 else 1)"
    and rest: "db_of w' = db_of w" "inbox w' = inbox w" "pats w' = pats w"
    by (simp_all add: cmd_db.simps)
  with b reply_no_err(3) [OF b] show "db_of w (chan_id c) \<noteq> None" "db_of w' = db_of w"
    "inbox w' = inbox w" "pats w' = pats w"
    by (auto split: if_splits)
qed

lemma write_db:
  assumes "writer_write R w c p = (w', n, None)"
  shows "db_of w' = (db_of w)(chan_id c \<mapsto> (chan_val (db_of w) c @ p, Some 300), chan_doneId c := None)"
    and "n = length p"
    and "inbox w' = (\<lambda>k. inbox w k @ deliver (pats w k) (PUBLISH (chan_id c) ''1''))"
    and "pats w' = pats w"
proof -
  from assms obtain rep where
    "r_exec R w [APPEND (chan_id c) p, EXPIRE (chan_id c) redisChannelExpire,
       DEL (chan_doneId c), PUBLISH (chan_id c) ''1''] = (w', rep, None)"
    by (auto simp: writer_write_def Let_def split: prod.splits)
  from exec_law [OF this]
  show "db_of w' = (db_of w)(chan_id c \<mapsto> (chan_val (db_of w) c @ p, Some 300), chan_doneId c := None)"
    "inbox w' = (\<lambda>k. inbox w k @ deliver (pats w k) (PUBLISH (chan_id c) ''1''))"
    "pats w' = pats w"
    by (simp_all only: cmds_db_write deliveries_simps) simp
  show "n = length p" using assms by (auto simp: writer_write_def Let_def split: prod.splits)
qed

lemma close_db:
  assumes "writer_close R w c = (w', None)"
  shows "db_of w' = (db_of w)(chan_doneId c \<mapsto> ([CHR 0x01], Some 300))"
    and "inbox w' = (\<lambda>k. inbox w k @ deliver (pats w k) (PUBLISH (chan_killId c) ''1''))"
    and "pats w' = pats w"
proof -
  from assms obtain rep where
    "r_exec R w [SETEX (chan_doneId c) redisChannelExpire [CHR 0x01],
       PUBLISH (chan_killId c) ''1''] = (w', rep, None)"
    by (auto simp: writer_close_def Let_def split: prod.splits)
  from exec_law [OF this] show "db_of w' = (db_of w)(chan_doneId c \<mapsto> ([CHR 0x01], Some 300))"
    "inbox w' = (\<lambda>k. inbox w k @ deliver (pats w k) (PUBLISH (chan_killId c) ''1''))"
    "pats w' = pats w"
    by (simp_all only: cmds_db_close deliveries_simps) simp
qed

end

sublocale redis_server \<subseteq> reg: registrar "registrar_register R" "registrar_isRegistered R"
  "\<lambda>w. known_channels (db_of w)"
  by unfold_locales (auto simp: known_channels_def dest: register_db isRegistered_db)

interpretation refreg: registrar "registrar_register ref_redis" "registrar_isRegistered ref_redis"
  "\<lambda>w. known_channels (rw_db w)"
  by (rule refred.reg.registrar_axioms)

section \<open>Reading from a channel\<close>

text \<open>
  What a fetch that returns has done. \<open>readable\<close> is the range of offsets for which the
  arithmetic of \<open>int64\<close> does not wrap around in a read of \<open>l\<close> bytes.
\<close>

definition readable :: "reader \<Rightarrow> nat \<Rightarrow> bool" where
  "readable r l \<longleftrightarrow> 0 < l \<and> 0 \<le> rd_offset r \<and> rd_offset r + int l < 2 ^ 63"

definition unread :: "db \<Rightarrow> reader \<Rightarrow> bytes" where
  "unread d r = drop (nat (rd_offset r)) (chan_val d (rd_channel r))"

lemma readable_i64:
  assumes "readable r l"
  shows "i64 (rd_offset r + int l) = rd_offset r + int l"
    and "i64 (rd_offset r + int l - 1) = rd_offset r + int l - 1"
    and "n \<le> l \<Longrightarrow> i64 (rd_offset r + int n) = rd_offset r + int n"
  using assms by (auto simp: readable_def intro!: i64_nonneg)

lemma stop_less_size:
  "0 \<le> rd_offset r \<Longrightarrow>
   rd_offset r + int l < int (length (chan_val d (rd_channel r))) \<longleftrightarrow> l < length (unread d r)"
  by (auto simp: unread_def)

lemma chan_val_channels:
  "channels_of d = channels_of d' \<Longrightarrow> chan_val d c = chan_val d' c \<and> chan_done d c = chan_done d' c"
proof -
  assume "channels_of d = channels_of d'"
  then have "channels_of d c = channels_of d' c" by simp
  then show ?thesis
    by (auto simp: channels_of_def chan_val_def db_get_def split: option.splits)
qed

lemma unread_same:
  "channels_of d' = channels_of d \<Longrightarrow> rd_channel r' = rd_channel r \<Longrightarrow>
   rd_offset r' = rd_offset r + int k \<Longrightarrow> 0 \<le> rd_offset r \<Longrightarrow> unread d' r' = drop k (unread d r)"
  using chan_val_channels [of d' d "rd_channel r"]
  by (simp add: unread_def nat_add_distrib add.commute)

context redis_server
begin

lemma fetch_exec:
  assumes "reader_fetch R w r len = (w', r', Return (data, err))"
  defines "d \<equiv> db_of w" and "c \<equiv> rd_channel r" and "stop \<equiv> i64 (rd_offset r + len)"
  shows "data = getrange (chan_val d c) (rd_offset r) (i64 (stop - 1))"
    and "r' = r\<lparr>rd_buffered := stop < int (length (chan_val d c))\<rparr>"
    and "err = (if \<not> stop < int (length (chan_val d c)) \<and> chan_done d c then Some EOF else None)"
    and "db_of w' = cmd_db d (EXPIRE (chan_id c) redisChannelExpire)"
    and "inbox w' = inbox w" and "pats w' = pats w"
proof -
  let ?cs = "[GETRANGE (chan_id c) (rd_offset r) (i64 (stop - 1)), STRLEN (chan_id c),
    EXISTS (chan_doneId c), EXPIRE (chan_id c) redisChannelExpire]"
  obtain w1 rep e where ex: "r_exec R w ?cs = (w1, rep, e)" by (metis prod_cases3)
  obtain rs e' where v: "reply_values rep e = (rs, e')" by (metis surj_pair)
  have "rs \<noteq> []"
    using assms(1) ex v by (auto simp: reader_fetch_def Let_def d_def c_def stop_def)
  with v reply_values_fail have "e' = None" by (cases e') auto
  with v reply_no_err(4) have e: "e = None" by blast
  from exec_law [OF ex [unfolded e]] have
    rs: "rep = RArray [RBulk (getrange (chan_val d c) (rd_offset r) (i64 (stop - 1))),
      RInt (int (length (chan_val d c))), RInt (if d (chan_doneId c) = None then 0 else 1),
      RInt (if d (chan_id c) = None then 0 else 1)]"
    and w1: "db_of w1 = cmd_db d (EXPIRE (chan_id c) redisChannelExpire)"
      "inbox w1 = inbox w" "pats w1 = pats w"
    by (auto simp: cmds_reply_fetch cmds_db_fetch chan_val_def d_def)
  show "data = getrange (chan_val d c) (rd_offset r) (i64 (stop - 1))"
    "r' = r\<lparr>rd_buffered := stop < int (length (chan_val d c))\<rparr>"
    "err = (if \<not> stop < int (length (chan_val d c)) \<and> chan_done d c then Some EOF else None)"
    "db_of w' = cmd_db d (EXPIRE (chan_id c) redisChannelExpire)"
    "inbox w' = inbox w" "pats w' = pats w"
    using assms(1) ex e rs w1
    by (auto simp: reader_fetch_def Let_def d_def c_def stop_def chan_done_def split: if_splits)
qed

text \<open>A fetch in the readable range: the next bytes of the channel, at most \<open>l\<close> of them.\<close>

lemma fetch_readable:
  assumes "reader_fetch R w r (int l) = (w', r', Return (data, err))" and "readable r l"
  shows "data = take l (unread (db_of w) r)"
    and "r' = r\<lparr>rd_buffered := l < length (unread (db_of w) r)\<rparr>"
    and "err = (if length (unread (db_of w) r) \<le> l \<and> chan_done (db_of w) (rd_channel r)
      then Some EOF else None)"
    and "channels_of (db_of w') = channels_of (db_of w)"
    and "inbox w' = inbox w" and "pats w' = pats w"
proof -
  note f = fetch_exec [OF assms(1)]
  have pos: "0 \<le> rd_offset r" "0 < l" using assms(2) by (simp_all add: readable_def)
  show "data = take l (unread (db_of w) r)"
    using f(1) getrange_take_drop [OF pos] by (simp add: readable_i64 [OF assms(2)] unread_def)
  show "r' = r\<lparr>rd_buffered := l < length (unread (db_of w) r)\<rparr>"
    using f(2) by (simp add: readable_i64 [OF assms(2)] stop_less_size [OF pos(1)])
  show "err = (if length (unread (db_of w) r) \<le> l \<and> chan_done (db_of w) (rd_channel r)
      then Some EOF else None)"
    using f(3) by (simp add: readable_i64 [OF assms(2)] stop_less_size [OF pos(1)] not_less)
  show "channels_of (db_of w') = channels_of (db_of w)" using f(4) by simp
  show "inbox w' = inbox w" "pats w' = pats w" by (rule f(5), rule f(6))
qed

text \<open>The replay phase of a read, when it has not been through yet.\<close>

lemma replay_readable:
  assumes "reader_replay R w r p = (w', r', Return (p', n, err))"
    and "\<not> rd_replayed r" and rd: "readable r (length p)"
  defines "u \<equiv> unread (db_of w) r"
  shows "n = min (length p) (length u)" and "take n p' = take (length p) u"
    and "length p' = length p"
    and "err = (if length u \<le> length p \<and> chan_done (db_of w) (rd_channel r) then Some EOF else None)"
    and "r' = r\<lparr>rd_offset := rd_offset r + int n, rd_buffered := length p < length u,
      rd_replayed := length u \<le> length p\<rparr>"
    and "channels_of (db_of w') = channels_of (db_of w)"
    and "inbox w' = inbox w" and "pats w' = pats w"
proof -
  obtain w1 r1 buf e where f: "reader_fetch R w r (int (length p)) = (w1, r1, Return (buf, e))"
    using assms(1,2) by (auto simp: reader_replay_def split: prod.splits go.splits)
  note fr = fetch_readable [OF f rd, folded u_def]
  from assms(1,2) f have eqs: "w' = w1" "n = length buf" "err = e"
    "p' = (if buf = [] then p else fst (go_copy p buf))"
    "r' = (let r2 = (if buf = [] then r1 else r1\<lparr>rd_offset := i64 (rd_offset r1 + int (length buf))\<rparr>)
       in r2\<lparr>rd_replayed := \<not> rd_buffered r2 \<or> e = Some EOF\<rparr>)"
    by (auto simp: reader_replay_def Let_def)
  show n: "n = min (length p) (length u)" using eqs(2) fr(1) by simp
  have le: "length buf \<le> length p" using fr(1) by simp
  show "take n p' = take (length p) u" "length p' = length p"
    using eqs(2,4) fr(1) take_fst_go_copy [OF le] by auto
  show "err = (if length u \<le> length p \<and> chan_done (db_of w) (rd_channel r) then Some EOF else None)"
    using eqs(3) fr(3) by simp
  have "rd_offset r1 = rd_offset r" using fr(2) by simp
  with eqs(5) fr(2,3) readable_i64(3) [OF rd le] eqs(2) show
    "r' = r\<lparr>rd_offset := rd_offset r + int n, rd_buffered := length p < length u,
      rd_replayed := length u \<le> length p\<rparr>"
    by (auto simp: Let_def not_less)
  show "channels_of (db_of w') = channels_of (db_of w)" "inbox w' = inbox w" "pats w' = pats w"
    using eqs(1) fr(4-6) by simp_all
qed

lemma reader_close_frame:
  assumes "reader_close R w r = (w', r', e)"
  shows "r' = r\<lparr>rd_closed := True\<rparr>" and "db_of w' = db_of w"
  using assms close_law [of w "rd_psc r"]
  by (auto simp: reader_close_def split: if_splits prod.splits)

text \<open>A message on a channel of the reader: fetch, and stop when it is the kill or the end.\<close>

lemma read_msg_readable:
  assumes "reader_read_msg R w r ch p = (w', r', Return (p', n, err))"
    and ch: "ch = chan_killId (rd_channel r) \<or> ch = chan_id (rd_channel r)"
    and rd: "readable r (length p)"
  defines "u \<equiv> unread (db_of w) r"
  defines "stop \<equiv> ch = chan_killId (rd_channel r)
    \<or> length u \<le> length p \<and> chan_done (db_of w) (rd_channel r)"
  shows "n = min (length p) (length u)" and "take n p' = take (length p) u"
    and "length p' = length p" and "err = (if stop then Some EOF else None)"
    and "r' = r\<lparr>rd_offset := rd_offset r + int n, rd_buffered := length p < length u,
      rd_closed := rd_closed r \<or> stop\<rparr>"
    and "channels_of (db_of w') = channels_of (db_of w)"
    and "\<not> stop \<Longrightarrow> inbox w' = inbox w" and "\<not> stop \<Longrightarrow> pats w' = pats w"
proof -
  obtain w1 r1 buf e where f: "reader_fetch R w r (int (length p)) = (w1, r1, Return (buf, e))"
    using assms(1) ch by (auto simp: reader_read_msg_def Let_def split: prod.splits go.splits)
  note fr = fetch_readable [OF f rd, folded u_def]
  have le: "length buf \<le> length p" using fr(1) by simp
  define r2 where "r2 = r\<lparr>rd_offset := rd_offset r + int (length buf), rd_buffered := length p < length u\<rparr>"
  have r2: "(if buf = [] then r1 else r1\<lparr>rd_offset := i64 (rd_offset r1 + int (length buf))\<rparr>) = r2"
    using fr(2) readable_i64(3) [OF rd le] by (simp add: r2_def)
  have e: "ch = chan_killId (rd_channel r) \<or> e = Some EOF \<longleftrightarrow> stop"
    using fr(3) by (auto simp: stop_def)
  obtain w2 r3 ce where c: "reader_close R w1 r2 = (w2, r3, ce)" by (metis prod_cases3)
  note cf = reader_close_frame [OF c]
  from assms(1) ch f r2 c e have eqs: "n = length buf"
    "p' = (if buf = [] then p else fst (go_copy p buf))"
    "err = (if stop then Some EOF else e)"
    "r' = (if stop then r3 else r2)" "w' = (if stop then w2 else w1)"
    by (auto simp: reader_read_msg_def Let_def split: if_splits)
  show n: "n = min (length p) (length u)" using eqs(1) fr(1) by simp
  show "take n p' = take (length p) u" "length p' = length p"
    using eqs(1,2) fr(1) take_fst_go_copy [OF le] by auto
  show "err = (if stop then Some EOF else None)" using eqs(3) fr(3) by (auto simp: stop_def)
  show "r' = r\<lparr>rd_offset := rd_offset r + int n, rd_buffered := length p < length u,
      rd_closed := rd_closed r \<or> stop\<rparr>"
    using eqs(1,4) cf(1) by (simp add: r2_def)
  show "channels_of (db_of w') = channels_of (db_of w)" using eqs(5) cf(2) fr(4) by simp
  show "\<not> stop \<Longrightarrow> inbox w' = inbox w" "\<not> stop \<Longrightarrow> pats w' = pats w" using eqs(5) fr(5,6) by simp_all
qed

lemma read_msg_other:
  assumes "ch \<noteq> chan_killId (rd_channel r)" and "ch \<noteq> chan_id (rd_channel r)"
  shows "reader_read_msg R w r ch p = (w, r, Return (p, 0, None))"
  using assms by (simp add: reader_read_msg_def Let_def)

end

text \<open>Where the server answers, a fetch and a replay return.\<close>

context redis_up
begin

lemma fetch_returns: "\<exists>w' r' data err. reader_fetch R w r len = (w', r', Return (data, err))"
proof -
  let ?c = "rd_channel r" and ?stop = "i64 (rd_offset r + len)"
  let ?cs = "[GETRANGE (chan_id ?c) (rd_offset r) (i64 (?stop - 1)), STRLEN (chan_id ?c),
    EXISTS (chan_doneId ?c), EXPIRE (chan_id ?c) redisChannelExpire]"
  obtain w' rep where ex: "r_exec R w ?cs = (w', rep, None)" using exec_up by blast
  then obtain x0 x1 x2 x3 where "rep = RArray [x0, x1, x2, x3]"
    using exec_law [OF ex] by (auto simp: cmds_reply_fetch)
  with ex show ?thesis by (simp add: reader_fetch_def Let_def split: prod.splits)
qed

lemma replay_returns: "\<exists>w' r' p' n err. reader_replay R w r p = (w', r', Return (p', n, err))"
  using fetch_returns [of w r "int (length p)"] by (auto simp: reader_replay_def Let_def)

end

end
