(* ===== verification/Bus.thy ===== *)
theory Bus
  imports Broker "HOL-Library.Sublist"
begin

text \<open>
  One reader of a channel, its publisher and the rest of the world, interleaved at the
  grain of the server: every block of commands and every reception is one step, so a
  publisher may act between the replay of a \<open>Read\<close>, the message it waits for and the fetch
  that answers it. The steps of the reader are the phases of \<open>reader_read\<close>; the steps of the
  environment are the writers of this and of other channels.
\<close>

section \<open>States and steps\<close>

text \<open>
  Where the reader stands: between two calls of \<open>Read\<close>, in the wait of \<open>psc.Receive()\<close>, with
  a message in hand, after a call that returned an error, or after an error of the
  subscription's connection.
\<close>

datatype rpc = Idle | Waiting | Got psmsg | Finished go_error | Broken go_error

record 'w bus =
  b_world :: 'w
  b_reader :: reader
  b_pc :: rpc
  b_out :: bytes     \<comment> \<open>what the calls of \<open>Read\<close> have returned so far\<close>
  b_ended :: bool    \<comment> \<open>the publisher has closed the channel\<close>

definition after_read :: "go_error option \<Rightarrow> rpc \<Rightarrow> rpc" where
  "after_read err pc = (case err of None \<Rightarrow> pc | Some e \<Rightarrow> Finished e)"

text \<open>The reader: buffers have \<open>l\<close> bytes, their content before the call is arbitrary.\<close>

inductive reader_step :: "'w redis \<Rightarrow> nat \<Rightarrow> 'w bus \<Rightarrow> 'w bus \<Rightarrow> bool" for R l where
  read_replay: "b_pc s = Idle \<Longrightarrow> \<not> rd_closed (b_reader s) \<Longrightarrow> length p = l \<Longrightarrow>
    reader_replay R (b_world s) (b_reader s) p = (w', r', Return (p', n, err)) \<Longrightarrow>
    reader_step R l s (s\<lparr>b_world := w', b_reader := r', b_out := b_out s @ take n p',
      b_pc := after_read err (if n > 0 then Idle else Waiting)\<rparr>)"
| read_receive: "b_pc s = Waiting \<Longrightarrow>
    r_receive R (b_world s) (rd_psc (b_reader s)) = (w', Return (Inr msg)) \<Longrightarrow>
    reader_step R l s (s\<lparr>b_world := w', b_pc := Got msg\<rparr>)"
| read_broken: "b_pc s = Waiting \<Longrightarrow>
    r_receive R (b_world s) (rd_psc (b_reader s)) = (w', Return (Inl e)) \<Longrightarrow>
    reader_step R l s (s\<lparr>b_world := w', b_pc := Broken e\<rparr>)"
| read_message: "b_pc s = Got msg \<Longrightarrow> length p = l \<Longrightarrow>
    reader_on_msg R (b_world s) (b_reader s) (Inr msg) p = (w', r', Return (p', n, err)) \<Longrightarrow>
    reader_step R l s (s\<lparr>b_world := w', b_reader := r', b_out := b_out s @ take n p',
      b_pc := after_read err Idle\<rparr>)"

text \<open>
  The environment: the publisher of the channel writes at most \<open>m\<close> bytes at a time and
  nothing after it has closed; the readers renew the expiry; other channels are registered,
  written and closed.
\<close>

inductive env_step :: "'w redis \<Rightarrow> nat \<Rightarrow> 'w bus \<Rightarrow> 'w bus \<Rightarrow> bool" for R m where
  env_write: "\<not> b_ended s \<Longrightarrow> length p \<le> m \<Longrightarrow>
    writer_write R (b_world s) (rd_channel (b_reader s)) p = (w', n, None) \<Longrightarrow>
    env_step R m s (s\<lparr>b_world := w'\<rparr>)"
| env_close: "writer_close R (b_world s) (rd_channel (b_reader s)) = (w', None) \<Longrightarrow>
    env_step R m s (s\<lparr>b_world := w', b_ended := True\<rparr>)"
| env_renew: "r_exec R (b_world s) [EXPIRE (chan_id c) redisChannelExpire] = (w', rep, None) \<Longrightarrow>
    env_step R m s (s\<lparr>b_world := w'\<rparr>)"
| other_register: "c \<noteq> rd_channel (b_reader s) \<Longrightarrow>
    registrar_register R (b_world s) c = (w', None) \<Longrightarrow> env_step R m s (s\<lparr>b_world := w'\<rparr>)"
| other_write: "c \<noteq> rd_channel (b_reader s) \<Longrightarrow>
    writer_write R (b_world s) c p = (w', n, None) \<Longrightarrow> env_step R m s (s\<lparr>b_world := w'\<rparr>)"
| other_close: "c \<noteq> rd_channel (b_reader s) \<Longrightarrow>
    writer_close R (b_world s) c = (w', None) \<Longrightarrow> env_step R m s (s\<lparr>b_world := w'\<rparr>)"

inductive bus_reach :: "'w redis \<Rightarrow> nat \<Rightarrow> nat \<Rightarrow> 'w bus \<Rightarrow> 'w bus \<Rightarrow> bool" for R l m s0 where
  bus_start: "bus_reach R l m s0 s0"
| bus_reader: "bus_reach R l m s0 s \<Longrightarrow> reader_step R l s t \<Longrightarrow> bus_reach R l m s0 t"
| bus_env: "bus_reach R l m s0 s \<Longrightarrow> env_step R m s t \<Longrightarrow> bus_reach R l m s0 t"

text \<open>A schedule of these steps, as a function: the buffers hold zero bytes before each call.\<close>

datatype act = Read_on | Write_chunk bytes | Close_channel

definition reader_act :: "'w redis \<Rightarrow> nat \<Rightarrow> 'w bus \<Rightarrow> 'w bus option" where
  "reader_act R l s =
     (case b_pc s of
        Idle \<Rightarrow>
          (if rd_closed (b_reader s) then None
           else case reader_replay R (b_world s) (b_reader s) (replicate l CHR 0x00) of
             (w', r', Return (p', n, err)) \<Rightarrow>
               Some (s\<lparr>b_world := w', b_reader := r', b_out := b_out s @ take n p',
                 b_pc := after_read err (if n > 0 then Idle else Waiting)\<rparr>)
           | _ \<Rightarrow> None)
      | Waiting \<Rightarrow>
          (case r_receive R (b_world s) (rd_psc (b_reader s)) of
             (w', Return (Inr msg)) \<Rightarrow> Some (s\<lparr>b_world := w', b_pc := Got msg\<rparr>)
           | (w', Return (Inl e)) \<Rightarrow> Some (s\<lparr>b_world := w', b_pc := Broken e\<rparr>)
           | _ \<Rightarrow> None)
      | Got msg \<Rightarrow>
          (case reader_on_msg R (b_world s) (b_reader s) (Inr msg) (replicate l CHR 0x00) of
             (w', r', Return (p', n, err)) \<Rightarrow>
               Some (s\<lparr>b_world := w', b_reader := r', b_out := b_out s @ take n p',
                 b_pc := after_read err Idle\<rparr>)
           | _ \<Rightarrow> None)
      | _ \<Rightarrow> None)"

definition publisher_act :: "'w redis \<Rightarrow> nat \<Rightarrow> 'w bus \<Rightarrow> bytes option \<Rightarrow> 'w bus option" where
  "publisher_act R m s chunk =
     (case chunk of
        Some p \<Rightarrow>
          (if b_ended s \<or> m < length p then None
           else case writer_write R (b_world s) (rd_channel (b_reader s)) p of
             (w', n, None) \<Rightarrow> Some (s\<lparr>b_world := w'\<rparr>) | _ \<Rightarrow> None)
      | None \<Rightarrow>
          (case writer_close R (b_world s) (rd_channel (b_reader s)) of
             (w', None) \<Rightarrow> Some (s\<lparr>b_world := w', b_ended := True\<rparr>) | _ \<Rightarrow> None))"

fun bus_act :: "'w redis \<Rightarrow> nat \<Rightarrow> nat \<Rightarrow> 'w bus \<Rightarrow> act \<Rightarrow> 'w bus option" where
  "bus_act R l m s Read_on = reader_act R l s"
| "bus_act R l m s (Write_chunk p) = publisher_act R m s (Some p)"
| "bus_act R l m s Close_channel = publisher_act R m s None"

fun bus_run :: "'w redis \<Rightarrow> nat \<Rightarrow> nat \<Rightarrow> 'w bus \<Rightarrow> act list \<Rightarrow> 'w bus option" where
  "bus_run R l m s [] = Some s"
| "bus_run R l m s (a # as) =
     (case bus_act R l m s a of None \<Rightarrow> None | Some t \<Rightarrow> bus_run R l m t as)"

lemma reader_act_step:
  assumes "reader_act R l s = Some t"
  shows "reader_step R l s t"
proof (cases "b_pc s")
  case Idle
  let ?p = "replicate l CHR 0x00"
  obtain w' r' p' n err where cl: "\<not> rd_closed (b_reader s)"
    and rp: "reader_replay R (b_world s) (b_reader s) ?p = (w', r', Return (p', n, err))"
    using assms Idle by (auto simp: reader_act_def split: if_splits prod.splits go.splits)
  from read_replay [OF Idle cl length_replicate rp] show ?thesis
    using assms Idle cl rp by (simp add: reader_act_def)
next
  case Waiting
  with assms show ?thesis
    by (auto simp: reader_act_def split: prod.splits go.splits sum.splits
        intro: read_receive read_broken)
next
  case (Got msg)
  let ?p = "replicate l CHR 0x00"
  obtain w' r' p' n err where
    om: "reader_on_msg R (b_world s) (b_reader s) (Inr msg) ?p = (w', r', Return (p', n, err))"
    using assms Got by (auto simp: reader_act_def split: prod.splits go.splits)
  from read_message [OF Got length_replicate om] show ?thesis
    using assms Got om by (simp add: reader_act_def)
qed (use assms in \<open>simp_all add: reader_act_def\<close>)

lemma publisher_act_step: "publisher_act R m s chunk = Some t \<Longrightarrow> env_step R m s t"
  by (auto simp: publisher_act_def not_less split: option.splits if_splits prod.splits
      intro: env_write env_close)

lemma bus_run_reach:
  "bus_reach R l m s0 s \<Longrightarrow> bus_run R l m s as = Some t \<Longrightarrow> bus_reach R l m s0 t"
proof (induction as arbitrary: s)
  case (Cons a as)
  then obtain u where u: "bus_act R l m s a = Some u" "bus_run R l m u as = Some t"
    by (auto split: option.splits)
  then have "reader_step R l s u \<or> env_step R m s u"
    by (cases a) (auto dest: reader_act_step publisher_act_step)
  with Cons.prems(1) have "bus_reach R l m s0 u" by (blast intro: bus_reader bus_env)
  with u(2) show ?case by (rule Cons.IH [rotated])
qed simp

text \<open>The start: a reader that has subscribed and been moved to the offset \<open>start\<close>.\<close>

definition bus_init ::
  "('w \<Rightarrow> db) \<Rightarrow> ('w \<Rightarrow> conn \<Rightarrow> psmsg list) \<Rightarrow> ('w \<Rightarrow> conn \<Rightarrow> string list) \<Rightarrow> string \<Rightarrow> nat \<Rightarrow> 'w bus \<Rightarrow> bool"
where
  "bus_init db_of inbox pats c start s \<longleftrightarrow>
     (let k = rd_psc (b_reader s); w = b_world s in
      b_reader s = (new_reader c k)\<lparr>rd_offset := int start\<rparr> \<and> b_pc s = Idle \<and> b_out s = []
      \<and> pats w k = [chan_wildcardId c]
      \<and> inbox w k = [Subscription ''psubscribe'' (chan_wildcardId c) 1]
      \<and> b_ended s = chan_done (db_of w) c)"

section \<open>Safety: the reader returns the bytes of the channel, in order, none twice\<close>

text \<open>
  \<open>bus_safe\<close>: what was read is the segment of the channel between the start and the
  reader's offset.
\<close>

definition bus_safe :: "('w \<Rightarrow> db) \<Rightarrow> string \<Rightarrow> nat \<Rightarrow> 'w bus \<Rightarrow> bool" where
  "bus_safe db_of c start s \<longleftrightarrow>
     (let log = chan_val (db_of (b_world s)) c; off = nat (rd_offset (b_reader s)) in
      rd_channel (b_reader s) = c \<and> int start \<le> rd_offset (b_reader s)
      \<and> (off \<le> length log \<or> off = start) \<and> b_out s = drop start (take off log))"

lemma chan_val_upd [simp]:
  "chan_val (d(chan_id a \<mapsto> (v, t))) c = (if c = a then v else chan_val d c)"
  "chan_val (d(chan_doneId a := x)) c = chan_val d c"
  by (auto simp: chan_val_def db_get_def)

lemma safe_grow:
  assumes "bus_safe db_of c start s" and "chan_val (db_of w') c = chan_val (db_of (b_world s)) c @ q"
  shows "bus_safe db_of c start (s\<lparr>b_world := w', b_ended := e, b_pc := pc\<rparr>)"
  using assms by (auto simp: bus_safe_def Let_def)

lemma safe_read:
  assumes "bus_safe db_of c start s"
    and "channels_of (db_of w') = channels_of (db_of (b_world s))"
    and "data = take l (unread (db_of (b_world s)) (b_reader s))"
    and "rd_offset r' = rd_offset (b_reader s) + int (length data)" and "rd_channel r' = c"
  shows "bus_safe db_of c start (s\<lparr>b_world := w', b_reader := r', b_out := b_out s @ data, b_pc := pc\<rparr>)"
proof -
  let ?log = "chan_val (db_of (b_world s)) c" and ?off = "nat (rd_offset (b_reader s))"
  have log: "chan_val (db_of w') c = ?log" using chan_val_channels [OF assms(2)] by blast
  have safe: "rd_channel (b_reader s) = c" "start \<le> ?off" "0 \<le> rd_offset (b_reader s)"
    "?off \<le> length ?log \<or> ?off = start" "b_out s = drop start (take ?off ?log)"
    using assms(1) by (auto simp: bus_safe_def Let_def)
  have data: "data = take l (drop ?off ?log)" using assms(3) safe(1) by (simp add: unread_def)
  have off: "nat (rd_offset r') = ?off + length data" using assms(4) safe(3) by simp
  have "take (?off + length data) ?log = take ?off ?log @ data"
    unfolding data take_add by (simp add: min_def)
  moreover have "drop start (take ?off ?log @ data) = drop start (take ?off ?log) @ data"
    using safe(2,4) data by (cases "?off \<le> length ?log") auto
  ultimately have "b_out s @ data = drop start (take (nat (rd_offset r')) ?log)"
    using safe(5) off by simp
  moreover have "?off + length data \<le> length ?log \<or> data = []" using data by auto
  ultimately show ?thesis
    using assms(4,5) safe off by (auto simp: bus_safe_def Let_def log)
qed

text \<open>What one step of the reader reads: at most \<open>l\<close> of the bytes it has not read.\<close>

definition reads :: "('w \<Rightarrow> db) \<Rightarrow> 'w bus \<Rightarrow> 'w bus \<Rightarrow> bytes \<Rightarrow> bool" where
  "reads db_of s t data \<longleftrightarrow>
     channels_of (db_of (b_world t)) = channels_of (db_of (b_world s))
     \<and> b_out t = b_out s @ data
     \<and> rd_offset (b_reader t) = rd_offset (b_reader s) + int (length data)
     \<and> rd_channel (b_reader t) = rd_channel (b_reader s)
     \<and> rd_psc (b_reader t) = rd_psc (b_reader s) \<and> b_ended t = b_ended s"

lemma reads_safe:
  assumes "bus_safe db_of c start s" and "reads db_of s t data"
    and "\<exists>k. data = take k (unread (db_of (b_world s)) (b_reader s))"
  shows "bus_safe db_of c start t"
proof -
  from assms(3) obtain k where "data = take k (unread (db_of (b_world s)) (b_reader s))" ..
  moreover have "rd_channel (b_reader s) = c" using assms(1) by (simp add: bus_safe_def Let_def)
  ultimately show ?thesis
    using safe_read [OF assms(1), of "b_world t" data k "b_reader t" "b_pc t"] assms(2)
    by (simp add: reads_def bus_safe_def)
qed

context redis_server
begin

lemma replay_reads:
  assumes "reader_replay R (b_world s) (b_reader s) p = (w', r', Return (p', n, err))"
    and "readable (b_reader s) (length p)"
    and t_def: "t = s\<lparr>b_world := w', b_reader := r', b_out := b_out s @ take n p', b_pc := pc\<rparr>"
  shows "reads db_of s t (take n p')"
    and "\<exists>k. take n p' = take k (unread (db_of (b_world s)) (b_reader s))"
proof (atomize (full), cases "rd_replayed (b_reader s)")
  case True
  then have "w' = b_world s" "r' = b_reader s" "n = 0"
    using assms(1) by (auto simp: reader_replay_def)
  then show "reads db_of s t (take n p')
      \<and> (\<exists>k. take n p' = take k (unread (db_of (b_world s)) (b_reader s)))"
    by (auto simp: reads_def t_def intro: exI [of _ 0])
next
  case False
  note rp = replay_readable [OF assms(1) False assms(2)]
  have "length (take n p') = n" using rp(1,3) by simp
  then show "reads db_of s t (take n p')
      \<and> (\<exists>k. take n p' = take k (unread (db_of (b_world s)) (b_reader s)))"
    using rp(2,5,6) by (auto simp: reads_def t_def)
qed

lemma message_reads:
  assumes "reader_on_msg R (b_world s) (b_reader s) (Inr msg) p = (w', r', Return (p', n, err))"
    and "readable (b_reader s) (length p)"
    and t_def: "t = s\<lparr>b_world := w', b_reader := r', b_out := b_out s @ take n p', b_pc := pc\<rparr>"
  shows "reads db_of s t (take n p')"
    and "\<exists>k. take n p' = take k (unread (db_of (b_world s)) (b_reader s))"
proof (atomize (full), cases "\<exists>pat ch m. msg = PMessage pat ch m \<and>
    (ch = chan_killId (rd_channel (b_reader s)) \<or> ch = chan_id (rd_channel (b_reader s)))")
  case True
  then obtain pat ch m where msg: "msg = PMessage pat ch m"
    and ch: "ch = chan_killId (rd_channel (b_reader s)) \<or> ch = chan_id (rd_channel (b_reader s))"
    by blast
  from assms(1) have rm: "reader_read_msg R (b_world s) (b_reader s) ch p = (w', r', Return (p', n, err))"
    by (simp add: reader_on_msg_def msg)
  note r = read_msg_readable [OF rm ch assms(2)]
  have "length (take n p') = n" using r(1,3) by simp
  then show "reads db_of s t (take n p')
      \<and> (\<exists>k. take n p' = take k (unread (db_of (b_world s)) (b_reader s)))"
    using r(2,5,6) by (auto simp: reads_def t_def)
next
  case False
  then have "w' = b_world s" "r' = b_reader s" "n = 0"
    using assms(1) by (auto simp: reader_on_msg_def read_msg_other split: psmsg.splits)
  then show "reads db_of s t (take n p')
      \<and> (\<exists>k. take n p' = take k (unread (db_of (b_world s)) (b_reader s)))"
    by (auto simp: reads_def t_def intro: exI [of _ 0])
qed

lemma reader_step_reads:
  assumes "reader_step R l s t" and "readable (b_reader s) l"
  shows "\<exists>data. reads db_of s t data \<and> (\<exists>k. data = take k (unread (db_of (b_world s)) (b_reader s)))"
  using assms(1)
proof cases
  case (read_replay p w' r' p' n err)
  with assms(2) replay_reads [OF read_replay(5) _ read_replay(1)] show ?thesis by blast
next
  case (read_message msg p w' r' p' n err)
  with assms(2) message_reads [OF read_message(4) _ read_message(1)] show ?thesis by blast
next
  case (read_receive w' msg)
  with receive_frame [OF read_receive(3)] show ?thesis
    by (intro exI [of _ "[]"] conjI exI [of _ 0]) (simp_all add: reads_def)
next
  case (read_broken w' e)
  with receive_frame [OF read_broken(3)] show ?thesis
    by (intro exI [of _ "[]"] conjI exI [of _ 0]) (simp_all add: reads_def)
qed

lemma renew_channels:
  assumes "r_exec R w [EXPIRE (chan_id c) redisChannelExpire] = (w', rep, None)"
  shows "channels_of (db_of w') = channels_of (db_of w)" and "inbox w' = inbox w" and "pats w' = pats w"
  using exec_law [OF assms] by (simp_all add: cmds_db.simps)

lemma env_step_grows:
  assumes "env_step R m s t"
  shows "\<exists>q. chan_val (db_of (b_world t)) (rd_channel (b_reader s)) =
      chan_val (db_of (b_world s)) (rd_channel (b_reader s)) @ q"
    and "b_reader t = b_reader s" and "b_pc t = b_pc s" and "b_out t = b_out s"
proof -
  show "\<exists>q. chan_val (db_of (b_world t)) (rd_channel (b_reader s)) =
      chan_val (db_of (b_world s)) (rd_channel (b_reader s)) @ q"
    using assms
  proof cases
    case (env_renew c w' rep)
    with chan_val_channels [OF renew_channels(1) [OF env_renew(2)]] show ?thesis by simp
  qed (auto dest: write_db(1) close_db(1) register_db(1))
qed (use assms in \<open>auto elim: env_step.cases\<close>)

lemma env_step_safe:
  assumes "env_step R m s t" and "bus_safe db_of c start s"
  shows "bus_safe db_of c start t"
proof -
  have c: "rd_channel (b_reader s) = c" using assms(2) by (simp add: bus_safe_def Let_def)
  from env_step_grows(1) [OF assms(1)] c obtain q where
    "chan_val (db_of (b_world t)) c = chan_val (db_of (b_world s)) c @ q" by auto
  from safe_grow [OF assms(2) this, of "b_pc t" "b_ended t"] env_step_grows(2-4) [OF assms(1)]
  show ?thesis by (simp add: bus_safe_def)
qed

end

text \<open>The lengths for which no offset overflows: far beyond what Redis stores in a key.\<close>

definition in_range :: "('w \<Rightarrow> db) \<Rightarrow> string \<Rightarrow> nat \<Rightarrow> nat \<Rightarrow> 'w bus \<Rightarrow> bool" where
  "in_range db_of c start l s \<longleftrightarrow>
     0 < l \<and> start + l < 2 ^ 63 \<and> length (chan_val (db_of (b_world s)) c) + l < 2 ^ 63"

lemma safe_readable:
  "bus_safe db_of c start s \<Longrightarrow> in_range db_of c start l s \<Longrightarrow> readable (b_reader s) l"
  by (auto simp: bus_safe_def in_range_def readable_def Let_def)

lemma bus_initD:
  assumes "bus_init db_of inbox pats c start s"
  shows "rd_channel (b_reader s) = c" and "rd_offset (b_reader s) = int start"
    and "\<not> rd_replayed (b_reader s)" and "\<not> rd_closed (b_reader s)"
    and "b_pc s = Idle" and "b_out s = []"
    and "b_ended s = chan_done (db_of (b_world s)) c"
    and "pats (b_world s) (rd_psc (b_reader s)) = [chan_wildcardId c]"
    and "inbox (b_world s) (rd_psc (b_reader s)) = [Subscription ''psubscribe'' (chan_wildcardId c) 1]"
proof -
  note d = assms [unfolded bus_init_def Let_def]
  from d have r: "b_reader s = (new_reader c (rd_psc (b_reader s)))\<lparr>rd_offset := int start\<rparr>" by blast
  show "rd_channel (b_reader s) = c" "rd_offset (b_reader s) = int start"
    "\<not> rd_replayed (b_reader s)" "\<not> rd_closed (b_reader s)"
    by (subst r, simp add: new_reader_def)+
  from d show "b_pc s = Idle" "b_out s = []" "b_ended s = chan_done (db_of (b_world s)) c"
    "pats (b_world s) (rd_psc (b_reader s)) = [chan_wildcardId c]"
    "inbox (b_world s) (rd_psc (b_reader s)) = [Subscription ''psubscribe'' (chan_wildcardId c) 1]"
    by blast+
qed

lemma init_safe: "bus_init db_of inbox pats c start s \<Longrightarrow> bus_safe db_of c start s"
  by (simp add: bus_safe_def bus_initD Let_def)

context redis_server
begin

lemma fetch_channels:
  "reader_fetch R w r len = (w', r', Return x) \<Longrightarrow> channels_of (db_of w') = channels_of (db_of w)"
  by (cases x) (simp add: fetch_exec(4))

lemma read_msg_channels:
  assumes "reader_read_msg R w r ch p = (w', r', Return x)"
  shows "channels_of (db_of w') = channels_of (db_of w)"
proof (cases "ch = chan_killId (rd_channel r) \<or> ch = chan_id (rd_channel r)")
  case True
  then obtain w1 r1 buf e where f: "reader_fetch R w r (int (length p)) = (w1, r1, Return (buf, e))"
    using assms by (auto simp: reader_read_msg_def Let_def split: prod.splits go.splits)
  note fetch_channels [OF f]
  with f True assms show ?thesis
    by (auto simp: reader_read_msg_def Let_def split: if_splits prod.splits dest: reader_close_frame(2))
next
  case False
  with assms show ?thesis by (simp add: read_msg_other)
qed

lemma replay_channels:
  assumes "reader_replay R w r p = (w', r', Return x)"
  shows "channels_of (db_of w') = channels_of (db_of w)"
  using assms
  by (auto simp: reader_replay_def Let_def split: if_splits prod.splits go.splits dest: fetch_channels)

lemma reader_step_channels:
  assumes "reader_step R l s t"
  shows "channels_of (db_of (b_world t)) = channels_of (db_of (b_world s))"
  using assms
proof cases
  case (read_message msg p w' r' p' n err)
  then show ?thesis
    by (auto simp: reader_on_msg_def split: psmsg.splits dest: read_msg_channels)
qed (auto dest: replay_channels receive_frame)

lemma in_range_back:
  assumes "in_range db_of c start l t" and "reader_step R l' s t \<or> env_step R m s t"
    and "rd_channel (b_reader s) = c"
  shows "in_range db_of c start l s"
proof -
  have "\<exists>q. chan_val (db_of (b_world t)) c = chan_val (db_of (b_world s)) c @ q"
    using assms(2,3) env_step_grows(1) chan_val_channels [OF reader_step_channels] by fastforce
  with assms(1) show ?thesis by (auto simp: in_range_def)
qed

lemma read_msg_reader:
  assumes "reader_read_msg R w r ch p = (w', r', Return x)"
  shows "rd_channel r' = rd_channel r"
proof (cases "ch = chan_killId (rd_channel r) \<or> ch = chan_id (rd_channel r)")
  case True
  then obtain w1 r1 buf e where f: "reader_fetch R w r (int (length p)) = (w1, r1, Return (buf, e))"
    using assms by (auto simp: reader_read_msg_def Let_def split: prod.splits go.splits)
  note fetch_exec(2) [OF f]
  with f True assms show ?thesis
    by (auto simp: reader_read_msg_def Let_def split: if_splits prod.splits dest: reader_close_frame(1))
next
  case False
  with assms show ?thesis by (simp add: read_msg_other)
qed

lemma replay_reader:
  assumes "reader_replay R w r p = (w', r', Return x)"
  shows "rd_channel r' = rd_channel r"
  using assms
  by (auto simp: reader_replay_def Let_def split: if_splits prod.splits go.splits dest: fetch_exec(2))

lemma reader_step_channel:
  assumes "reader_step R l s t"
  shows "rd_channel (b_reader t) = rd_channel (b_reader s)"
  using assms
proof cases
  case (read_message msg p w' r' p' n err)
  then show ?thesis by (auto simp: reader_on_msg_def split: psmsg.splits dest: read_msg_reader)
qed (auto dest: replay_reader)

lemma reach_channel:
  "bus_reach R l m s0 s \<Longrightarrow> rd_channel (b_reader s) = rd_channel (b_reader s0)"
  by (induction rule: bus_reach.induct) (auto simp: reader_step_channel env_step_grows(2))

lemma reach_in_range:
  assumes "bus_reach R l m s0 s" and "reader_step R l s t \<or> env_step R m s t"
    and "in_range db_of (rd_channel (b_reader s0)) start l t"
  shows "in_range db_of (rd_channel (b_reader s0)) start l s"
  using in_range_back [OF assms(3,2)] reach_channel [OF assms(1)] by simp

text \<open>Every step, of the reader or of the environment, keeps the reader's output exact.\<close>

lemma reach_safe:
  assumes "bus_reach R l m s0 s" and init: "bus_init db_of inbox pats c start s0"
    and "in_range db_of c start l s"
  shows "bus_safe db_of c start s \<and> rd_channel (b_reader s) = c"
  using assms(1,3)
proof (induction rule: bus_reach.induct)
  case bus_start
  show ?case using init_safe [OF init] bus_initD(1) [OF init] by simp
next
  case (bus_reader s t)
  with bus_initD(1) [OF init] reach_in_range have rng: "in_range db_of c start l s" by blast
  with bus_reader.IH have safe: "bus_safe db_of c start s" by blast
  from reader_step_reads [OF bus_reader.hyps(2) safe_readable [OF safe rng]]
  have "bus_safe db_of c start t" using reads_safe [OF safe] by blast
  then show ?case by (simp add: bus_safe_def Let_def)
next
  case (bus_env s t)
  with bus_initD(1) [OF init] reach_in_range have "in_range db_of c start l s" by blast
  with bus_env.IH have "bus_safe db_of c start s" by blast
  with bus_env.hyps(2) have "bus_safe db_of c start t" by (rule env_step_safe)
  then show ?case by (simp add: bus_safe_def Let_def)
qed

end

end
