(* ===== verification/Session.thy ===== *)
theory Session
  imports Bus
begin

text \<open>
  A session of one publisher, seen by one subscribed reader: what the messages that wait at
  the reader's connection tell about the bytes it has not read yet. The invariant gives the
  end of a stream (nothing is missing when the reader reports \<open>io.EOF\<close>) and its progress
  (a closed channel is read to its end).
\<close>

section \<open>The messages that wait\<close>

definition is_id :: "string \<Rightarrow> psmsg \<Rightarrow> bool" where
  "is_id c msg = (case msg of PMessage _ ch _ \<Rightarrow> ch = chan_id c | _ \<Rightarrow> False)"

definition is_kill :: "string \<Rightarrow> psmsg \<Rightarrow> bool" where
  "is_kill c msg = (case msg of PMessage _ ch _ \<Rightarrow> ch = chan_killId c | _ \<Rightarrow> False)"

definition ids :: "string \<Rightarrow> psmsg list \<Rightarrow> nat" where
  "ids c ms = length (filter (is_id c) ms)"

text \<open>No write is announced behind a kill.\<close>

fun kills_last :: "string \<Rightarrow> psmsg list \<Rightarrow> bool" where
  "kills_last c [] = True"
| "kills_last c (x # ms) = (kills_last c ms \<and> (is_kill c x \<longrightarrow> ids c ms = 0))"

lemma ids_simps [simp]:
  "ids c [] = 0" "ids c (x # ms) = (if is_id c x then Suc (ids c ms) else ids c ms)"
  "ids c (ms @ ns) = ids c ms + ids c ns"
  by (simp_all add: ids_def)

lemma is_msg_simps [simp]:
  "is_id c (PMessage p ch m) = (ch = chan_id c)" "is_kill c (PMessage p ch m) = (ch = chan_killId c)"
  "is_id c (Subscription k ch' n) = False" "is_kill c (Subscription k ch' n) = False"
  by (simp_all add: is_id_def is_kill_def)

lemma kills_last_append:
  "kills_last c (ms @ ns) \<longleftrightarrow>
   kills_last c ms \<and> kills_last c ns \<and> (list_ex (is_kill c) ms \<longrightarrow> ids c ns = 0)"
  by (induction ms) auto

text \<open>
  What an operation on a channel adds to the queue of a connection with the reader's
  pattern: for its own channel exactly one announcement, for another channel nothing the
  reader acts on.
\<close>

lemma wildcard_matches:
  assumes "plain c"
  shows "glob (chan_wildcardId c) (chan_id c)" and "glob (chan_wildcardId c) (chan_killId c)"
  unfolding chan_wildcardId_def chan_id_def chan_killId_def
  by (rule glob_literal [OF assms], rule glob_same; simp add: glob_star)+

lemma deliver_own:
  assumes "plain c"
  shows "deliver [chan_wildcardId c] (PUBLISH (chan_id c) m) = [PMessage (chan_wildcardId c) (chan_id c) m]"
    and "deliver [chan_wildcardId c] (PUBLISH (chan_killId c) m) = [PMessage (chan_wildcardId c) (chan_killId c) m]"
  using wildcard_matches [OF assms] by simp_all

lemma deliver_other:
  assumes "a \<noteq> c" and "ch = chan_id a \<or> ch = chan_killId a"
  shows "ids c (deliver ps (PUBLISH ch m)) = 0" and "\<not> list_ex (is_kill c) (deliver ps (PUBLISH ch m))"
    and "kills_last c (deliver ps (PUBLISH ch m))"
  using assms by (induction ps) auto

declare deliver.simps [simp del]

section \<open>The invariant\<close>

definition pending :: "('w \<Rightarrow> conn \<Rightarrow> psmsg list) \<Rightarrow> 'w bus \<Rightarrow> psmsg list" where
  "pending inbox s =
     (case b_pc s of Got msg \<Rightarrow> [msg] | _ \<Rightarrow> []) @ inbox (b_world s) (rd_psc (b_reader s))"

definition live :: "rpc \<Rightarrow> bool" where
  "live pc = (case pc of Idle \<Rightarrow> True | Waiting \<Rightarrow> True | Got _ \<Rightarrow> True | _ \<Rightarrow> False)"

text \<open>
  While the reader lives: the kill is announced last and only by an ended session; after
  the replay what is unread fits into the fetches that the announced writes will cause, and
  an ended session still has its kill waiting. At \<open>io.EOF\<close> the session has ended and nothing
  is unread.
\<close>

definition waiting_ok :: "string \<Rightarrow> nat \<Rightarrow> db \<Rightarrow> reader \<Rightarrow> bool \<Rightarrow> psmsg list \<Rightarrow> bool" where
  "waiting_ok c l d r ended ms \<longleftrightarrow>
     kills_last c ms \<and> (list_ex (is_kill c) ms \<longrightarrow> ended)
     \<and> (rd_replayed r \<longrightarrow> length (unread d r) \<le> l * ids c ms \<and> (ended \<longrightarrow> list_ex (is_kill c) ms))"

definition session ::
  "('w \<Rightarrow> db) \<Rightarrow> ('w \<Rightarrow> conn \<Rightarrow> psmsg list) \<Rightarrow> ('w \<Rightarrow> conn \<Rightarrow> string list) \<Rightarrow> string \<Rightarrow> nat \<Rightarrow> 'w bus \<Rightarrow> bool"
where
  "session db_of inbox pats c l s \<longleftrightarrow>
     (let d = db_of (b_world s); r = b_reader s in
      rd_channel r = c \<and> (chan_done d c \<longleftrightarrow> b_ended s)
      \<and> (b_pc s = Finished EOF \<longrightarrow> b_ended s \<and> unread d r = [])
      \<and> (rd_closed r \<longrightarrow> \<not> live (b_pc s))
      \<and> (live (b_pc s) \<longrightarrow>
          pats (b_world s) (rd_psc r) = [chan_wildcardId c]
          \<and> waiting_ok c l d r (b_ended s) (pending inbox s)
          \<and> (b_pc s \<noteq> Idle \<longrightarrow> rd_replayed r)))"

lemma live_simps [simp]:
  "live Idle" "live Waiting" "live (Got msg)" "\<not> live (Finished e)" "\<not> live (Broken e)"
  by (simp_all add: live_def)

lemma init_session:
  assumes "bus_init db_of inbox pats c start s"
  shows "session db_of inbox pats c l s"
proof -
  note i = bus_initD [OF assms]
  have p: "pending inbox s = [Subscription ''psubscribe'' (chan_wildcardId c) 1]"
    by (simp only: pending_def i(5,9) rpc.case append_Nil)
  have w: "waiting_ok c l d (b_reader s) e [Subscription ''psubscribe'' (chan_wildcardId c) 1]" for d e
    by (simp add: waiting_ok_def i(3))
  show ?thesis unfolding session_def Let_def p i(1,5,7) by (simp add: w i)
qed

text \<open>The four ways the invariant moves, on its parts.\<close>

lemma waiting_okI:
  assumes "kills_last c ms" and "list_ex (is_kill c) ms \<Longrightarrow> ended"
    and "rd_replayed r \<Longrightarrow> length (unread d r) \<le> l * ids c ms"
    and "rd_replayed r \<Longrightarrow> ended \<Longrightarrow> list_ex (is_kill c) ms"
  shows "waiting_ok c l d r ended ms"
  using assms unfolding waiting_ok_def by blast

lemma waiting_okD:
  assumes "waiting_ok c l d r ended ms"
  shows "kills_last c ms" and "list_ex (is_kill c) ms \<Longrightarrow> ended"
    and "rd_replayed r \<Longrightarrow> length (unread d r) \<le> l * ids c ms"
    and "rd_replayed r \<Longrightarrow> ended \<Longrightarrow> list_ex (is_kill c) ms"
  using assms unfolding waiting_ok_def by blast+

lemma waiting_write:
  assumes "waiting_ok c l d r e ms" and "length p \<le> l"
    and "rd_channel r = c" and "chan_val d' c = chan_val d c @ p" and "\<not> e"
  shows "waiting_ok c l d' r e (ms @ [PMessage pat (chan_id c) m])"
proof (rule waiting_okI)
  note d = waiting_okD [OF assms(1)]
  have "length (unread d' r) \<le> length (unread d r) + length p"
    using assms(3,4) by (simp add: unread_def)
  then show "rd_replayed r \<Longrightarrow>
      length (unread d' r) \<le> l * ids c (ms @ [PMessage pat (chan_id c) m])"
    using d(3) assms(2) by simp
  show "kills_last c (ms @ [PMessage pat (chan_id c) m])"
    using d(1,2) assms(5) by (auto simp: kills_last_append)
qed (use waiting_okD(2) [OF assms(1)] assms(5) in auto)

lemma waiting_close:
  assumes "waiting_ok c l d r e ms" and "unread d' r = unread d r"
  shows "waiting_ok c l d' r True (ms @ [PMessage pat (chan_killId c) m])"
  by (rule waiting_okI) (use waiting_okD(1,3) [OF assms(1)] assms(2) in \<open>simp_all add: kills_last_append\<close>)

lemma waiting_quiet:
  assumes w: "waiting_ok c l d r e ms" and "unread d' r = unread d r"
    and "ids c ns = 0" and "\<not> list_ex (is_kill c) ns" and "kills_last c ns"
  shows "waiting_ok c l d' r e (ms @ ns)"
proof (rule waiting_okI)
  note d = waiting_okD [OF w]
  show "kills_last c (ms @ ns)" using d(1) assms(3,5) by (simp add: kills_last_append)
  show "list_ex (is_kill c) (ms @ ns) \<Longrightarrow> e" using d(2) assms(4) by simp
  show "rd_replayed r \<Longrightarrow> length (unread d' r) \<le> l * ids c (ms @ ns)" using d(3) assms(2,3) by simp
  show "rd_replayed r \<Longrightarrow> e \<Longrightarrow> list_ex (is_kill c) (ms @ ns)" using d(4) by simp
qed

lemma waiting_same:
  "waiting_ok c l d r e ms \<Longrightarrow> unread d' r = unread d r \<Longrightarrow> waiting_ok c l d' r e ms"
  using waiting_quiet [where ns = "[]"] by simp

lemma waiting_id:
  assumes w: "waiting_ok c l d r e (x # ms)" and "\<not> is_kill c x"
    and "unread d' r' = drop (if is_id c x then l else 0) (unread d r)" and "rd_replayed r' = rd_replayed r"
  shows "waiting_ok c l d' r' e ms"
proof (rule waiting_okI)
  note d = waiting_okD [OF w]
  show "kills_last c ms" using d(1) by simp
  show "list_ex (is_kill c) ms \<Longrightarrow> e" using d(2) by simp
  show "rd_replayed r' \<Longrightarrow> length (unread d' r') \<le> l * ids c ms"
    using d(3) assms(3,4) by (auto split: if_splits)
  show "rd_replayed r' \<Longrightarrow> e \<Longrightarrow> list_ex (is_kill c) ms" using d(4) assms(2,4) by simp
qed

text \<open>A kill at the head of the queue: everything announced before it has been read.\<close>

lemma waiting_kill:
  assumes "waiting_ok c l d r e (x # ms)" and "is_kill c x" and "rd_replayed r"
  shows "unread d r = []" and "e"
proof -
  have "\<not> is_id c x" using assms(2) by (auto simp: is_id_def is_kill_def split: psmsg.splits)
  with waiting_okD(1,3) [OF assms(1)] assms(2,3) show "unread d r = []" by simp
  show e using waiting_okD(2) [OF assms(1)] assms(2) by simp
qed

section \<open>Every step keeps the invariant\<close>

lemma sessionD:
  assumes "session db_of inbox pats c l s"
  shows "rd_channel (b_reader s) = c" and "chan_done (db_of (b_world s)) c = b_ended s"
    and "b_pc s = Finished EOF \<Longrightarrow> b_ended s \<and> unread (db_of (b_world s)) (b_reader s) = []"
    and "live (b_pc s) \<Longrightarrow> \<not> rd_closed (b_reader s)"
    and "live (b_pc s) \<Longrightarrow> pats (b_world s) (rd_psc (b_reader s)) = [chan_wildcardId c]"
    and "live (b_pc s) \<Longrightarrow>
      waiting_ok c l (db_of (b_world s)) (b_reader s) (b_ended s) (pending inbox s)"
    and "live (b_pc s) \<Longrightarrow> b_pc s \<noteq> Idle \<Longrightarrow> rd_replayed (b_reader s)"
  using assms by (auto simp: session_def Let_def)

text \<open>A step of the environment changes the world and adds messages to the queue.\<close>

lemma session_world:
  assumes s: "session db_of inbox pats c l s"
    and "chan_done (db_of w') c = e" and "b_ended s \<Longrightarrow> e"
    and "b_ended s \<Longrightarrow> chan_val (db_of w') c = chan_val (db_of (b_world s)) c"
    and pats: "pats w' = pats (b_world s)"
    and inbox: "inbox w' (rd_psc (b_reader s)) = inbox (b_world s) (rd_psc (b_reader s)) @ ns"
    and ok: "live (b_pc s) \<Longrightarrow> waiting_ok c l (db_of w') (b_reader s) e (pending inbox s @ ns)"
  shows "session db_of inbox pats c l (s\<lparr>b_world := w', b_ended := e\<rparr>)"
proof -
  have "pending inbox (s\<lparr>b_world := w', b_ended := e\<rparr>) = pending inbox s @ ns"
    by (simp add: pending_def inbox split: rpc.splits)
  moreover have "b_ended s \<Longrightarrow> unread (db_of w') (b_reader s) = unread (db_of (b_world s)) (b_reader s)"
    using assms(4) sessionD(1) [OF s] by (simp add: unread_def)
  ultimately show ?thesis
    using assms sessionD(3) [OF s] by (auto simp: session_def Let_def)
qed

lemma session_world_same:
  assumes "session db_of inbox pats c l s"
    and "chan_done (db_of w') c = b_ended s"
    and "b_ended s \<Longrightarrow> chan_val (db_of w') c = chan_val (db_of (b_world s)) c"
    and "pats w' = pats (b_world s)"
    and "inbox w' (rd_psc (b_reader s)) = inbox (b_world s) (rd_psc (b_reader s)) @ ns"
    and "live (b_pc s) \<Longrightarrow> waiting_ok c l (db_of w') (b_reader s) (b_ended s) (pending inbox s @ ns)"
  shows "session db_of inbox pats c l (s\<lparr>b_world := w'\<rparr>)"
  using session_world [OF assms(1,2) _ assms(3-6)] by (cases s) simp

context redis_server
begin

lemma env_session:
  assumes "env_step R m s t" and s: "session db_of inbox pats c l s" and "m \<le> l" and "plain c"
  shows "session db_of inbox pats c l t"
  using assms(1)
proof cases
  note d = sessionD [OF s]
  let ?k = "rd_psc (b_reader s)"
  have unread: "unread (db_of w') (b_reader s) = unread (db_of (b_world s)) (b_reader s)"
    if "chan_val (db_of w') c = chan_val (db_of (b_world s)) c" for w'
    using that d(1) by (simp add: unread_def)
  {
    case (env_write p w' n)
    note w = write_db [OF env_write(4) [unfolded d(1)]]
    have "live (b_pc s) \<Longrightarrow> waiting_ok c l (db_of w') (b_reader s) False
        (pending inbox s @ deliver (pats (b_world s) ?k) (PUBLISH (chan_id c) ''1''))"
      using waiting_write [OF d(6) _ d(1), of p "db_of w'" "chan_wildcardId c" "''1''"] d(5) env_write(2,3) \<open>m \<le> l\<close>
      by (simp add: w(1) deliver_own [OF \<open>plain c\<close>])
    with env_write show ?thesis
      by (auto simp: w intro!: session_world_same [OF s])
  next
    case (env_close w')
    note w = close_db [OF env_close(2) [unfolded d(1)]]
    have "live (b_pc s) \<Longrightarrow> waiting_ok c l (db_of w') (b_reader s) True
        (pending inbox s @ deliver (pats (b_world s) ?k) (PUBLISH (chan_killId c) ''1''))"
      using waiting_close [OF d(6) unread [of w']] d(5) by (simp add: w(1) deliver_own [OF \<open>plain c\<close>])
    with env_close show ?thesis by (auto simp: w intro!: session_world [OF s])
  next
    case (env_renew a w' rep)
    note w = renew_channels [OF env_renew(2)]
    note cv = chan_val_channels [OF w(1), of c]
    have "live (b_pc s) \<Longrightarrow> waiting_ok c l (db_of w') (b_reader s) (b_ended s) (pending inbox s @ [])"
      using waiting_same [OF d(6) unread [of w']] cv by simp
    with env_renew cv show ?thesis by (auto simp: w d(2) intro!: session_world_same [OF s])
  next
    case (other_register a w')
    note w = register_db [OF other_register(3)]
    have ok: "live (b_pc s) \<Longrightarrow> waiting_ok c l (db_of w') (b_reader s) (b_ended s) (pending inbox s @ [])"
      using waiting_same [OF d(6) unread [of w']] other_register(2) d(1) by (simp add: w)
    have "c \<noteq> a" using other_register(2) d(1) by simp
    then show ?thesis unfolding other_register(1)
      by (intro session_world_same [OF s _ _ _ _ ok]) (use d(2) in \<open>simp_all only: w chan_val_upd chan_done_upd if_False append_Nil2\<close>)
  next
    case (other_write a p w' n)
    note w = write_db [OF other_write(3)]
    have ok: "live (b_pc s) \<Longrightarrow> waiting_ok c l (db_of w') (b_reader s) (b_ended s)
        (pending inbox s @ deliver (pats (b_world s) ?k) (PUBLISH (chan_id a) ''1''))"
      by (rule waiting_quiet [OF d(6) unread]) (use other_write(2) d(1) in \<open>simp_all add: w deliver_other\<close>)
    have "c \<noteq> a" using other_write(2) d(1) by simp
    then show ?thesis unfolding other_write(1)
      by (intro session_world_same [OF s _ _ _ _ ok]) (use d(2) in \<open>simp_all only: w chan_val_upd chan_done_upd if_False\<close>)
  next
    case (other_close a w')
    note w = close_db [OF other_close(3)]
    have ok: "live (b_pc s) \<Longrightarrow> waiting_ok c l (db_of w') (b_reader s) (b_ended s)
        (pending inbox s @ deliver (pats (b_world s) ?k) (PUBLISH (chan_killId a) ''1''))"
      by (rule waiting_quiet [OF d(6) unread]) (use other_close(2) d(1) in \<open>simp_all add: w deliver_other\<close>)
    have "c \<noteq> a" using other_close(2) d(1) by simp
    then show ?thesis unfolding other_close(1)
      by (intro session_world_same [OF s _ _ _ _ ok]) (use d(2) in \<open>simp_all only: w chan_val_upd chan_done_upd if_False\<close>)
  }
qed

text \<open>One lemma for each phase of the reader.\<close>

lemma replay_session:
  assumes s: "session db_of inbox pats c l s" and pc: "b_pc s = Idle"
    and rd: "readable (b_reader s) (length p)" and l: "length p = l"
    and rp: "reader_replay R (b_world s) (b_reader s) p = (w', r', Return (p', n, err))"
  shows "session db_of inbox pats c l (s\<lparr>b_world := w', b_reader := r', b_out := out,
    b_pc := after_read err (if n > 0 then Idle else Waiting)\<rparr>)"
proof (cases "rd_replayed (b_reader s)")
  case True
  then have "w' = b_world s" "r' = b_reader s" "n = 0" "err = None"
    using rp by (auto simp: reader_replay_def)
  with s pc True show ?thesis by (simp add: session_def pending_def after_read_def Let_def)
next
  case False
  note d = sessionD [OF s] and r = replay_readable [OF rp False rd]
  let ?u = "unread (db_of (b_world s)) (b_reader s)" and ?t = "s\<lparr>b_world := w', b_reader := r',
    b_out := out, b_pc := after_read err (if n > 0 then Idle else Waiting)\<rparr>"
  have un: "unread (db_of w') r' = drop n ?u"
    using unread_same [OF r(6), of r' "b_reader s" n] r(5) rd by (simp add: readable_def)
  have w: "waiting_ok c l (db_of (b_world s)) (b_reader s) (b_ended s) (pending inbox s)"
    using d(6) pc by simp
  have cd: "chan_done (db_of w') c = b_ended s" using chan_val_channels [OF r(6)] d(2) by simp
  have err: "err = (if length ?u \<le> l \<and> b_ended s then Some EOF else None)"
    using r(4) d(1,2) l by simp
  show ?thesis
  proof (cases "length ?u \<le> l \<and> b_ended s")
    case True
    with err un r(1,5) l d(1) cd show ?thesis by (simp add: session_def after_read_def Let_def)
  next
    case False
    with err have err: "err = None" by simp
    have "waiting_ok c l (db_of w') r' (b_ended s) (pending inbox s)"
    proof (rule waiting_okI)
      note wd = waiting_okD [OF w]
      show "kills_last c (pending inbox s)" "list_ex (is_kill c) (pending inbox s) \<Longrightarrow> b_ended s"
        by (rule wd(1), rule wd(2))
      show "rd_replayed r' \<Longrightarrow> length (unread (db_of w') r') \<le> l * ids c (pending inbox s)"
        using un r(1,5) by simp
      show "rd_replayed r' \<Longrightarrow> b_ended s \<Longrightarrow> list_ex (is_kill c) (pending inbox s)"
        using False r(5) l by simp
    qed
    moreover have "pending inbox ?t = pending inbox s"
      using pc err r(5,7) by (simp add: pending_def after_read_def)
    moreover have "n = 0 \<Longrightarrow> rd_replayed r'"
      using r(1,5) rd by (cases ?u; cases p) (auto simp: readable_def)
    moreover have "rd_channel r' = c" "rd_psc r' = rd_psc (b_reader s)" "\<not> rd_closed r'"
      "pats w' (rd_psc (b_reader s)) = [chan_wildcardId c]"
      using r(5,8) d(1,4,5) pc by simp_all
    ultimately show ?thesis using err cd by (simp add: session_def after_read_def Let_def)
  qed
qed

lemma receive_session:
  assumes s: "session db_of inbox pats c l s" and pc: "b_pc s = Waiting"
    and rc: "r_receive R (b_world s) (rd_psc (b_reader s)) = (w', Return (Inr msg))"
  shows "session db_of inbox pats c l (s\<lparr>b_world := w', b_pc := Got msg\<rparr>)"
proof -
  note d = sessionD [OF s] and r = receive_law [OF rc]
  have "pending inbox (s\<lparr>b_world := w', b_pc := Got msg\<rparr>) = pending inbox s"
    using r pc by (simp add: pending_def)
  with d r pc show ?thesis by (simp add: session_def Let_def)
qed

lemma message_session:
  assumes s: "session db_of inbox pats c l s" and pc: "b_pc s = Got msg"
    and rd: "readable (b_reader s) (length p)" and l: "length p = l"
    and om: "reader_on_msg R (b_world s) (b_reader s) (Inr msg) p = (w', r', Return (p', n, err))"
  shows "session db_of inbox pats c l (s\<lparr>b_world := w', b_reader := r', b_out := out,
    b_pc := after_read err Idle\<rparr>)"
proof (cases "is_id c msg \<or> is_kill c msg")
  case False
  note d = sessionD [OF s]
  have quiet: "w' = b_world s" "r' = b_reader s" "n = 0" "err = None"
    using om d(1) pc False
    by (auto simp: reader_on_msg_def is_id_def is_kill_def read_msg_other split: psmsg.splits)
  have "waiting_ok c l (db_of (b_world s)) (b_reader s) (b_ended s)
      (inbox (b_world s) (rd_psc (b_reader s)))"
    by (rule waiting_id [where x = msg and d = "db_of (b_world s)" and r = "b_reader s"])
      (use d(6) pc False in \<open>simp_all add: pending_def\<close>)
  with d pc quiet show ?thesis by (simp add: session_def pending_def after_read_def Let_def)
next
  case rel: True
  note d = sessionD [OF s]
  obtain pat ch m where msg: "msg = PMessage pat ch m"
    and ch: "ch = chan_killId (rd_channel (b_reader s)) \<or> ch = chan_id (rd_channel (b_reader s))"
    using rel d(1) by (auto simp: is_id_def is_kill_def split: psmsg.splits)
  have rm: "reader_read_msg R (b_world s) (b_reader s) ch p = (w', r', Return (p', n, err))"
    using om by (simp add: reader_on_msg_def msg)
  note r = read_msg_readable [OF rm ch rd]
  let ?u = "unread (db_of (b_world s)) (b_reader s)"
    and ?ms = "inbox (b_world s) (rd_psc (b_reader s))"
  have un: "unread (db_of w') r' = drop n ?u"
    using unread_same [OF r(6), of r' "b_reader s" n] r(5) rd by (simp add: readable_def)
  have w: "waiting_ok c l (db_of (b_world s)) (b_reader s) (b_ended s) (msg # ?ms)"
    and rep: "rd_replayed (b_reader s)"
    using d(6,7) pc by (simp_all add: pending_def)
  have cd: "chan_done (db_of w') c = b_ended s" using chan_val_channels [OF r(6)] d(2) by simp
  have stop: "err = (if is_kill c msg \<or> length ?u \<le> l \<and> b_ended s then Some EOF else None)"
    using r(4) d(1,2) l by (simp add: msg)
  show ?thesis
  proof (cases "is_kill c msg \<or> length ?u \<le> l \<and> b_ended s")
    case True
    then have "b_ended s \<and> drop n ?u = []" using waiting_kill [OF w _ rep] r(1) l by auto
    with True stop un r(5) d(1) cd show ?thesis by (simp add: session_def after_read_def Let_def)
  next
    case False
    then have go: "err = None" "\<not> is_kill c msg" "is_id c msg" using stop rel by simp_all
    have nostop: "\<not> (ch = chan_killId (rd_channel (b_reader s))
        \<or> length ?u \<le> length p \<and> chan_done (db_of (b_world s)) (rd_channel (b_reader s)))"
      using False d(1,2) l by (auto simp: msg)
    have "waiting_ok c l (db_of w') r' (b_ended s) ?ms"
      by (rule waiting_id [OF w go(2)]) (use go(3) un r(1,5) l in \<open>simp_all add: min_def\<close>)
    moreover have "inbox w' (rd_psc r') = ?ms" "rd_channel r' = c" "\<not> rd_closed r'"
      "pats w' (rd_psc r') = [chan_wildcardId c]"
      using r(5) r(7,8) [OF nostop] nostop d(1,4,5) pc by simp_all
    ultimately show ?thesis
      using go(1) cd by (simp add: session_def pending_def after_read_def Let_def)
  qed
qed

lemma reader_session:
  assumes "reader_step R l s t" and "session db_of inbox pats c l s" and "readable (b_reader s) l"
  shows "session db_of inbox pats c l t"
  using assms(1)
proof cases
  case (read_replay p w' r' p' n err)
  from assms(3) read_replay(4) have "readable (b_reader s) (length p)" by simp
  from replay_session [OF assms(2) read_replay(2) this read_replay(4,5)] show ?thesis
    unfolding read_replay(1) .
next
  case (read_receive w' msg)
  from receive_session [OF assms(2) read_receive(2,3)] show ?thesis unfolding read_receive(1) .
next
  case (read_broken w' e)
  note d = sessionD [OF assms(2)]
  have "unread (db_of w') (b_reader s) = unread (db_of (b_world s)) (b_reader s)"
    by (simp add: receive_frame [OF read_broken(3)])
  with d read_broken(1,2) receive_frame [OF read_broken(3)] show ?thesis
    by (simp add: session_def Let_def)
next
  case (read_message msg p w' r' p' n err)
  from assms(3) read_message(3) have "readable (b_reader s) (length p)" by simp
  from message_session [OF assms(2) read_message(2) this read_message(3,4)] show ?thesis
    unfolding read_message(1) .
qed

lemma reach_session:
  assumes "bus_reach R l m s0 s" and init: "bus_init db_of inbox pats c start s0"
    and "in_range db_of c start l s" and "m \<le> l" and "plain c"
  shows "session db_of inbox pats c l s"
  using assms(1,3)
proof (induction rule: bus_reach.induct)
  case bus_start
  show ?case by (rule init_session [OF init])
next
  case (bus_reader s t)
  with bus_initD(1) [OF init] reach_in_range have rng: "in_range db_of c start l s" by blast
  with bus_reader.hyps(1) reach_safe [OF _ init] have "readable (b_reader s) l"
    by (blast intro: safe_readable)
  with bus_reader rng show ?case by (blast intro: reader_session)
next
  case (bus_env s t)
  with bus_initD(1) [OF init] reach_in_range have "in_range db_of c start l s" by blast
  with bus_env assms(4,5) show ?case by (blast intro: env_session)
qed

end

section \<open>Progress\<close>

text \<open>
  How far the reader is from the end of an ended session: the bytes of the replay, then the
  waiting messages, each of which takes a reception, an answer and a new call.
\<close>

definition distance :: "('w \<Rightarrow> db) \<Rightarrow> ('w \<Rightarrow> conn \<Rightarrow> psmsg list) \<Rightarrow> 'w bus \<Rightarrow> nat" where
  "distance db_of inbox s =
     (let n = length (inbox (b_world s) (rd_psc (b_reader s))) in
      if \<not> live (b_pc s) then 0
      else if \<not> rd_replayed (b_reader s) then 1 + length (unread (db_of (b_world s)) (b_reader s))
      else 1 + 3 * n + (case b_pc s of Got _ \<Rightarrow> 2 | Idle \<Rightarrow> 1 | _ \<Rightarrow> 0))"

context redis_up
begin

lemma on_msg_returns:
  "\<exists>w' r' p' n err. reader_on_msg R w r (Inr msg) p = (w', r', Return (p', n, err))"
proof (cases msg)
  case (PMessage pat ch m)
  show ?thesis
    using fetch_returns [of w r "int (length p)"]
    by (fastforce simp: PMessage reader_on_msg_def reader_read_msg_def Let_def split: prod.splits)
qed (simp_all add: reader_on_msg_def)

text \<open>In an ended session the reader always has a step, and it brings the end nearer.\<close>

lemma progress_idle:
  assumes s: "session db_of inbox pats c l s" and rd: "readable (b_reader s) l"
    and pc: "b_pc s = Idle" and ended: "b_ended s"
  shows "\<exists>t. reader_step R l s t \<and> distance db_of inbox t < distance db_of inbox s
    \<and> (live (b_pc t) \<or> b_pc t = Finished EOF)"
proof -
  let ?p = "replicate l CHR 0x00"
  obtain w' r' p' n err where
    rp: "reader_replay R (b_world s) (b_reader s) ?p = (w', r', Return (p', n, err))"
    using replay_returns by blast
  note d = sessionD [OF s]
  have "\<not> rd_closed (b_reader s)" using d(4) pc by simp
  note st = read_replay [OF pc this length_replicate rp]
  show ?thesis
  proof (cases "rd_replayed (b_reader s)")
    case True
    then have "w' = b_world s" "r' = b_reader s" "n = 0" "err = None"
      using rp by (auto simp: reader_replay_def)
    with True pc show ?thesis
      by - (rule exI, rule conjI, rule st, simp add: distance_def after_read_def Let_def)
  next
    case False
    have rd': "readable (b_reader s) (length ?p)" using rd by simp
    note r = replay_readable [OF rp False rd']
    have "length (unread (db_of w') r') = length (unread (db_of (b_world s)) (b_reader s)) - n"
      using unread_same [OF r(6), of r' "b_reader s" n] r(5) rd by (simp add: readable_def)
    with r(1,4,5) d(1,2) ended False pc rd show ?thesis
      by - (rule exI, rule conjI, rule st, auto simp: distance_def after_read_def readable_def Let_def)
  qed
qed

lemma progress_waiting:
  assumes s: "session db_of inbox pats c l s" and pc: "b_pc s = Waiting" and ended: "b_ended s"
  shows "\<exists>t. reader_step R l s t \<and> distance db_of inbox t < distance db_of inbox s
    \<and> (live (b_pc t) \<or> b_pc t = Finished EOF)"
proof -
  note d = sessionD [OF s]
  let ?ms = "inbox (b_world s) (rd_psc (b_reader s))"
  have rep: "rd_replayed (b_reader s)" using d(7) pc by simp
  have "waiting_ok c l (db_of (b_world s)) (b_reader s) (b_ended s) ?ms"
    using d(6) pc by (simp add: pending_def)
  from waiting_okD(4) [OF this rep ended] have ne: "?ms \<noteq> []" by auto
  then obtain w' m where rc: "r_receive R (b_world s) (rd_psc (b_reader s)) = (w', Return (Inr m))"
    using receive_up by blast
  have "length (inbox w' (rd_psc (b_reader s))) < length ?ms"
    using receive_law [OF rc] by simp
  with rep pc show ?thesis
    by - (rule exI, rule conjI, rule read_receive [OF pc rc], simp add: distance_def Let_def)
qed

lemma progress_got:
  assumes s: "session db_of inbox pats c l s" and rd: "readable (b_reader s) l"
    and pc: "b_pc s = Got msg"
  shows "\<exists>t. reader_step R l s t \<and> distance db_of inbox t < distance db_of inbox s
    \<and> (live (b_pc t) \<or> b_pc t = Finished EOF)"
proof -
  let ?p = "replicate l CHR 0x00"
  obtain w' r' p' n err where
    om: "reader_on_msg R (b_world s) (b_reader s) (Inr msg) ?p = (w', r', Return (p', n, err))"
    using on_msg_returns by blast
  note d = sessionD [OF s]
  have rep: "rd_replayed (b_reader s)" using d(7) pc by simp
  have rd': "readable (b_reader s) (length ?p)" using rd by simp
  have "err = Some EOF \<or> err = None \<and> rd_replayed r' \<and> rd_psc r' = rd_psc (b_reader s)
      \<and> inbox w' (rd_psc (b_reader s)) = inbox (b_world s) (rd_psc (b_reader s))"
  proof (cases "\<exists>pat ch m. msg = PMessage pat ch m \<and>
      (ch = chan_killId (rd_channel (b_reader s)) \<or> ch = chan_id (rd_channel (b_reader s)))")
    case True
    then obtain pat ch m where msg: "msg = PMessage pat ch m"
      and ch: "ch = chan_killId (rd_channel (b_reader s)) \<or> ch = chan_id (rd_channel (b_reader s))"
      by blast
    from om have rm: "reader_read_msg R (b_world s) (b_reader s) ch ?p = (w', r', Return (p', n, err))"
      by (simp add: reader_on_msg_def msg)
    from read_msg_readable(4,5,7) [OF rm ch rd'] rep show ?thesis by (auto split: if_splits)
  next
    case False
    with om rep show ?thesis by (auto simp: reader_on_msg_def read_msg_other split: psmsg.splits)
  qed
  with pc rep show ?thesis
    by - (rule exI, rule conjI, rule read_message [OF pc length_replicate om],
      auto simp: distance_def after_read_def Let_def)
qed

lemmas progress_step = progress_idle progress_waiting progress_got

end

context redis_up
begin

lemma drain:
  assumes "session db_of inbox pats c l s" and "bus_safe db_of c start s"
    and "in_range db_of c start l s" and "b_ended s" and "live (b_pc s) \<or> b_pc s = Finished EOF"
  shows "\<exists>t. (reader_step R l)\<^sup>*\<^sup>* s t \<and> b_pc t = Finished EOF
    \<and> bus_safe db_of c start t \<and> session db_of inbox pats c l t
    \<and> channels_of (db_of (b_world t)) = channels_of (db_of (b_world s))"
  using assms
proof (induction "distance db_of inbox s" arbitrary: s rule: less_induct)
  case less
  show ?case
  proof (cases "live (b_pc s)")
    case False
    with less.prems show ?thesis by blast
  next
    case True
    note rd = safe_readable [OF less.prems(2,3)]
    obtain t where st: "reader_step R l s t" and dist: "distance db_of inbox t < distance db_of inbox s"
      and pc: "live (b_pc t) \<or> b_pc t = Finished EOF"
      using progress_step less.prems(1,4) rd True by (cases "b_pc s") (simp_all, blast+)
    from reader_step_reads [OF st rd] obtain data where rds: "reads db_of s t data"
      and data: "\<exists>k. data = take k (unread (db_of (b_world s)) (b_reader s))" by blast
    note ch = reader_step_channels [OF st]
    have t: "session db_of inbox pats c l t" "bus_safe db_of c start t" "in_range db_of c start l t"
      "b_ended t"
      using reader_session [OF st less.prems(1) rd] reads_safe [OF less.prems(2) rds data]
        less.prems(3,4) chan_val_channels [OF ch] rds
      by (simp_all add: in_range_def reads_def)
    from less.hyps [OF dist t pc] st ch show ?thesis
      by (metis converse_rtranclp_into_rtranclp)
  qed
qed

end

section \<open>A run\<close>

text \<open>
  A channel that is registered and read from its start on the concrete world of
  \<open>RedisServer\<close>; the witnesses run schedules from here.
\<close>

definition demo_start :: "string \<Rightarrow> refworld bus" where
  "demo_start c =
     (case newReader ref_redis (fst (registrar_register ref_redis ref_empty c)) c of
        (w, Inr r) \<Rightarrow> \<lparr>b_world = w, b_reader = r, b_pc = Idle, b_out = [], b_ended = False\<rparr>
      | (w, Inl e) \<Rightarrow> \<lparr>b_world = w, b_reader = new_reader c 0, b_pc = Broken e, b_out = [],
          b_ended = False\<rparr>)"

definition demo_view :: "string \<Rightarrow> refworld bus option \<Rightarrow> (bytes \<times> bytes \<times> rpc \<times> bool) option" where
  "demo_view c = map_option (\<lambda>s. (b_out s, chan_val (rw_db (b_world s)) c, b_pc s, b_ended s))"

lemma demo_init: "bus_init rw_db rw_inbox rw_pats ''k'' 0 (demo_start ''k'')"
  by code_simp

lemma demo_reach:
  assumes "demo_view ''k'' (bus_run ref_redis l m (demo_start ''k'') as) = Some (out, log, pc, e)"
    and "0 < l" and "l < 2 ^ 62" and "length log < 2 ^ 62"
  obtains s where "bus_run ref_redis l m (demo_start ''k'') as = Some s"
    and "bus_reach ref_redis l m (demo_start ''k'') s" and "in_range rw_db ''k'' 0 l s"
    and "b_out s = out" and "chan_val (rw_db (b_world s)) ''k'' = log" and "b_pc s = pc" and "b_ended s = e"
proof -
  from assms(1) obtain s where s: "bus_run ref_redis l m (demo_start ''k'') as = Some s"
    and v: "b_out s = out" "chan_val (rw_db (b_world s)) ''k'' = log" "b_pc s = pc" "b_ended s = e"
    by (auto simp: demo_view_def)
  from v(2) assms(2-4) have "in_range rw_db ''k'' 0 l s" by (simp add: in_range_def)
  from that [OF s bus_run_reach [OF bus_start s] this v] show thesis .
qed

section \<open>Properties\<close>

text \<open>
  C1. Whatever the interleaving of its calls with the publisher, with other readers and with
  other channels, a reader returns exactly the bytes of its channel from the offset it was
  moved to, in order, without gap and without repetition, and its own offset is the position
  after the last byte it returned.
\<close>

theorem reader_output_exact:
  assumes "redis_server R db_of inbox pats" and "bus_init db_of inbox pats c start s0"
    and "bus_reach R l m s0 s" and "in_range db_of c start l s"
  shows "prefix (b_out s) (drop start (chan_val (db_of (b_world s)) c))
    \<and> rd_offset (b_reader s) = int (start + length (b_out s))"
proof -
  have safe: "bus_safe db_of c start s"
    using redis_server.reach_safe [OF assms(1,3,2,4)] by blast
  let ?log = "chan_val (db_of (b_world s)) c" and ?off = "nat (rd_offset (b_reader s))"
  have off: "start \<le> ?off" "0 \<le> rd_offset (b_reader s)" "?off \<le> length ?log \<or> ?off = start"
    and out: "b_out s = drop start (take ?off ?log)"
    using safe by (auto simp: bus_safe_def Let_def)
  have "drop start ?log = b_out s @ drop ?off ?log \<or> b_out s = []"
    using out off by (metis append_take_drop_id drop_take le_add_diff_inverse2 drop_drop drop_all length_take min.absorb2 order_refl)
  moreover have "?off = start + length (b_out s)" using out off by auto
  ultimately show ?thesis using off(2) by (auto simp: prefix_def)
qed

theorem reader_output_exact_witness:
  "\<exists>s. bus_run ref_redis 4 8 (demo_start ''k'') [Write_chunk ''abcdef'', Read_on, Read_on] = Some s
    \<and> prefix (b_out s) (drop 0 (chan_val (rw_db (b_world s)) ''k''))
    \<and> rd_offset (b_reader s) = int (0 + length (b_out s)) \<and> b_out s = ''abcdef''"
proof -
  have "demo_view ''k'' (bus_run ref_redis 4 8 (demo_start ''k'') [Write_chunk ''abcdef'', Read_on, Read_on])
      = Some (''abcdef'', ''abcdef'', Idle, False)"
    by code_simp
  then obtain s where s: "bus_run ref_redis 4 8 (demo_start ''k'') [Write_chunk ''abcdef'', Read_on, Read_on] = Some s"
    "bus_reach ref_redis 4 8 (demo_start ''k'') s" "in_range rw_db ''k'' 0 4 s" "b_out s = ''abcdef''"
    by (rule demo_reach) simp_all
  from reader_output_exact [OF refred.redis_server_axioms demo_init s(2,3)] s(1,4) show ?thesis by blast
qed


definition demo_session :: "act list" where
  "demo_session = [Read_on, Read_on, Read_on, Read_on, Write_chunk ''abcd'', Write_chunk ''efg'',
     Close_channel, Read_on, Read_on, Read_on, Read_on, Read_on]"





end
