(* ===== verification/Channels.thy ===== *)
theory Channels
  imports Broker
begin

text \<open>
  What the broker promises its clients: a channel is a log of bytes with a mark for done.
  The operations on logs are the abstract specification; the Redis commands of \<open>redis.go\<close>
  and \<open>io.go\<close> are shown to implement it, for any sequence of operations on any channels.
  The second half states where the implementation departs from a log: keys that expire at
  different times, replies that are not checked, ranges that wrap.
\<close>

section \<open>Operations\<close>

datatype chan_op =
    Op_register string
  | Op_write string bytes
  | Op_close string
  | Op_get string

fun op_abs :: "channels \<Rightarrow> chan_op \<Rightarrow> channels" where
  "op_abs cs (Op_register c) = cs(c := (Some [], snd (cs c)))"
| "op_abs cs (Op_write c p) =
     cs(c := (Some ((case fst (cs c) of None \<Rightarrow> [] | Some v \<Rightarrow> v) @ p), False))"
| "op_abs cs (Op_close c) = cs(c := (fst (cs c), True))"
| "op_abs cs (Op_get c) = cs"

text \<open>The calls of the broker, with their errors.\<close>

fun op_call :: "'w redis \<Rightarrow> 'w \<Rightarrow> chan_op \<Rightarrow> 'w \<times> go_error option" where
  "op_call R w (Op_register c) = registrar_register R w c"
| "op_call R w (Op_write c p) = (let (w', _, err) = writer_write R w c p in (w', err))"
| "op_call R w (Op_close c) = writer_close R w c"
| "op_call R w (Op_get c) = (let (w', _, err) = broker_get R w c in (w', err))"

fun op_calls :: "'w redis \<Rightarrow> 'w \<Rightarrow> chan_op list \<Rightarrow> 'w \<times> go_error option" where
  "op_calls R w [] = (w, None)"
| "op_calls R w (x # xs) =
     (case op_call R w x of (w', None) \<Rightarrow> op_calls R w' xs | (w', Some e) \<Rightarrow> (w', Some e))"

text \<open>What a sequence of operations leaves in the channel \<open>c\<close>: its writes since it was last registered.\<close>

fun log_of :: "string \<Rightarrow> chan_op list \<Rightarrow> bytes \<Rightarrow> bytes" where
  "log_of c [] v = v"
| "log_of c (Op_register b # xs) v = log_of c xs (if b = c then [] else v)"
| "log_of c (Op_write b p # xs) v = log_of c xs (if b = c then v @ p else v)"
| "log_of c (_ # xs) v = log_of c xs v"

lemma fold_op_abs_log:
  "fst (cs c) = Some v \<Longrightarrow> fst (fold (\<lambda>x cs. op_abs cs x) xs cs c) = Some (log_of c xs v)"
proof (induction xs arbitrary: cs v)
  case (Cons x xs)
  then show ?case
  proof (cases x)
    case (Op_close b)
    have "fst ((cs(b := (fst (cs b), True))) c) = Some v" using Cons.prems by auto
    from Cons.IH [where cs = "cs(b := (fst (cs b), True))", OF this]
    show ?thesis by (simp only: Op_close fold.simps o_apply op_abs.simps log_of.simps)
  qed auto
qed simp

context redis_server
begin

lemma get_db:
  assumes "broker_get R w c = (w', v, None)"
  shows "db_of w (chan_id c) \<noteq> None" and "v = chan_val (db_of w) c" and "db_of w' = db_of w"
proof -
  obtain rep e where do: "r_do R w (GET (chan_id c)) = (w', rep, e)"
    and b: "reply_bytes rep e = (v, None)"
    using assms by (auto simp: broker_get_def Let_def split: prod.splits)
  from b have e: "e = None" by (auto simp: reply_bytes_def split: if_splits)
  from do_law [OF do [unfolded e]]
  have r: "rep = (case db_of w (chan_id c) of None \<Rightarrow> RNil | Some (v, _) \<Rightarrow> RBulk v)"
    and d: "db_of w' = db_of w" by (simp_all add: cmd_db.simps)
  show "db_of w (chan_id c) \<noteq> None" "v = chan_val (db_of w) c" "db_of w' = db_of w"
    using b e r d by (auto simp: reply_bytes_def reply_rest_def chan_val_def db_get_def split: option.splits)
qed

lemma op_call_abs:
  assumes "op_call R w x = (w', None)"
  shows "channels_of (db_of w') = op_abs (channels_of (db_of w)) x"
proof (cases x)
  case (Op_register c)
  with assms have "registrar_register R w c = (w', None)" by simp
  from register_db(1) [OF this] show ?thesis by (simp add: Op_register) (simp add: channels_of_def)
next
  case (Op_write c p)
  with assms obtain n where "writer_write R w c p = (w', n, None)"
    by (auto simp: Let_def split: prod.splits)
  from write_db(1) [OF this] show ?thesis
    by (simp add: Op_write) (auto simp: channels_of_def chan_val_def db_get_def split: option.splits)
next
  case (Op_close c)
  with assms have "writer_close R w c = (w', None)" by simp
  from close_db(1) [OF this] show ?thesis by (simp add: Op_close) (simp add: channels_of_def)
next
  case (Op_get c)
  with assms obtain v where "broker_get R w c = (w', v, None)"
    by (auto simp: Let_def split: prod.splits)
  from get_db(3) [OF this] Op_get show ?thesis by simp
qed

lemma op_calls_abs:
  "op_calls R w xs = (w', None) \<Longrightarrow>
   channels_of (db_of w') = fold (\<lambda>x cs. op_abs cs x) xs (channels_of (db_of w))"
  by (induction xs arbitrary: w) (auto simp: op_call_abs split: prod.splits option.splits)

end

section \<open>Expiry\<close>

text \<open>
  Time passing on the concrete world, and a channel that is written and closed, left alone for
  \<open>a\<close> seconds, renewed by a subscriber's heartbeat and left alone for \<open>b\<close> seconds more.
\<close>

definition ref_wait :: "nat \<Rightarrow> refworld \<Rightarrow> refworld" where
  "ref_wait n w = w\<lparr>rw_db := age n (rw_db w)\<rparr>"

definition expiry_run :: "string \<Rightarrow> bytes \<Rightarrow> nat \<Rightarrow> nat \<Rightarrow> refworld" where
  "expiry_run c p a b =
     (let w1 = fst (op_calls ref_redis ref_empty [Op_register c, Op_write c p, Op_close c]);
          w2 = renewExpiry ref_redis (ref_wait a w1) (Some (new_reader c 0))
      in ref_wait b w2)"

lemma r_exec_ref: "fst (r_exec ref_redis w cs) = ref_exec w cs"
  by (simp add: ref_redis_def)

lemma ref_register: "rw_db (fst (registrar_register ref_redis w c))
    = (rw_db w)(chan_id c \<mapsto> ([], Some 300))"
  "snd (registrar_register ref_redis w c) = None"
proof -
  show *: "snd (registrar_register ref_redis w c) = None"
    by (simp add: registrar_register_def ref_redis_def Let_def)
  show "rw_db (fst (registrar_register ref_redis w c)) = (rw_db w)(chan_id c \<mapsto> ([], Some 300))"
    by (rule refred.register_db) (metis * prod.collapse)
qed

lemma ref_write: "rw_db (fst (writer_write ref_redis w c p))
    = (rw_db w)(chan_id c \<mapsto> (chan_val (rw_db w) c @ p, Some 300), chan_doneId c := None)"
  "snd (writer_write ref_redis w c p) = (length p, None)"
proof -
  show *: "snd (writer_write ref_redis w c p) = (length p, None)"
    by (simp add: writer_write_def ref_redis_def Let_def)
  show "rw_db (fst (writer_write ref_redis w c p))
    = (rw_db w)(chan_id c \<mapsto> (chan_val (rw_db w) c @ p, Some 300), chan_doneId c := None)"
    by (rule refred.write_db [of w c p _ "length p"]) (metis * prod.collapse)
qed

lemma ref_close: "rw_db (fst (writer_close ref_redis w c))
    = (rw_db w)(chan_doneId c \<mapsto> ([CHR 0x01], Some 300))"
  "snd (writer_close ref_redis w c) = None"
proof -
  show *: "snd (writer_close ref_redis w c) = None"
    by (simp add: writer_close_def ref_redis_def Let_def)
  show "rw_db (fst (writer_close ref_redis w c)) = (rw_db w)(chan_doneId c \<mapsto> ([CHR 0x01], Some 300))"
    by (rule refred.close_db) (metis * prod.collapse)
qed

lemma expiry_run_db:
  assumes "a < 300" and "b < 300"
  shows "rw_db (expiry_run c p a b) (chan_id c) = Some (p, Some (300 - b))"
    and "rw_db (expiry_run c p a b) (chan_doneId c) =
      (if 300 \<le> a + b then None else Some ([CHR 0x01], Some (300 - a - b)))"
proof -
  define w0 where "w0 = fst (registrar_register ref_redis ref_empty c)"
  define w1 where "w1 = fst (writer_write ref_redis w0 c p)"
  have "op_calls ref_redis ref_empty [Op_register c, Op_write c p, Op_close c]
      = (fst (writer_close ref_redis w1 c), None)"
    using ref_register(2) [of ref_empty c] ref_write(2) [of w0 c p] ref_close(2) [of w1 c]
    by (auto simp: w0_def w1_def split: prod.splits)
  then have run: "rw_db (expiry_run c p a b) =
      age b (cmd_db (age a (rw_db (fst (writer_close ref_redis w1 c)))) (EXPIRE (chan_id c) 300))"
    by (simp only: expiry_run_def Let_def fst_conv)
      (simp add: ref_wait_def renewExpiry_def new_reader_def r_exec_ref ref_exec_def cmds_db.simps)
  have "rw_db (fst (writer_close ref_redis w1 c)) (chan_id c) = Some (p, Some 300)"
    "rw_db (fst (writer_close ref_redis w1 c)) (chan_doneId c) = Some ([CHR 0x01], Some 300)"
    by (simp_all add: ref_close(1) w1_def ref_write(1))
      (simp add: w0_def ref_register(1) chan_val_def ref_empty_def)
  with assms show "rw_db (expiry_run c p a b) (chan_id c) = Some (p, Some (300 - b))"
    "rw_db (expiry_run c p a b) (chan_doneId c) =
      (if 300 \<le> a + b then None else Some ([CHR 0x01], Some (300 - a - b)))"
    by (auto simp: run age_def cmd_db.simps)
qed

section \<open>Reads\<close>

text \<open>A client whose connection fails in every block.\<close>


definition ref_down :: "refworld redis" where
  "ref_down = ref_redis\<lparr>r_exec := (\<lambda>w cs. (w, RNil, Some (ErrNet False ''connection refused'')))\<rparr>"

definition fetch_block :: "reader \<Rightarrow> int \<Rightarrow> cmd list" where
  "fetch_block r len =
     [GETRANGE (chan_id (rd_channel r)) (rd_offset r) (i64 (i64 (rd_offset r + len) - 1)),
      STRLEN (chan_id (rd_channel r)), EXISTS (chan_doneId (rd_channel r)),
      EXPIRE (chan_id (rd_channel r)) redisChannelExpire]"

lemma fetch_failed:
  "r_exec R w (fetch_block r len) = (w', rep, Some e) \<Longrightarrow>
   reader_fetch R w r len = (w', r, Panic ''index out of range'')"
  by (simp add: reader_fetch_def fetch_block_def Let_def reply_values_def)

context redis_up
begin

lemma done_db:
  "snd (readerDone R w (Some r)) \<longleftrightarrow> rd_closed r \<or> chan_done (db_of w) (rd_channel r)"
  "db_of (fst (readerDone R w (Some r))) = db_of w"
proof -
  obtain w' rep where do: "r_do R w (EXISTS (chan_doneId (rd_channel r))) = (w', rep, None)"
    using do_up by blast
  from do_law [OF do] have "rep = RInt (if db_of w (chan_doneId (rd_channel r)) = None then 0 else 1)"
    "db_of w' = db_of w" by (simp_all add: cmd_db.simps)
  then show "snd (readerDone R w (Some r)) \<longleftrightarrow> rd_closed r \<or> chan_done (db_of w) (rd_channel r)"
    "db_of (fst (readerDone R w (Some r))) = db_of w"
    by (simp_all add: readerDone_def do reply_bool_def chan_done_def)
qed

lemma strlen_db:
  assumes "length (chan_val (db_of w) c) < 2 ^ 63"
  shows "\<exists>w' rep. r_do R w (STRLEN (chan_id c)) = (w', rep, None)
    \<and> reply_int64 rep None = (int (length (chan_val (db_of w) c)), None)"
proof -
  obtain w' rep where do: "r_do R w (STRLEN (chan_id c)) = (w', rep, None)" using do_up by blast
  with do_law [OF do] show ?thesis by (simp add: reply_int64_def chan_val_def)
qed

lemma noContent_db:
  assumes "length (chan_val (db_of w) (rd_channel r)) < 2 ^ 63"
  shows "snd (noContent R w (Some r) offset) \<longleftrightarrow>
    (rd_closed r \<or> chan_done (db_of w) (rd_channel r))
    \<and> int (length (chan_val (db_of w) (rd_channel r))) \<le> offset"
proof -
  obtain w1 fin where d: "readerDone R w (Some r) = (w1, fin)" by (rule prod.exhaust)
  then have fin: "fin \<longleftrightarrow> rd_closed r \<or> chan_done (db_of w) (rd_channel r)" and w1: "db_of w1 = db_of w"
    using done_db [of w r] by simp_all
  obtain w2 rep where s: "r_do R w1 (STRLEN (chan_id (rd_channel r))) = (w2, rep, None)"
    "reply_int64 rep None = (int (length (chan_val (db_of w) (rd_channel r))), None)"
    using strlen_db [of w1 "rd_channel r"] assms w1 by auto
  have "i64 (int (length (chan_val (db_of w) (rd_channel r))) - 1)
      = int (length (chan_val (db_of w) (rd_channel r))) - 1"
    by (rule i64_id) (use assms in \<open>simp add: is_i64_def\<close>)
  then show ?thesis using fin by (auto simp: noContent_def d s Let_def)
qed

end

text \<open>
  What any read hands back fits its buffer, wherever the offset is, as long as the buffer is
  not empty. Redis limits a value to 512 MB, far below the bound on its length.
\<close>

definition sane :: "db \<Rightarrow> reader \<Rightarrow> nat \<Rightarrow> bool" where
  "sane d r l \<longleftrightarrow> 0 < l \<and> int l < 2 ^ 62 \<and> is_i64 (rd_offset r)
     \<and> int (length (chan_val d (rd_channel r))) < 2 ^ 62"

lemma getrange_beyond: "int (length v) \<le> a \<Longrightarrow> getrange v a b = []"
  by (auto simp: getrange_def Let_def)

lemma chan_val_view: "chan_val d c = (case fst (channels_of d c) of None \<Rightarrow> [] | Some v \<Rightarrow> v)"
  by (auto simp: channels_of_def chan_val_def db_get_def split: option.splits)

lemma unread_view: "channels_of d' = channels_of d \<Longrightarrow> unread d' r = unread d r"
  by (simp add: unread_def chan_val_view)

lemma sane_step:
  assumes "sane d r l" and "channels_of d' = channels_of d" and "rd_channel r' = rd_channel r"
    and "is_i64 (rd_offset r')"
  shows "sane d' r' l"
  using assms by (simp add: sane_def chan_val_view)

context redis_server
begin

lemma fetch_fits:
  assumes "reader_fetch R w r (int l) = (w', r', Return (data, err))" and "sane (db_of w) r l"
  shows "length data \<le> l" and "channels_of (db_of w') = channels_of (db_of w)"
    and "rd_offset r' = rd_offset r" and "rd_channel r' = rd_channel r"
proof -
  note f = fetch_exec [OF assms(1)]
  let ?v = "chan_val (db_of w) (rd_channel r)"
  show "length data \<le> l"
  proof (cases "rd_offset r < 2 ^ 62")
    case True
    then have "i64 (rd_offset r + int l) = rd_offset r + int l"
      "i64 (rd_offset r + int l - 1) = rd_offset r + int l - 1"
      using assms(2) by (auto simp: sane_def is_i64_def intro!: i64_id)
    with f(1) getrange_length assms(2) show ?thesis by (simp add: sane_def)
  next
    case False
    then have "int (length ?v) \<le> rd_offset r" using assms(2) by (simp add: sane_def)
    with f(1) getrange_beyond show ?thesis by simp
  qed
  show "channels_of (db_of w') = channels_of (db_of w)" using f(4) by simp
  show "rd_offset r' = rd_offset r" "rd_channel r' = rd_channel r" using f(2) by simp_all
qed

lemma copy_fits:
  "length buf \<le> length p \<Longrightarrow> p' = (if buf = [] then p else fst (go_copy p buf)) \<Longrightarrow>
   length p' = length p \<and> drop (length buf) p' = drop (length buf) p"
  by (auto simp: go_copy_def Let_def)

lemma replay_fits:
  assumes "reader_replay R w r p = (w', r', Return (p', n, err))" and "sane (db_of w) r (length p)"
  shows "n \<le> length p \<and> length p' = length p \<and> drop n p' = drop n p"
    and "sane (db_of w') r' (length p)"
proof (atomize (full), cases "rd_replayed r")
  case False
  then obtain w1 r1 buf e where f: "reader_fetch R w r (int (length p)) = (w1, r1, Return (buf, e))"
    using assms(1) by (auto simp: reader_replay_def split: prod.splits go.splits)
  with False assms(1) have eqs: "n = length buf" "p' = (if buf = [] then p else fst (go_copy p buf))"
    "w' = w1" "rd_channel r' = rd_channel r1" "rd_offset r' = (if buf = [] then rd_offset r1
       else i64 (rd_offset r1 + int (length buf)))"
    by (auto simp: reader_replay_def Let_def)
  note ff = fetch_fits [OF f assms(2)]
  have "sane (db_of w') r' (length p)"
    by (rule sane_step [OF assms(2)]) (use eqs ff assms(2) in \<open>auto simp: sane_def\<close>)
  with copy_fits [OF ff(1) eqs(2)] ff(1) eqs(1) show
    "(n \<le> length p \<and> length p' = length p \<and> drop n p' = drop n p) \<and> sane (db_of w') r' (length p)"
    by simp
qed (use assms in \<open>simp add: reader_replay_def\<close>)

lemma read_msg_fits:
  assumes "reader_read_msg R w r ch p = (w', r', Return (p', n, err))" and "sane (db_of w) r (length p)"
  shows "n \<le> length p \<and> length p' = length p \<and> drop n p' = drop n p"
    and "sane (db_of w') r' (length p)"
proof (atomize (full), cases "ch = chan_killId (rd_channel r) \<or> ch = chan_id (rd_channel r)")
  case True
  then obtain w1 r1 buf e where f: "reader_fetch R w r (int (length p)) = (w1, r1, Return (buf, e))"
    using assms(1) by (auto simp: reader_read_msg_def Let_def split: prod.splits go.splits)
  note ff = fetch_fits [OF f assms(2)]
  define r2 where "r2 = (if buf = [] then r1 else r1\<lparr>rd_offset := i64 (rd_offset r1 + int (length buf))\<rparr>)"
  obtain w2 r3 ce where c: "reader_close R w1 r2 = (w2, r3, ce)" by (rule prod_cases3)
  note cf = reader_close_frame [OF c]
  from True assms(1) f c have eqs: "n = length buf" "p' = (if buf = [] then p else fst (go_copy p buf))"
    "w' = w1 \<and> r' = r2 \<or> w' = w2 \<and> r' = r3"
    by (auto simp: reader_read_msg_def Let_def r2_def split: if_splits prod.splits)
  have "sane (db_of w1) r2 (length p)"
    by (rule sane_step [OF assms(2)]) (use ff assms(2) in \<open>auto simp: sane_def r2_def\<close>)
  then have "sane (db_of w') r' (length p)" using eqs(3) cf by (auto simp: sane_def)
  with copy_fits [OF ff(1) eqs(2)] ff(1) eqs(1) show
    "(n \<le> length p \<and> length p' = length p \<and> drop n p' = drop n p) \<and> sane (db_of w') r' (length p)"
    by simp
next
  case False
  with assms show
    "(n \<le> length p \<and> length p' = length p \<and> drop n p' = drop n p) \<and> sane (db_of w') r' (length p)"
    by (simp add: read_msg_other)
qed

lemma on_msg_fits:
  assumes "reader_on_msg R w r m p = (w', r', Return (p', n, err))" and "sane (db_of w) r (length p)"
  shows "n \<le> length p \<and> length p' = length p \<and> drop n p' = drop n p"
    and "sane (db_of w') r' (length p)"
  using assms read_msg_fits by (auto simp: reader_on_msg_def split: sum.splits psmsg.splits)

text \<open>The parts of a read that does not panic: it returns, or it has replayed and waits.\<close>

lemma read_fits:
  assumes "reader_read R w r p = (w', r', Return (p', n, err))" and s: "sane (db_of w) r (length p)"
  shows "n \<le> length p \<and> length p' = length p \<and> drop n p' = drop n p"
    and "sane (db_of w') r' (length p)"
proof (atomize (full), cases "rd_closed r")
  case False
  obtain w1 r1 res where rp: "reader_replay R w r p = (w1, r1, res)" by (rule prod_cases3)
  with assms(1) False obtain p1 k e where res: "res = Return (p1, k, e)"
    by (cases res) (auto simp: reader_read_def)
  note fits = replay_fits [OF rp [unfolded res] s]
  show "(n \<le> length p \<and> length p' = length p \<and> drop n p' = drop n p) \<and> sane (db_of w') r' (length p)"
  proof (cases "k > 0 \<or> e \<noteq> None")
    case True
    with assms(1) False rp res have "w' = w1 \<and> r' = r1 \<and> p' = p1 \<and> n = k" by (auto simp: reader_read_def)
    with fits show ?thesis by simp
  next
    case wait: False
    obtain w2 msg where rc: "r_receive R w1 (rd_psc r1) = (w2, Return msg)"
      and om: "reader_on_msg R w2 r1 msg p1 = (w', r', Return (p', n, err))"
      using assms(1) False wait rp res by (auto simp: reader_read_def split: prod.splits go.splits)
    have "sane (db_of w2) r1 (length p1)" using fits receive_frame [OF rc] by simp
    from on_msg_fits [OF om this] fits wait show ?thesis by simp
  qed
qed (use assms in \<open>simp add: reader_read_def\<close>)

lemma fetch_not_blocked: "reader_fetch R w r l \<noteq> (w', r', Blocked)"
  by (auto simp: reader_fetch_def Let_def split: list.splits prod.splits)

lemma read_msg_not_blocked: "reader_read_msg R w r ch p \<noteq> (w', r', Blocked)"
proof (cases "ch = chan_killId (rd_channel r) \<or> ch = chan_id (rd_channel r)")
  case True
  obtain w1 r1 res where "reader_fetch R w r (int (length p)) = (w1, r1, res)" by (rule prod_cases3)
  with True fetch_not_blocked [of w r "int (length p)" w1 r1] show ?thesis
    by (cases res) (auto simp: reader_read_msg_def Let_def split: prod.splits)
next
  case False
  then show ?thesis by (simp add: read_msg_other)
qed

lemma read_blocked:
  assumes "reader_read R w r p = (w', r', Blocked)" and s: "sane (db_of w) r (length p)"
  shows "sane (db_of w') r' (length p)"
proof -
  have op: "\<not> rd_closed r" using assms(1) by (auto simp: reader_read_def)
  obtain w1 r1 res where rp: "reader_replay R w r p = (w1, r1, res)" by (rule prod_cases3)
  have "res \<noteq> Blocked" using rp fetch_not_blocked
    by (auto simp: reader_replay_def Let_def split: if_splits prod.splits go.splits)
  with assms(1) op rp obtain p1 k e where res: "res = Return (p1, k, e)" "\<not> (k > 0 \<or> e \<noteq> None)"
    by (cases res) (auto simp: reader_read_def split: if_splits)
  note fits = replay_fits [OF rp [unfolded res] s]
  obtain w2 m where rc: "r_receive R w1 (rd_psc r1) = (w2, m)" by (rule prod.exhaust)
  have "w' = w2 \<and> r' = r1"
  proof (cases m)
    case (Return msg)
    with assms(1) op rp res rc have "reader_on_msg R w2 r1 msg p1 = (w', r', Blocked)"
      by (simp add: reader_read_def)
    then show ?thesis using read_msg_not_blocked
      by (auto simp: reader_on_msg_def split: sum.splits psmsg.splits)
  qed (use assms(1) op rp res rc in \<open>simp_all add: reader_read_def\<close>)
  with fits(2) receive_frame [OF rc] show ?thesis by simp
qed

lemma read_zero:
  assumes "reader_read R w r [] = (w', r', Return (p', n, err))" and "\<not> rd_closed r"
    and "\<not> rd_replayed r" and "rd_offset r = 0" and "chan_val (db_of w) (rd_channel r) \<noteq> []"
    and "length (chan_val (db_of w) (rd_channel r)) < 2 ^ 63"
  shows "p' = [] \<and> n = length (chan_val (db_of w) (rd_channel r)) \<and> rd_offset r' = int n"
proof -
  let ?v = "chan_val (db_of w) (rd_channel r)"
  obtain w1 r1 buf e where f: "reader_fetch R w r (int (length ([] :: bytes))) = (w1, r1, Return (buf, e))"
    using assms(1-3) by (auto simp: reader_read_def reader_replay_def split: prod.splits go.splits)
  have "i64 0 = 0" "i64 (- 1) = - 1" by (rule i64_id, simp add: is_i64_def)+
  with fetch_exec(1,2) [OF f] assms(4) have b: "buf = ?v" "rd_offset r1 = 0"
    by (simp_all add: getrange_whole)
  have "i64 (int (length ?v)) = int (length ?v)" by (rule i64_id) (use assms(6) in \<open>simp add: is_i64_def\<close>)
  with assms f b show ?thesis by (auto simp: reader_read_def reader_replay_def Let_def go_copy_def)
qed

end

section \<open>Properties\<close>

text \<open>
  C4. The Redis commands implement the log of a channel: after any sequence of registrations,
  writes, closes and lookups that reports no error, on whatever channels, the database seen as
  channels is the abstract state the same sequence gives; no operation touches another channel.
\<close>

theorem operations_refine_logs:
  assumes "redis_server R db_of inbox pats" and "op_calls R w xs = (w', None)"
  shows "channels_of (db_of w') = fold (\<lambda>x cs. op_abs cs x) xs (channels_of (db_of w))"
  by (rule redis_server.op_calls_abs [OF assms])

definition demo_ops :: "chan_op list" where
  "demo_ops = [Op_register ''a'', Op_write ''a'' ''xy'', Op_register ''b'', Op_write ''b'' ''1'',
     Op_write ''a'' ''z'', Op_close ''a'', Op_get ''b'']"

lemma demo_ops_run: "snd (op_calls ref_redis ref_empty demo_ops) = None"
  by code_simp

theorem operations_refine_logs_witness:
  "channels_of (rw_db (fst (op_calls ref_redis ref_empty demo_ops))) ''a'' = (Some ''xyz'', True)"
proof -
  have "op_calls ref_redis ref_empty demo_ops = (fst (op_calls ref_redis ref_empty demo_ops), None)"
    using demo_ops_run by (metis prod.collapse)
  from operations_refine_logs [OF refred.redis_server_axioms this]
  show ?thesis by (simp add: demo_ops_def)
qed

text \<open>
  C16. \<open>Get\<close> returns exactly what was written to its channel since it was last registered, in
  order, whatever was done to other channels in between.
\<close>

theorem get_returns_writes:
  assumes "redis_server R db_of inbox pats"
    and "op_calls R w (Op_register c # xs) = (w1, None)" and "broker_get R w1 c = (w2, v, None)"
  shows "v = log_of c xs []"
proof -
  let ?cs = "op_abs (channels_of (db_of w)) (Op_register c)"
  have "channels_of (db_of w1) = fold (\<lambda>x cs. op_abs cs x) xs ?cs"
    using redis_server.op_calls_abs [OF assms(1,2)] by simp
  then have "fst (channels_of (db_of w1) c) = Some (log_of c xs [])"
    using fold_op_abs_log [of ?cs c "[]" xs] by simp
  with redis_server.get_db(2) [OF assms(1,3)] show ?thesis
    by (auto simp: channels_of_def chan_val_def db_get_def split: option.splits)
qed

theorem get_returns_writes_witness:
  "fst (snd (broker_get ref_redis (fst (op_calls ref_redis ref_empty demo_ops)) ''a'')) = ''xyz''"
proof -
  let ?w = "fst (op_calls ref_redis ref_empty demo_ops)"
  have run: "op_calls ref_redis ref_empty (Op_register ''a'' # tl demo_ops) = (?w, None)"
    using demo_ops_run by (metis demo_ops_def list.sel(3) prod.collapse)
  have "snd (snd (broker_get ref_redis ?w ''a'')) = None" by code_simp
  then have "broker_get ref_redis ?w ''a''
      = (fst (broker_get ref_redis ?w ''a''), fst (snd (broker_get ref_redis ?w ''a'')), None)"
    by (metis prod.collapse)
  from get_returns_writes [OF refred.redis_server_axioms run this]
  show ?thesis by (simp add: demo_ops_def)
qed

text \<open>
  The mark that a channel is done does not live as long as its content: 300 seconds after
  the close a subscriber's renewals have kept the content, and the channel is registered again
  as one that is not done, so that a reader of it waits for ever instead of reaching the end.
\<close>

theorem done_mark_expires_first:
  assumes "a < 300" and "b < 300" and "300 \<le> a + b"
  shows "snd (broker_get ref_redis (expiry_run c p a b) c) = (p, None)
    \<and> snd (registrar_isRegistered ref_redis (expiry_run c p a b) c)
    \<and> \<not> snd (readerDone ref_redis (expiry_run c p a b) (Some (new_reader c k)))"
  using expiry_run_db [OF assms(1,2), of c p] assms(3)
  by (simp add: broker_get_def registrar_isRegistered_def readerDone_def new_reader_def Let_def
      ref_redis_def reply_bytes_def reply_bool_def)

theorem done_mark_expires_first_witness:
  "snd (broker_get ref_redis (expiry_run ''k'' ''data'' 200 200) ''k'') = (''data'', None)
    \<and> snd (registrar_isRegistered ref_redis (expiry_run ''k'' ''data'' 200 200) ''k'')
    \<and> \<not> snd (readerDone ref_redis (expiry_run ''k'' ''data'' 200 200) (Some (new_reader ''k'' 1)))"
  by (rule done_mark_expires_first) simp_all

text \<open>
  A failed \<open>EXEC\<close> is not reported as an error: the reader indexes the empty reply and
  panics, in whatever goroutine called \<open>Read\<close>.
\<close>

theorem read_panics_without_reply:
  assumes "\<not> rd_closed r" and "\<not> rd_replayed r"
    and "r_exec R w (fetch_block r (int (length p))) = (w', rep, Some e)"
  shows "reader_read R w r p = (w', r, Panic ''index out of range'')"
  using fetch_failed [OF assms(3)] assms(1,2) by (simp add: reader_read_def reader_replay_def)

theorem read_panics_without_reply_witness:
  "reader_read ref_down ref_empty (new_reader ''k'' 0) ''buffer''
    = (ref_empty, new_reader ''k'' 0, Panic ''index out of range'')"
  by (rule read_panics_without_reply) (simp_all add: new_reader_def ref_down_def)

text \<open>
  \<open>NoContent\<close> is true exactly when the channel is done, or its reader closed, and the
  offset is not before its end: there is nothing left that a response could hold.
\<close>

theorem noContent_iff_nothing_left:
  assumes "redis_up R db_of inbox pats"
    and "length (chan_val (db_of w) (rd_channel r)) < 2 ^ 63"
  shows "snd (noContent R w (Some r) offset) \<longleftrightarrow>
    (rd_closed r \<or> chan_done (db_of w) (rd_channel r))
    \<and> int (length (chan_val (db_of w) (rd_channel r))) \<le> offset"
  by (rule redis_up.noContent_db [OF assms])

theorem noContent_iff_nothing_left_witness:
  "snd (noContent ref_redis (expiry_run ''k'' ''data'' 9 9) (Some (new_reader ''k'' 1)) 4)
    \<and> \<not> snd (noContent ref_redis (expiry_run ''k'' ''data'' 9 9) (Some (new_reader ''k'' 1)) 3)"
proof -
  define w where "w = expiry_run ''k'' ''data'' 9 9"
  have v: "chan_val (rw_db w) (rd_channel (new_reader ''k'' 1)) = ''data''"
    and d: "chan_done (rw_db w) (rd_channel (new_reader ''k'' 1))"
    using expiry_run_db [of 9 9 "''k''" "''data''"]
    by (simp_all add: chan_val_def db_get_def chan_done_def new_reader_def w_def)
  have n: "int (length ''data'') \<le> 4" "\<not> int (length ''data'') \<le> 3" by simp_all
  have l: "length (chan_val (rw_db w) (rd_channel (new_reader ''k'' 1))) < 2 ^ 63"
    unfolding v by simp
  note nl = noContent_iff_nothing_left [OF refred.redis_up_axioms l, unfolded v]
  show ?thesis unfolding w_def [symmetric] using nl [of 4] nl [of 3] d n by blast
qed

text \<open>
  C17. \<open>Read\<close> keeps the contract of \<open>io.Reader\<close> for every buffer that is not empty: it returns
  at most the length of the buffer and writes nothing behind what it returns, whatever the
  offset, the message received and the content of the channel.
\<close>

theorem read_fits_buffer:
  assumes "redis_server R db_of inbox pats" and "sane (db_of w) r (length p)"
    and "reader_read R w r p = (w', r', Return (p', n, err))"
  shows "n \<le> length p \<and> length p' = length p \<and> drop n p' = drop n p"
  by (rule redis_server.read_fits(1) [OF assms(1,3,2)])

definition demo_reader :: reader where
  "demo_reader = (new_reader ''k'' 1)\<lparr>rd_offset := 1\<rparr>"

theorem read_fits_buffer_witness:
  "\<exists>w' r' p' n err. reader_read ref_redis (expiry_run ''k'' ''data'' 9 9) demo_reader ''.....''
      = (w', r', Return (p', n, err))
    \<and> p' = ''ata..'' \<and> n = 3 \<and> n \<le> length ''.....'' \<and> length p' = length ''.....''
    \<and> drop n p' = drop n ''.....''"
proof -
  have "chan_val (rw_db (expiry_run ''k'' ''data'' 9 9)) (rd_channel demo_reader) = ''data''"
    using expiry_run_db [of 9 9 "''k''" "''data''"] by (simp add: chan_val_def db_get_def demo_reader_def new_reader_def)
  then have nw: "sane (rw_db (expiry_run ''k'' ''data'' 9 9)) demo_reader (length ''.....'')"
    by (simp add: sane_def is_i64_def demo_reader_def new_reader_def)
  have "snd (snd (reader_read ref_redis (expiry_run ''k'' ''data'' 9 9) demo_reader ''.....''))
      = Return (''ata..'', 3, Some EOF)"
    by code_simp
  then obtain w' r' where r: "reader_read ref_redis (expiry_run ''k'' ''data'' 9 9) demo_reader ''.....''
      = (w', r', Return (''ata..'', 3, Some EOF))"
    by (metis prod.collapse)
  from read_fits_buffer [OF refred.redis_server_axioms nw r] r show ?thesis by blast
qed

text \<open>
  An empty buffer breaks that contract: a first \<open>Read\<close> of no bytes at offset 0 asks Redis
  for the range from 0 to -1, which is the whole value; it reports the length of the channel,
  copies nothing and moves the offset to the end, so the content is never returned.
\<close>

theorem empty_read_skips_channel:
  assumes "redis_server R db_of inbox pats"
    and "reader_read R w r [] = (w', r', Return (p', n, err))" and "\<not> rd_closed r"
    and "\<not> rd_replayed r" and "rd_offset r = 0" and "chan_val (db_of w) (rd_channel r) \<noteq> []"
    and "length (chan_val (db_of w) (rd_channel r)) < 2 ^ 63"
  shows "p' = [] \<and> n = length (chan_val (db_of w) (rd_channel r)) \<and> rd_offset r' = int n"
  by (rule redis_server.read_zero [OF assms])

theorem empty_read_skips_channel_witness:
  "\<exists>w' r'. reader_read ref_redis (expiry_run ''k'' ''data'' 9 9) (new_reader ''k'' 1) []
      = (w', r', Return ([], 4, None)) \<and> rd_offset r' = 4"
proof -
  have v: "chan_val (rw_db (expiry_run ''k'' ''data'' 9 9)) (rd_channel (new_reader ''k'' 1)) = ''data''"
    using expiry_run_db [of 9 9 "''k''" "''data''"] by (simp add: chan_val_def db_get_def new_reader_def)
  have "snd (snd (reader_read ref_redis (expiry_run ''k'' ''data'' 9 9) (new_reader ''k'' 1) []))
      = Return ([], 4, None)"
    by code_simp
  then obtain w' r' where r: "reader_read ref_redis (expiry_run ''k'' ''data'' 9 9) (new_reader ''k'' 1) []
      = (w', r', Return ([], 4, None))"
    by (metis prod.collapse)
  have "\<not> rd_closed (new_reader ''k'' 1)" "\<not> rd_replayed (new_reader ''k'' 1)"
    "rd_offset (new_reader ''k'' 1) = 0" by code_simp+
  from empty_read_skips_channel [OF refred.redis_server_axioms r this, unfolded v]
  have "rd_offset r' = 4" by simp
  with r show ?thesis by blast
qed

end
