(* ===== verification/IO.thy ===== *)
theory IO
  imports Channels
begin

text \<open>
  The interfaces of package \<open>io\<close> as the program uses them: a reader is a state \<open>'r\<close> with the
  methods its dynamic type has, so that the type assertions of the code
  (\<open>r.(io.ReadSeeker)\<close>, \<open>r.(io.Closer)\<close>, \<open>r.(*reader)\<close>) are questions about it: a method
  the type does not have is \<open>None\<close>. The broker's reader carries the world of its Redis client
  along.
\<close>

record 'r io =
  io_read :: "'r \<Rightarrow> bytes \<Rightarrow> 'r \<times> read_result"
  io_seek :: "'r \<Rightarrow> int \<Rightarrow> int \<Rightarrow> ('r \<times> int \<times> go_error option) option"
  io_close :: "'r \<Rightarrow> ('r \<times> go_error option) option"
  io_renew :: "'r \<Rightarrow> 'r"  \<comment> \<open>\<open>broker.RenewExpiry\<close> on this reader\<close>

definition broker_io :: "'w redis \<Rightarrow> ('w \<times> reader) io" where
  "broker_io R = \<lparr>
     io_read = (\<lambda>(w, r) p. let (w', r', res) = reader_read R w r p in ((w', r'), res)),
     io_seek = (\<lambda>(w, r) off wh. let (r', n, err) = reader_seek r off wh in Some ((w, r'), n, err)),
     io_close = (\<lambda>(w, r). let (w', r', err) = reader_close R w r in Some ((w', r'), err)),
     io_renew = (\<lambda>(w, r). (renewExpiry R w (Some r), r))\<rparr>"

text \<open>
  \<open>ioutil.NopCloser\<close> hides every method but \<open>Read\<close> and adds a \<open>Close\<close> that does nothing; what
  it wraps is no longer a \<open>*reader\<close>.
\<close>

definition nop_closer :: "'r io \<Rightarrow> 'r io" where
  "nop_closer ops = \<lparr>io_read = io_read ops, io_seek = (\<lambda>r off wh. None),
     io_close = (\<lambda>r. Some (r, None)),
     io_renew = (\<lambda>r. r)\<rparr>"

text \<open>
  A reader of bytes already in memory that returns as much as fits, then \<open>io.EOF\<close>
  (\<open>strings.Reader\<close>); it can be moved to an offset of its content.
\<close>

definition string_io :: "(bytes \<times> nat) io" where
  "string_io = \<lparr>
     io_read = (\<lambda>(s, i) p. if p = [] then ((s, i), Return (p, 0, None))
        else if length s \<le> i then ((s, i), Return (p, 0, Some EOF))
        else let (p', n) = go_copy p (drop i s) in ((s, i + n), Return (p', n, None))),
     io_seek = (\<lambda>(s, i) off wh.
        let abs = (if wh = 0 then Some off else if wh = 1 then Some (int i + off)
                   else if wh = 2 then Some (int (length s) + off) else None)
        in Some (case abs of None \<Rightarrow> ((s, i), 0, Some (ErrOther ''strings: invalid whence''))
           | Some a \<Rightarrow> (if a < 0 then ((s, i), 0, Some (ErrOther ''strings: negative position''))
                       else ((s, nat a), a, None)))),
     io_close = (\<lambda>r. None), io_renew = (\<lambda>r. r)\<rparr>"

lemma broker_io_simps [simp]:
  "io_read (broker_io R) (w, r) p = (case reader_read R w r p of (w', r', res) \<Rightarrow> ((w', r'), res))"
  "io_renew (broker_io R) (w, r) = (renewExpiry R w (Some r), r)"
  by (simp_all add: broker_io_def)

section \<open>What one read of the broker's reader returns\<close>

context redis_server
begin

lemma read_next:
  assumes "reader_read R w r p = (w', r', Return (p', n, err))" and "readable r (length p)"
  shows "n = 0 \<or> take n p' = take (length p) (unread (db_of w) r)"
    and "n \<le> length p" and "length p' = length p"
    and "rd_offset r' = rd_offset r + int n" and "rd_channel r' = rd_channel r"
proof -
  let ?goal = "\<lambda>d p p' n r r'. (n = 0 \<or> take n p' = take (length p) (unread d r)) \<and> n \<le> length p
    \<and> length p' = length p \<and> rd_offset r' = rd_offset r + int n \<and> rd_channel r' = rd_channel r"
  have msg: "?goal (db_of w) p p' n r r'"
    if om: "reader_on_msg R w r m p = (w', r', Return (p', n, err))" and rb: "readable r (length p)"
    for w r m p w' r' p' n err
  proof (cases "\<exists>a ch b. m = Inr (PMessage a ch b) \<and>
      (ch = chan_killId (rd_channel r) \<or> ch = chan_id (rd_channel r))")
    case True
    then obtain ch where "reader_read_msg R w r ch p = (w', r', Return (p', n, err))"
      "ch = chan_killId (rd_channel r) \<or> ch = chan_id (rd_channel r)"
      using om by (auto simp: reader_on_msg_def)
    from read_msg_readable [OF this rb] show ?thesis by simp
  next
    case False
    then have "n = 0" "p' = p" "r' = r" using om read_msg_other
      by (auto simp: reader_on_msg_def split: sum.splits psmsg.splits)
    then show ?thesis by simp
  qed
  have "?goal (db_of w) p p' n r r'"
  proof (cases "rd_closed r")
    case True
    with assms(1) show ?thesis by (simp add: reader_read_def)
  next
    case False
    obtain w1 r1 res where rp: "reader_replay R w r p = (w1, r1, res)" by (rule prod_cases3)
    with assms(1) False obtain p1 k e where res: "res = Return (p1, k, e)"
      by (cases res) (auto simp: reader_read_def)
    have rep: "?goal (db_of w) p p1 k r r1" "channels_of (db_of w1) = channels_of (db_of w)"
    proof (atomize (full), cases "rd_replayed r")
      case True
      with rp res show "?goal (db_of w) p p1 k r r1 \<and> channels_of (db_of w1) = channels_of (db_of w)"
        by (simp add: reader_replay_def)
    next
      case False
      note replay_readable [OF rp [unfolded res] False assms(2)]
      then show "?goal (db_of w) p p1 k r r1 \<and> channels_of (db_of w1) = channels_of (db_of w)" by simp
    qed
    show ?thesis
    proof (cases "k > 0 \<or> e \<noteq> None")
      case True
      with assms(1) False rp res rep show ?thesis by (auto simp: reader_read_def)
    next
      case wait: False
      then have k: "k = 0" "rd_offset r1 = rd_offset r" "length p1 = length p" "rd_channel r1 = rd_channel r"
        using rep(1) by simp_all
      obtain w2 m where rc: "r_receive R w1 (rd_psc r1) = (w2, Return m)"
        and om: "reader_on_msg R w2 r1 m p1 = (w', r', Return (p', n, err))"
        using assms(1) False wait rp res by (auto simp: reader_read_def split: prod.splits go.splits)
      have "readable r1 (length p1)" using assms(2) k by (simp add: readable_def)
      from msg [OF om this] have g: "?goal (db_of w2) p1 p' n r1 r'" .
      have "unread (db_of w2) r1 = unread (db_of w) r"
        using receive_frame [OF rc] rep(2) k by (simp add: unread_def chan_val_view)
      with g k show ?thesis by simp
    qed
  qed
  then show "n = 0 \<or> take n p' = take (length p) (unread (db_of w) r)" "n \<le> length p"
    "length p' = length p" "rd_offset r' = rd_offset r + int n" "rd_channel r' = rd_channel r"
    by simp_all
qed

end

section \<open>The interface io.Reader\<close>

text \<open>
  What a client of a reader relies on, in the states \<open>I\<close> it can be in: at most as many bytes
  as the buffer holds, and never another length of the buffer. The encoder and the keepalive
  reader are clients of it and providers again.
\<close>

locale io_reader =
  fixes ops :: "'r io" and I :: "'r \<Rightarrow> bool"
  assumes read_fits: "I r \<Longrightarrow> p \<noteq> [] \<Longrightarrow> int (length p) < 2 ^ 62 \<Longrightarrow>
      io_read ops r p = (r', Return (p', n, err)) \<Longrightarrow> n \<le> length p \<and> length p' = length p \<and> I r'"
    and read_blocked: "I r \<Longrightarrow> p \<noteq> [] \<Longrightarrow> int (length p) < 2 ^ 62 \<Longrightarrow>
      io_read ops r p = (r', Blocked) \<Longrightarrow> I r'"
    and renew_keeps: "I r \<Longrightarrow> I (io_renew ops r)"
begin

lemma read_bytes:
  assumes "I r" and "p \<noteq> []" and "int (length p) < 2 ^ 62"
    and "io_read ops r p = (r', Return (p', n, err))"
  shows "length (take n p') = n"
  using read_fits [OF assms] by simp

end

definition broker_ok :: "('w \<Rightarrow> db) \<Rightarrow> 'w \<times> reader \<Rightarrow> bool" where
  "broker_ok db_of x \<longleftrightarrow> sane (db_of (fst x)) (snd x) 1"

lemma sane_any: "sane d r l \<longleftrightarrow> sane d r 1 \<and> 0 < l \<and> int l < 2 ^ 62"
  by (auto simp: sane_def)

context redis_up
begin

lemma renew_channels_of: "channels_of (db_of (renewExpiry R w (Some r))) = channels_of (db_of w)"
proof -
  obtain w' rep where ex: "r_exec R w [EXPIRE (chan_id (rd_channel r)) redisChannelExpire] = (w', rep, None)"
    using exec_up by blast
  from exec_law [OF ex] have "db_of w' = cmd_db (db_of w) (EXPIRE (chan_id (rd_channel r)) redisChannelExpire)"
    by (simp add: cmds_db.simps)
  with ex show ?thesis by (simp add: renewExpiry_def)
qed

end

sublocale redis_up \<subseteq> broker: io_reader "broker_io R" "broker_ok db_of"
proof
  fix x x' :: "'a \<times> reader" and p p' :: bytes and n err
  assume ok: "broker_ok db_of x" "p \<noteq> []" "int (length p) < 2 ^ 62"
  obtain w r where x: "x = (w, r)" by (rule prod.exhaust)
  have s: "sane (db_of w) r (length p)" using ok by (simp add: broker_ok_def x sane_any [of _ _ "length p"])
  show "n \<le> length p \<and> length p' = length p \<and> broker_ok db_of x'"
    if io: "io_read (broker_io R) x p = (x', Return (p', n, err))"
  proof -
    obtain w' r' where rd: "reader_read R w r p = (w', r', Return (p', n, err))" "x' = (w', r')"
      using io by (auto simp: x split: prod.splits)
    from read_fits [OF rd(1) s] rd(2) show ?thesis
      by (simp add: broker_ok_def sane_any [of _ _ "length p"])
  qed
  show "broker_ok db_of x'" if io: "io_read (broker_io R) x p = (x', Blocked)"
  proof -
    obtain w' r' where rd: "reader_read R w r p = (w', r', Blocked)" "x' = (w', r')"
      using io by (auto simp: x split: prod.splits)
    from read_blocked [OF rd(1) s] rd(2) show ?thesis
      by (simp add: broker_ok_def sane_any [of _ _ "length p"])
  qed
next
  fix x assume "broker_ok db_of x"
  then show "broker_ok db_of (io_renew (broker_io R) x)"
    by (cases x) (simp add: broker_ok_def sane_def renew_channels_of chan_val_view)
qed

interpretation refio: io_reader "broker_io ref_redis" "broker_ok rw_db"
  by (rule refred.broker.io_reader_axioms)

end
