(* ===== verification/Sse.thy ===== *)
theory Sse
  imports IO
begin

text \<open>
  Package \<open>sse\<close> (\<open>sse.go\<close>): the encoder that turns the bytes of a reader into events whose
  ids are positions in the stream. The decoder below is the reading rule of the event-stream
  format (the W3C recommendation \<open>server/errors.go\<close> refers to), on bytes: it is the
  specification the encoder is measured against.
\<close>

section \<open>The encoder\<close>

record 'r encoder =
  enc_reader :: 'r
  enc_offset :: int

definition newEncoder :: "'r \<Rightarrow> 'r encoder" where
  "newEncoder r = \<lparr>enc_reader = r, enc_offset = 0\<rparr>"

definition enc_seek ::
  "'r io \<Rightarrow> 'r encoder \<Rightarrow> int \<Rightarrow> int \<Rightarrow> 'r encoder \<times> int \<times> go_error option" where
  "enc_seek ops e offset whence =
     (case io_seek ops (enc_reader e) offset whence of
        Some (r', n, err) \<Rightarrow> (e\<lparr>enc_reader := r', enc_offset := n\<rparr>, n, err)
      | None \<Rightarrow> (let n = i64 (enc_offset e + offset) in (e\<lparr>enc_offset := n\<rparr>, n, None)))"

definition sse_id :: "int \<Rightarrow> bytes" where
  "sse_id n = ''id: '' @ itoa n @ [CHR 0x0A]"

definition sse_data :: "bytes \<Rightarrow> bytes" where
  "sse_data line = ''data: '' @ line @ [CHR 0x0A]"

definition sse_format :: "int \<Rightarrow> bytes \<Rightarrow> bytes" where
  "sse_format pos msg =
     sse_id (i64 (pos + int (length msg)))
     @ concat (map sse_data (split_on CHR 0x0A msg)) @ [CHR 0x0A]"

text \<open>\<open>p[:n]\<close> panics when the reader claims more than the buffer holds.\<close>

definition enc_read ::
  "'r io \<Rightarrow> 'r encoder \<Rightarrow> bytes \<Rightarrow> 'r encoder \<times> read_result" where
  "enc_read ops e p =
     (case io_read ops (enc_reader e) p of
        (r', Return (p1, n, err)) \<Rightarrow>
          (if n > 0 then
             (if n > length p1 then (e\<lparr>enc_reader := r'\<rparr>, Panic ''slice bounds out of range'')
              else let buf = sse_format (enc_offset e) (take n p1); (p2, k) = go_copy p1 buf
                   in (e\<lparr>enc_reader := r', enc_offset := i64 (enc_offset e + int n)\<rparr>,
                       Return (p2, k, err)))
           else (e\<lparr>enc_reader := r'\<rparr>, Return (p1, n, err)))
      | (r', Panic m) \<Rightarrow> (e\<lparr>enc_reader := r'\<rparr>, Panic m)
      | (r', Blocked) \<Rightarrow> (e\<lparr>enc_reader := r'\<rparr>, Blocked))"

text \<open>The encoder as a reader of its own; the type assertions on what it wraps go no deeper.\<close>

definition encoder_io :: "'r io \<Rightarrow> 'r encoder io" where
  "encoder_io ops = \<lparr>io_read = enc_read ops, io_seek = (\<lambda>e off wh. Some (enc_seek ops e off wh)),
     io_close = (\<lambda>e. None), io_renew = (\<lambda>e. e)\<rparr>"

section \<open>The event-stream format\<close>

text \<open>
  Lines end in a line feed, a carriage return or both; a last line that is not ended is
  dropped.
\<close>

fun es_lines :: "bytes \<Rightarrow> bytes \<Rightarrow> bytes list" where
  "es_lines cur [] = []"
| "es_lines cur (c # cs) =
     (if c = CHR 0x0A then cur # es_lines [] cs
      else if c = CHR 0x0D
        then cur # es_lines [] (if cs \<noteq> [] \<and> hd cs = CHR 0x0A then tl cs else cs)
      else es_lines (cur @ [c]) cs)"

definition es_value :: "bytes \<Rightarrow> bytes" where
  "es_value v = (case v of CHR '' '' # v' \<Rightarrow> v' | _ \<Rightarrow> v)"

text \<open>
  \<open>d\<close> is the data buffer and \<open>i\<close> the last event id: a blank line dispatches the event with
  its id unless it has no data, a line that starts with a colon is a comment.
\<close>

fun es_events :: "bytes list \<Rightarrow> bytes \<Rightarrow> string \<Rightarrow> (string \<times> bytes) list" where
  "es_events [] d i = []"
| "es_events (l # ls) d i =
     (if l = [] then (if d = [] then es_events ls [] i else (i, butlast d) # es_events ls [] i)
      else if hd l = CHR '':'' then es_events ls d i
      else case split2 CHR '':'' l of
        [f, v] \<Rightarrow>
          (if f = ''data'' then es_events ls (d @ es_value v @ [CHR 0x0A]) i
           else if f = ''id'' then es_events ls d (es_value v)
           else es_events ls d i)
      | _ \<Rightarrow> (if l = ''data'' then es_events ls (d @ [CHR 0x0A]) i
              else if l = ''id'' then es_events ls d []
              else es_events ls d i))"

definition es_decode :: "bytes \<Rightarrow> (string \<times> bytes) list" where
  "es_decode bs = es_events (es_lines [] bs) [] []"

text \<open>What the server sends: events and the keepalive of \<open>newReader\<close>, from a position on.\<close>

datatype piece = Chunk bytes | Ack

definition keepalive :: bytes where
  "keepalive = '':keepalive'' @ [CHR 0x0A]"

fun sse_stream :: "int \<Rightarrow> piece list \<Rightarrow> bytes" where
  "sse_stream pos [] = []"
| "sse_stream pos (Chunk m # xs) = sse_format pos m @ sse_stream (pos + int (length m)) xs"
| "sse_stream pos (Ack # xs) = keepalive @ sse_stream pos xs"

fun sse_events :: "int \<Rightarrow> piece list \<Rightarrow> (string \<times> bytes) list" where
  "sse_events pos [] = []"
| "sse_events pos (Chunk m # xs) =
     (itoa (pos + int (length m)), m) # sse_events (pos + int (length m)) xs"
| "sse_events pos (Ack # xs) = sse_events pos xs"

fun pieces_data :: "piece list \<Rightarrow> bytes" where
  "pieces_data [] = []"
| "pieces_data (Chunk m # xs) = m @ pieces_data xs"
| "pieces_data (Ack # xs) = pieces_data xs"

definition no_break :: "bytes \<Rightarrow> bool" where
  "no_break s \<longleftrightarrow> CHR 0x0A \<notin> set s \<and> CHR 0x0D \<notin> set s"

section \<open>Lemmas\<close>

lemma es_lines_line: "no_break s \<Longrightarrow> es_lines cur (s @ CHR 0x0A # t) = (cur @ s) # es_lines [] t"
  by (induction s arbitrary: cur) (auto simp: no_break_def)

lemma es_lines_open: "no_break s \<Longrightarrow> es_lines cur s = []"
  by (induction s arbitrary: cur) (auto simp: no_break_def)

lemma es_lines_concat:
  "\<forall>l \<in> set ls. no_break l \<Longrightarrow>
   es_lines [] (concat (map (\<lambda>l. l @ [CHR 0x0A]) ls) @ t) = ls @ es_lines [] t"
  by (induction ls) (auto simp: es_lines_line)

text \<open>Cutting a text of whole lines leaves a part of its lines, never all.\<close>

lemma es_lines_cut:
  "\<forall>l \<in> set ls. no_break l \<Longrightarrow> k < length (concat (map (\<lambda>l. l @ [CHR 0x0A]) ls)) \<Longrightarrow>
   \<exists>j < length ls. es_lines [] (take k (concat (map (\<lambda>l. l @ [CHR 0x0A]) ls))) = take j ls"
proof (induction ls arbitrary: k)
  case (Cons l ls)
  show ?case
  proof (cases "k \<le> length l")
    case True
    have "no_break (take k l)" using Cons.prems(1) by (auto simp: no_break_def dest: in_set_takeD)
    with True show ?thesis by (intro exI [of _ 0]) (simp add: es_lines_open)
  next
    case False
    let ?r = "concat (map (\<lambda>l. l @ [CHR 0x0A]) ls)"
    have t: "take k (concat (map (\<lambda>l. l @ [CHR 0x0A]) (l # ls)))
        = l @ CHR 0x0A # take (k - Suc (length l)) ?r"
      using False by (simp add: take_Cons' Suc_le_eq)
    have "k - Suc (length l) < length ?r" using Cons.prems(2) False by simp
    with Cons.IH Cons.prems(1) obtain j where "j < length ls"
      "es_lines [] (take (k - Suc (length l)) ?r) = take j ls" by auto
    with Cons.prems(1) show ?thesis unfolding t
      by (intro exI [of _ "Suc j"]) (simp add: es_lines_line)
  qed
qed simp

lemma es_events_step: "l \<noteq> [] \<Longrightarrow> \<exists>d' i'. es_events (l # ls) d i = es_events ls d' i'"
  unfolding es_events.simps(2) by (cases "split2 CHR '':'' l" rule: remdups_adj.cases) (simp_all split: list.split, (blast+)?)

lemma es_events_no_blank: "[] \<notin> set ls \<Longrightarrow> es_events ls d i = []"
proof (induction ls arbitrary: d i)
  case (Cons l ls)
  then obtain d' i' where "es_events (l # ls) d i = es_events ls d' i'"
    using es_events_step [of l ls d i] by auto
  with Cons show ?case by simp
qed (rule es_events.simps(1))

text \<open>The lines of an event.\<close>

definition event_lines :: "int \<Rightarrow> bytes \<Rightarrow> bytes list" where
  "event_lines n msg = (''id: '' @ itoa n) # map (\<lambda>l. ''data: '' @ l) (split_on CHR 0x0A msg)"

lemma sse_format_lines:
  "sse_format pos msg = concat (map (\<lambda>l. l @ [CHR 0x0A])
     (event_lines (i64 (pos + int (length msg))) msg @ [[]]))"
  by (simp add: sse_format_def event_lines_def sse_id_def sse_data_def [abs_def] comp_def)

lemma itoa_no_break: "no_break (itoa n)"
  by (auto simp: no_break_def is_digit_def dest: itoa_chars)

lemma split_on_subset: "l \<in> set (split_on c s) \<Longrightarrow> set l \<subseteq> set s"
proof (induction s arbitrary: l)
  case (Cons x s)
  have "set (hd (split_on c s)) \<subseteq> set s" using Cons.IH by simp
  moreover have "set m \<subseteq> set s" if "m \<in> set (tl (split_on c s))" for m
    using that by (intro Cons.IH) (rule list.set_sel(2) [OF split_on_not_Nil])
  moreover have "set m \<subseteq> set s" if "m \<in> set (split_on c s)" for m using that by (rule Cons.IH)
  moreover have "l = [] \<or> l \<in> set (split_on c s) \<or> l = x # hd (split_on c s) \<or> l \<in> set (tl (split_on c s))"
    using Cons.prems by (auto split: if_splits)
  ultimately show ?case by fastforce
qed simp

lemma event_lines_no_break:
  assumes "CHR 0x0D \<notin> set msg" and "l \<in> set (event_lines n msg @ [[]])"
  shows "no_break l"
proof -
  have "no_break (''data: '' @ s)" if "s \<in> set (split_on CHR 0x0A msg)" for s
    using split_on_free [OF that] split_on_subset [OF that] assms(1) by (auto simp: no_break_def)
  moreover have "no_break (''id: '' @ itoa n)" using itoa_no_break by (simp add: no_break_def)
  ultimately show ?thesis using assms(2) by (auto simp: event_lines_def no_break_def)
qed

lemma split2_data: "split2 CHR '':'' (''data: '' @ l) = [''data'', CHR '' '' # l]"
  using split2_append [of "CHR '':''" "''data''" "CHR '' '' # l"] by simp

lemma split2_id: "split2 CHR '':'' (''id: '' @ l) = [''id'', CHR '' '' # l]"
  using split2_append [of "CHR '':''" "''id''" "CHR '' '' # l"] by simp

lemma es_events_data:
  "es_events (map (\<lambda>l. ''data: '' @ l) ls @ rest) d i
   = es_events rest (d @ concat (map (\<lambda>l. l @ [CHR 0x0A]) ls)) i"
proof (induction ls arbitrary: d)
  case (Cons l ls)
  show ?case using Cons.IH split2_data [of l] by (simp add: es_value_def)
qed simp

lemma butlast_lines: "ls \<noteq> [] \<Longrightarrow> butlast (concat (map (\<lambda>l. l @ [c]) ls)) = join [c] ls"
proof (induction ls)
  case (Cons l ls)
  then show ?case by (cases "ls = []") (auto simp: join_Cons butlast_append)
qed simp

lemma es_events_event:
  "es_events (event_lines n msg @ [] # rest) [] i = (itoa n, msg) # es_events rest [] (itoa n)"
proof -
  have "concat (map (\<lambda>l. l @ [CHR 0x0A]) (split_on CHR 0x0A msg)) \<noteq> []" by auto
  moreover have "butlast (concat (map (\<lambda>l. l @ [CHR 0x0A]) (split_on CHR 0x0A msg))) = msg"
    by (simp only: butlast_lines [OF split_on_not_Nil] join_split_on)
  ultimately show ?thesis using split2_id [of "itoa n"]
    by (simp add: event_lines_def es_events_data [simplified] es_value_def)
qed

lemma es_lines_event:
  assumes "CHR 0x0D \<notin> set msg"
  shows "es_lines [] (sse_format pos msg @ t)
    = event_lines (i64 (pos + int (length msg))) msg @ [] # es_lines [] t"
proof -
  have "\<forall>l \<in> set (event_lines (i64 (pos + int (length msg))) msg @ [[]]). no_break l"
    using event_lines_no_break [OF assms] by blast
  from es_lines_concat [OF this, of t] show ?thesis by (simp add: sse_format_lines)
qed

lemma es_lines_ack: "es_lines [] (keepalive @ t) = '':keepalive'' # es_lines [] t"
  using es_lines_line [of "'':keepalive''" "[]" t] by (simp add: keepalive_def no_break_def)

lemma decode_stream:
  assumes "CHR 0x0D \<notin> set (pieces_data xs)" and "0 \<le> pos"
    and "pos + int (length (pieces_data xs)) < 2 ^ 63"
  shows "es_events (es_lines [] (sse_stream pos xs)) [] i = sse_events pos xs"
  using assms
proof (induction pos xs arbitrary: i rule: sse_stream.induct)
  case (2 pos m xs)
  then have "i64 (pos + int (length m)) = pos + int (length m)" by (intro i64_nonneg) simp_all
  moreover have "es_events (es_lines [] (sse_stream (pos + int (length m)) xs)) [] j
      = sse_events (pos + int (length m)) xs" for j
    using 2 by simp
  ultimately show ?case using 2(2) by (simp add: es_lines_event es_events_event)
next
  case (3 pos xs)
  then show ?case by (simp add: es_lines_ack)
qed simp

lemma sse_events_data: "concat (map snd (sse_events pos xs)) = pieces_data xs"
  by (induction pos xs rule: sse_events.induct) simp_all

lemma sse_events_ids:
  "sse_events pos xs \<noteq> [] \<Longrightarrow>
   fst (last (sse_events pos xs)) = itoa (pos + int (length (pieces_data xs)))"
proof (induction pos xs rule: sse_events.induct)
  case (2 pos m xs)
  show ?case
  proof (cases "sse_events (pos + int (length m)) xs = []")
    case True
    then have "pieces_data xs = []" using sse_events_data [of "pos + int (length m)" xs] by simp
    with True show ?thesis by simp
  next
    case False
    with 2 show ?thesis by (simp add: algebra_simps)
  qed
qed simp_all

section \<open>The encoder as a reader\<close>

context io_reader
begin

lemma encoder_reader: "io_reader (encoder_io ops) (\<lambda>e. I (enc_reader e))"
proof
  fix e e' :: "'r encoder" and p p' :: bytes and n err
  assume ok: "I (enc_reader e)" "p \<noteq> []" "int (length p) < 2 ^ 62"
  show "n \<le> length p \<and> length p' = length p \<and> I (enc_reader e')"
    if io: "io_read (encoder_io ops) e p = (e', Return (p', n, err))"
  proof -
    obtain r1 res where rr: "io_read ops (enc_reader e) p = (r1, res)" by (rule prod.exhaust)
    with io obtain p1 k er where res: "res = Return (p1, k, er)"
      by (cases res) (auto simp: encoder_io_def enc_read_def)
    note fits = read_fits [OF ok rr [unfolded res]]
    from io rr res fits show ?thesis
      by (auto simp: encoder_io_def enc_read_def Let_def go_copy_def split: if_splits)
  qed
  show "I (enc_reader e')" if io: "io_read (encoder_io ops) e p = (e', Blocked)"
  proof -
    obtain r1 res where rr: "io_read ops (enc_reader e) p = (r1, res)" by (rule prod.exhaust)
    with io have "res = Blocked \<and> enc_reader e' = r1"
      by (cases res) (auto simp: encoder_io_def enc_read_def Let_def split: if_splits prod.splits)
    with read_blocked [OF ok] rr show ?thesis by blast
  qed
qed (simp add: encoder_io_def)

lemma nop_reader: "io_reader (nop_closer ops) I"
  by (unfold_locales; unfold nop_closer_def io.simps)
    (erule (3) read_fits, erule (3) read_blocked, assumption)

end

section \<open>The encoder on the broker's reader\<close>

text \<open>The encoder's position is the reader's: kept by \<open>Seek\<close> and by \<open>Read\<close>.\<close>

definition enc_synced :: "('w \<times> reader) encoder \<Rightarrow> bool" where
  "enc_synced e \<longleftrightarrow> enc_offset e = rd_offset (snd (enc_reader e))"

lemma enc_seek_synced:
  assumes "0 \<le> offset" and "enc_seek (broker_io R) e offset 0 = (e', n, err)"
  shows "enc_synced e' \<and> n = offset \<and> err = None \<and> rd_offset (snd (enc_reader e')) = offset"
  using assms by (auto simp: enc_seek_def broker_io_def reader_seek_def enc_synced_def Let_def
      split: prod.splits)

context redis_server
begin

lemma enc_read_next:
  assumes sync: "enc_synced e" and r: "enc_reader e = (w, r)" and rd: "readable r (length p)"
    and enc: "enc_read (broker_io R) e p = (e', Return (p', n, err))"
  shows "enc_synced e'" and "length p' = length p"
    and "n > 0 \<Longrightarrow> \<exists>m. m \<noteq> [] \<and> m = take (length p) (unread (db_of w) r)
      \<and> take n p' = take (length p) (sse_format (rd_offset r) m)
      \<and> enc_offset e' = rd_offset r + int (length m)"
proof -
  have off: "enc_offset e = rd_offset r" using sync r by (simp add: enc_synced_def)
  obtain w1 r1 res where rr: "reader_read R w r p = (w1, r1, res)" by (rule prod_cases3)
  with enc r obtain p1 k er where res: "res = Return (p1, k, er)"
    by (cases res) (auto simp: enc_read_def)
  note nx = read_next [OF rr [unfolded res] rd]
  show "enc_synced e'" "length p' = length p"
    "n > 0 \<Longrightarrow> \<exists>m. m \<noteq> [] \<and> m = take (length p) (unread (db_of w) r)
      \<and> take n p' = take (length p) (sse_format (rd_offset r) m)
      \<and> enc_offset e' = rd_offset r + int (length m)"
  proof (atomize (full), cases "k = 0")
    case True
    with enc r rr res nx off
    show "enc_synced e' \<and> length p' = length p \<and> (0 < n \<longrightarrow> (\<exists>m. m \<noteq> []
      \<and> m = take (length p) (unread (db_of w) r)
      \<and> take n p' = take (length p) (sse_format (rd_offset r) m)
      \<and> enc_offset e' = rd_offset r + int (length m)))"
      by (auto simp: enc_read_def enc_synced_def)
  next
    case False
    let ?m = "take k p1" and ?f = "sse_format (rd_offset r) (take k p1)"
    have "length ?m = k" using nx(2,3) by simp
    then have m: "?m = take (length p) (unread (db_of w) r)" "length ?m = k"
      using nx(1) False by blast+
    have io: "io_read (broker_io R) (enc_reader e) p = ((w1, r1), Return (p1, k, er))"
      using r rr res by simp
    have wrap: "i64 (rd_offset r + int k) = rd_offset r + int k"
      using readable_i64(3) [OF rd nx(2)] .
    obtain p2 j where cp: "go_copy p1 ?f = (p2, j)" by (rule prod.exhaust)
    then have p2: "take j p2 = take (length p) ?f" "length p2 = length p"
      using take_fst_go_copy_min [of p1 ?f] snd_go_copy [of p1 ?f] fst_go_copy_length [of p1 ?f] nx(3)
      by simp_all
    from enc have eqs: "n = j" "p' = p2"
      "e' = e\<lparr>enc_reader := (w1, r1), enc_offset := rd_offset r + int k\<rparr>"
      using io False nx(2,3) off cp wrap by (simp_all add: enc_read_def Let_def)
    have "?m \<noteq> []" using m(2) False by auto
    with eqs p2 m nx(4) show "enc_synced e' \<and> length p' = length p \<and> (0 < n \<longrightarrow> (\<exists>m. m \<noteq> []
      \<and> m = take (length p) (unread (db_of w) r)
      \<and> take n p' = take (length p) (sse_format (rd_offset r) m)
      \<and> enc_offset e' = rd_offset r + int (length m)))"
      by (simp add: enc_synced_def)
  qed
qed

end

section \<open>Properties\<close>


definition demo_pieces :: "piece list" where
  "demo_pieces = [Chunk (''he'' @ [CHR 0x0A] @ ''llo''), Ack, Chunk [CHR 0x0A], Chunk ''x'']"


text \<open>
  An event that does not fit the buffer is lost whole: the encoder returns the beginning
  of it, drops the rest and counts all its bytes as sent, and a decoder gets no event from
  what it returned. Any read that fills the buffer is such a case.
\<close>

theorem sse_cut_event_is_lost:
  assumes "io_read ops (enc_reader e) p = (r', Return (p1, n, err))" and "0 < n" and "n \<le> length p1"
    and "length p1 < length (sse_format (enc_offset e) (take n p1))" and "CHR 0x0D \<notin> set (take n p1)"
  shows "\<exists>p2. enc_read ops e p = (e\<lparr>enc_reader := r', enc_offset := i64 (enc_offset e + int n)\<rparr>,
      Return (p2, length p1, err)) \<and> es_decode p2 = []"
proof -
  let ?f = "sse_format (enc_offset e) (take n p1)"
  have c: "go_copy p1 ?f = (take (length p1) ?f, length p1)"
    using assms(4) by (simp add: go_copy_def Let_def)
  have nb: "\<forall>l \<in> set (event_lines (i64 (enc_offset e + int (length (take n p1)))) (take n p1) @ [[]]). no_break l"
    using event_lines_no_break [OF assms(5)] by blast
  obtain j where j: "j < Suc (length (event_lines (i64 (enc_offset e + int (length (take n p1)))) (take n p1)))"
    "es_lines [] (take (length p1) ?f)
      = take j (event_lines (i64 (enc_offset e + int (length (take n p1)))) (take n p1) @ [[]])"
    using es_lines_cut [OF nb, of "length p1"] assms(4) unfolding sse_format_lines by auto
  have "[] \<notin> set (event_lines k m)" for k m by (auto simp: event_lines_def)
  then have "[] \<notin> set (es_lines [] (take (length p1) ?f))"
    using j by (auto dest: in_set_takeD)
  then have "es_decode (take (length p1) ?f) = []" by (simp add: es_decode_def es_events_no_blank)
  with assms c show ?thesis by (simp add: enc_read_def Let_def)
qed

theorem sse_cut_event_is_lost_witness:
  "\<exists>p2. enc_read string_io (newEncoder (''hello world'', 0)) ''....''
      = ((newEncoder (''hello world'', 0))\<lparr>enc_reader := (''hello world'', 4), enc_offset := i64 (0 + int 4)\<rparr>,
         Return (p2, length ''....'', None)) \<and> es_decode p2 = []"
proof -
  have "io_read string_io (enc_reader (newEncoder (''hello world'', 0))) ''....''
      = ((''hello world'', 4), Return (''hell'', 4, None))" by code_simp
  from sse_cut_event_is_lost [OF this] show ?thesis
    by (simp add: newEncoder_def sse_format_def sse_id_def)
qed

text \<open>
  Every event the server emits from a broker channel carries the next bytes of the channel
  and nothing else, and its id is the reader's position after them: as long as the event fits
  the buffer no byte is repeated or skipped between two events, or between the last event of a
  connection and the first after a reconnection with its id.
\<close>

theorem sse_event_is_next_bytes:
  assumes "redis_server R db_of inbox pats"
    and "enc_synced e" and "enc_reader e = (w, r)" and "readable r (length p)"
    and "enc_read (broker_io R) e p = (e', Return (p', n, err))" and "0 < n"
  shows "enc_synced e' \<and> (\<exists>m. m \<noteq> [] \<and> m = take (length p) (unread (db_of w) r)
    \<and> take n p' = take (length p) (sse_format (rd_offset r) m)
    \<and> enc_offset e' = rd_offset r + int (length m))"
  using redis_server.enc_read_next [OF assms(1-5)] assms(6) by blast

text \<open>A channel with a reader that has been moved, and what the reads of its encoder return.\<close>

definition sse_start :: "int \<Rightarrow> bytes \<Rightarrow> (refworld \<times> reader) encoder \<times> int \<times> go_error option" where
  "sse_start offset content =
     (let w = fst (op_calls ref_redis ref_empty [Op_register ''k'', Op_write ''k'' content])
      in case newReader ref_redis w ''k'' of
           (w', Inr r) \<Rightarrow> enc_seek (broker_io ref_redis) (newEncoder (w', r)) offset 0
         | (w', Inl e) \<Rightarrow> (newEncoder (w', new_reader ''k'' 0), 0, Some e))"

definition read_text :: "'r \<times> read_result \<Rightarrow> bytes" where
  "read_text x = (case snd x of Return (p, n, err) \<Rightarrow> take n p | _ \<Rightarrow> [])"

definition enc_write :: "bytes \<Rightarrow> (refworld \<times> reader) encoder \<Rightarrow> (refworld \<times> reader) encoder" where
  "enc_write p e = e\<lparr>enc_reader :=
     (fst (writer_write ref_redis (fst (enc_reader e)) ''k'' p), snd (enc_reader e))\<rparr>"

theorem sse_event_is_next_bytes_witness:
  "\<exists>e' p' n err. enc_read (broker_io ref_redis) (fst (sse_start 2 ''abcdef'')) (replicate 24 CHR ''.'')
      = (e', Return (p', n, err)) \<and> enc_synced e'
    \<and> take n p' = ''id: 6'' @ [CHR 0x0A] @ ''data: cdef'' @ [CHR 0x0A, CHR 0x0A]"
proof -
  let ?e = "fst (sse_start 2 ''abcdef'')" and ?p = "replicate 24 CHR ''.''"
  let ?x = "enc_read (broker_io ref_redis) ?e ?p"
  have x: "snd ?x = Return (''id: 6'' @ [CHR 0x0A] @ ''data: cdef'' @ [CHR 0x0A, CHR 0x0A] @ replicate 6 CHR ''.'',
      18, None)" by code_simp
  obtain w r where r: "enc_reader ?e = (w, r)" by (rule prod.exhaust)
  have "enc_synced ?e" "rd_offset (snd (enc_reader ?e)) = 2" by code_simp+
  with r have s: "enc_synced ?e" "readable r (length ?p)" by (simp_all add: readable_def)
  from x have "?x = (fst ?x, Return (''id: 6'' @ [CHR 0x0A] @ ''data: cdef'' @ [CHR 0x0A, CHR 0x0A]
      @ replicate 6 CHR ''.'', 18, None))" by (metis prod.collapse)
  from this sse_event_is_next_bytes [OF refred.redis_server_axioms s(1) r s(2) this]
  have "?x = (fst ?x, Return (''id: 6'' @ [CHR 0x0A] @ ''data: cdef'' @ [CHR 0x0A, CHR 0x0A]
      @ replicate 6 CHR ''.'', 18, None)) \<and> enc_synced (fst ?x)" by simp
  moreover have "take 18 (''id: 6'' @ [CHR 0x0A] @ ''data: cdef'' @ [CHR 0x0A, CHR 0x0A] @ replicate 6 CHR ''.'')
      = ''id: 6'' @ [CHR 0x0A] @ ''data: cdef'' @ [CHR 0x0A, CHR 0x0A]" by simp
  ultimately show ?thesis by blast
qed

text \<open>
  A negative \<open>Last-Event-Id\<close> is refused by \<open>Seek\<close> only after it has moved the broker's
  reader: the error is dropped by the handler, Redis reads the negative range from the end, and
  the client gets the last bytes of the channel under wrong ids and then, at the next write,
  the whole channel again.
\<close>

theorem negative_event_id_repeats_channel:
  "\<exists>e1 e2 e3. enc_read (broker_io ref_redis) (fst (sse_start (- 3) ''abcdef'')) (replicate 40 CHR ''.'') = e1
    \<and> enc_read (broker_io ref_redis) (enc_write ''g'' (fst e1)) (replicate 40 CHR ''.'') = e2
    \<and> enc_read (broker_io ref_redis) (fst e2) (replicate 40 CHR ''.'') = e3
    \<and> snd (snd (sse_start (- 3) ''abcdef'')) = Some ErrOffset
    \<and> read_text e1 = sse_format 0 ''def'' \<and> read_text e2 = [] \<and> read_text e3 = sse_format 3 ''abcdefg''"
  by (intro exI conjI, rule refl, rule refl, rule refl) code_simp+

end
