(* ===== verification/KeepAlive.thy ===== *)
theory KeepAlive
  imports Sse "HOL-Library.Sublist"
begin

text \<open>
  \<open>server/keepalivereader.go\<close>: a goroutine reads into payloads and sends them through a
  channel of 100; \<open>Read\<close> takes the next payload, or answers the heartbeat timer with a packet,
  or ends when the client has gone. Every read of the goroutine, every send and every \<open>Read\<close>
  is one step; which case a \<open>select\<close> takes is an argument.
\<close>

section \<open>The reader\<close>

record payload =
  pl_p :: bytes
  pl_n :: nat
  pl_err :: "go_error option"

text \<open>
  \<open>ka_hand\<close> is the payload the goroutine has read and not yet sent, \<open>ka_running\<close> whether it is
  still in its loop.
\<close>

record 'r keepAlive =
  ka_r :: 'r
  ka_packet :: bytes
  ka_ch :: "payload list"
  ka_eof :: bool
  ka_hand :: "payload option"
  ka_running :: bool

definition ka_capacity :: nat where "ka_capacity = 100"

definition ka_buffer :: nat where "ka_buffer = 1024 * 32"

definition newKeepAliveReader :: "'r \<Rightarrow> bytes \<Rightarrow> 'r keepAlive" where
  "newKeepAliveReader r packet = \<lparr>ka_r = r, ka_packet = packet, ka_ch = [], ka_eof = False,
     ka_hand = None, ka_running = True\<rparr>"

text \<open>The goroutine: one read into a fresh buffer, and the send of what it holds.\<close>

definition ka_produce :: "'r io \<Rightarrow> 'r keepAlive \<Rightarrow> 'r keepAlive \<times> unit go" where
  "ka_produce ops k =
     (if \<not> ka_running k \<or> ka_hand k \<noteq> None then (k, Blocked)
      else case io_read ops (ka_r k) (replicate ka_buffer CHR 0x00) of
        (r', Return (p, n, err)) \<Rightarrow>
          (k\<lparr>ka_r := r', ka_hand := Some \<lparr>pl_p = p, pl_n = n, pl_err = err\<rparr>\<rparr>, Return ())
      | (r', Panic m) \<Rightarrow> (k\<lparr>ka_r := r'\<rparr>, Panic m)
      | (r', Blocked) \<Rightarrow> (k\<lparr>ka_r := r'\<rparr>, Blocked))"

definition ka_send :: "'r keepAlive \<Rightarrow> 'r keepAlive \<times> unit go" where
  "ka_send k =
     (case ka_hand k of
        Some pl \<Rightarrow>
          (if length (ka_ch k) < ka_capacity
           then (k\<lparr>ka_ch := ka_ch k @ [pl], ka_hand := None, ka_running := (pl_err pl = None)\<rparr>, Return ())
           else (k, Blocked))
      | None \<Rightarrow> (k, Blocked))"

text \<open>The three cases of the \<open>select\<close>.\<close>

datatype ka_case = Case_payload | Case_timer | Case_done

definition ka_read ::
  "'r io \<Rightarrow> 'r keepAlive \<Rightarrow> ka_case \<Rightarrow> bytes \<Rightarrow> 'r keepAlive \<times> read_result" where
  "ka_read ops k c p =
     (if ka_eof k then (k, Return (p, 0, Some EOF))
      else case c of
        Case_payload \<Rightarrow>
          (case ka_ch k of [] \<Rightarrow> (k, Blocked)
           | pl # rest \<Rightarrow>
               (let k1 = k\<lparr>ka_ch := rest\<rparr>
                in if pl_n pl > length (pl_p pl) then (k1, Panic ''slice bounds out of range'')
                   else (k1\<lparr>ka_eof := (pl_err pl = Some EOF)\<rparr>,
                     Return (if pl_n pl > 0 then fst (go_copy p (take (pl_n pl) (pl_p pl))) else p,
                       pl_n pl, pl_err pl))))
      | Case_timer \<Rightarrow>
          (let (p', n) = go_copy p (ka_packet k)
           in (k\<lparr>ka_r := io_renew ops (ka_r k)\<rparr>, Return (p', n, None)))
      | Case_done \<Rightarrow> (k\<lparr>ka_eof := True\<rparr>, Return (p, 0, Some EOF)))"

definition ka_close :: "'r io \<Rightarrow> 'r keepAlive \<Rightarrow> 'r keepAlive \<times> go_error option" where
  "ka_close ops k =
     (case io_close ops (ka_r k) of
        Some (r', err) \<Rightarrow> (k\<lparr>ka_r := r'\<rparr>, err)
      | None \<Rightarrow> (k, None))"

section \<open>Runs\<close>

text \<open>
  The goroutine and its client together, with two histories: \<open>kr_src\<close>, the bytes the goroutine
  has read, and \<open>kr_out\<close>, what the calls of \<open>Read\<close> have returned, as pieces.
\<close>

record 'r ka_run =
  kr_k :: "'r keepAlive"
  kr_src :: bytes
  kr_out :: "piece list"
  kr_err :: "go_error option"   \<comment> \<open>what the last call of \<open>Read\<close> has returned\<close>
  kr_gone :: bool               \<comment> \<open>the client has left\<close>

inductive ka_step :: "'r io \<Rightarrow> 'r ka_run \<Rightarrow> 'r ka_run \<Rightarrow> bool" for ops where
  step_produce: "ka_produce ops (kr_k s) = (k', Return ()) \<Longrightarrow> ka_hand k' = Some pl \<Longrightarrow>
    ka_step ops s (s\<lparr>kr_k := k', kr_src := kr_src s @ take (pl_n pl) (pl_p pl)\<rparr>)"
| step_wait: "ka_produce ops (kr_k s) = (k', Blocked) \<Longrightarrow> ka_step ops s (s\<lparr>kr_k := k'\<rparr>)"
| step_send: "ka_send (kr_k s) = (k', Return ()) \<Longrightarrow> ka_step ops s (s\<lparr>kr_k := k'\<rparr>)"
| step_payload: "ka_read ops (kr_k s) Case_payload p = (k', Return (p', n, err)) \<Longrightarrow>
    length p = ka_buffer \<Longrightarrow>
    ka_step ops s (s\<lparr>kr_k := k', kr_out := kr_out s @ [Chunk (take n p')], kr_err := err\<rparr>)"
| step_timer: "ka_read ops (kr_k s) Case_timer p = (k', Return (p', n, err)) \<Longrightarrow>
    \<not> ka_eof (kr_k s) \<Longrightarrow> length p = ka_buffer \<Longrightarrow>
    ka_step ops s (s\<lparr>kr_k := k', kr_out := kr_out s @ [Ack], kr_err := err\<rparr>)"
| step_gone: "ka_read ops (kr_k s) Case_done p = (k', Return (p', n, err)) \<Longrightarrow>
    ka_step ops s (s\<lparr>kr_k := k', kr_err := err, kr_gone := True\<rparr>)"

inductive ka_reach :: "'r io \<Rightarrow> 'r ka_run \<Rightarrow> 'r ka_run \<Rightarrow> bool" for ops s0 where
  ka_start: "ka_reach ops s0 s0"
| ka_more: "ka_reach ops s0 s \<Longrightarrow> ka_step ops s t \<Longrightarrow> ka_reach ops s0 t"

definition ka_init :: "'r \<Rightarrow> bytes \<Rightarrow> 'r ka_run" where
  "ka_init r packet = \<lparr>kr_k = newKeepAliveReader r packet, kr_src = [], kr_out = [], kr_err = None,
     kr_gone = False\<rparr>"

definition pl_bytes :: "payload \<Rightarrow> bytes" where
  "pl_bytes pl = take (pl_n pl) (pl_p pl)"

definition queued :: "'r keepAlive \<Rightarrow> payload list" where
  "queued k = ka_ch k @ (case ka_hand k of None \<Rightarrow> [] | Some pl \<Rightarrow> [pl])"

text \<open>
  Payloads come in order and only the last has an error: nothing is read after it.
\<close>

definition ka_ok :: "('r \<Rightarrow> bool) \<Rightarrow> 'r keepAlive \<Rightarrow> bool" where
  "ka_ok I k \<longleftrightarrow> I (ka_r k)
     \<and> (\<forall>pl \<in> set (queued k). pl_n pl \<le> ka_buffer \<and> length (pl_p pl) = ka_buffer)
     \<and> (\<forall>pl \<in> set (butlast (queued k)). pl_err pl = None)
     \<and> ((\<exists>pl \<in> set (ka_ch k). pl_err pl \<noteq> None) \<longrightarrow> \<not> ka_running k)
     \<and> (ka_hand k \<noteq> None \<longrightarrow> ka_running k)"

definition ka_over :: "'r keepAlive \<Rightarrow> bool" where
  "ka_over k \<longleftrightarrow> \<not> ka_running k \<and> queued k = []"

definition ka_inv :: "('r \<Rightarrow> bool) \<Rightarrow> 'r ka_run \<Rightarrow> bool" where
  "ka_inv I s \<longleftrightarrow> ka_ok I (kr_k s)
     \<and> pieces_data (kr_out s) @ concat (map pl_bytes (queued (kr_k s))) = kr_src s
     \<and> (ka_eof (kr_k s) \<or> kr_err s \<noteq> None \<longrightarrow> kr_gone s \<or> ka_over (kr_k s))"

lemma ka_buffer_pos: "replicate ka_buffer CHR 0x00 \<noteq> []" "int (length (replicate ka_buffer CHR 0x00)) < 2 ^ 62"
  by (simp_all add: ka_buffer_def)

lemma pieces_data_append [simp]: "pieces_data (xs @ ys) = pieces_data xs @ pieces_data ys"
  by (induction xs rule: pieces_data.induct) auto

lemma queued_simps [simp]:
  "ka_hand k = None \<Longrightarrow> queued k = ka_ch k"
  "ka_hand k = Some pl \<Longrightarrow> queued k = ka_ch k @ [pl]"
  by (simp_all add: queued_def)

lemma no_error_running: "ka_ok I k \<Longrightarrow> ka_running k \<Longrightarrow> pl \<in> set (ka_ch k) \<Longrightarrow> pl_err pl = None"
  by (auto simp: ka_ok_def)

text \<open>One lemma for each operation.\<close>

context io_reader
begin

lemma produce_ok:
  assumes "ka_ok I k" and "ka_produce ops k = (k', Return ())"
  shows "ka_running k \<and> ka_hand k = None"
    and "\<exists>pl. ka_hand k' = Some pl \<and> queued k' = queued k @ [pl] \<and> ka_ok I k'"
    and "ka_eof k' = ka_eof k \<and> ka_running k'"
proof -
  show run: "ka_running k \<and> ka_hand k = None"
    using assms(2) by (auto simp: ka_produce_def split: if_splits)
  then obtain r' p n err where rd: "io_read ops (ka_r k) (replicate ka_buffer CHR 0x00) = (r', Return (p, n, err))"
    and k': "k' = k\<lparr>ka_r := r', ka_hand := Some \<lparr>pl_p = p, pl_n = n, pl_err = err\<rparr>\<rparr>"
    using assms(2) by (auto simp: ka_produce_def split: prod.splits go.splits)
  have "I (ka_r k)" using assms(1) by (simp add: ka_ok_def)
  from read_fits [OF this ka_buffer_pos rd] have fits: "n \<le> ka_buffer" "length p = ka_buffer" "I r'" by simp_all
  have q: "queued k' = queued k @ [\<lparr>pl_p = p, pl_n = n, pl_err = err\<rparr>]" using run by (simp add: k')
  have "ka_ok I k'" unfolding ka_ok_def
  proof (intro conjI ballI impI)
    show "I (ka_r k')" using fits by (simp add: k')
    show "pl_n pl \<le> ka_buffer" "length (pl_p pl) = ka_buffer" if "pl \<in> set (queued k')" for pl
      using that assms(1) fits by (auto simp: q ka_ok_def)
    show "pl_err pl = None" if "pl \<in> set (butlast (queued k'))" for pl
      using that no_error_running [OF assms(1), of pl] run by (simp add: q)
    show "\<not> ka_running k'" if "\<exists>pl \<in> set (ka_ch k'). pl_err pl \<noteq> None"
      using that no_error_running [OF assms(1)] run by (auto simp: k')
    show "ka_running k'" using run by (simp add: k')
  qed
  with q show "\<exists>pl. ka_hand k' = Some pl \<and> queued k' = queued k @ [pl] \<and> ka_ok I k'" by (auto simp: k')
  show "ka_eof k' = ka_eof k \<and> ka_running k'" using run by (simp add: k')
qed

lemma wait_ok:
  assumes "ka_ok I k" and "ka_produce ops k = (k', Blocked)"
  shows "ka_ok I k' \<and> queued k' = queued k \<and> ka_eof k' = ka_eof k \<and> ka_running k' = ka_running k"
proof (cases "\<not> ka_running k \<or> ka_hand k \<noteq> None")
  case True
  with assms show ?thesis by (simp add: ka_produce_def)
next
  case False
  then obtain r' where rd: "io_read ops (ka_r k) (replicate ka_buffer CHR 0x00) = (r', Blocked)"
    and k': "k' = k\<lparr>ka_r := r'\<rparr>"
    using assms(2) by (auto simp: ka_produce_def split: prod.splits go.splits)
  have "I (ka_r k)" using assms(1) by (simp add: ka_ok_def)
  from read_blocked [OF this ka_buffer_pos rd] assms(1) show ?thesis
    by (simp add: k' ka_ok_def queued_def)
qed

lemma send_ok:
  assumes "ka_ok I k" and "ka_send k = (k', Return ())"
  shows "ka_ok I k' \<and> queued k' = queued k \<and> ka_eof k' = ka_eof k"
proof -
  obtain pl where h: "ka_hand k = Some pl"
    and k': "k' = k\<lparr>ka_ch := ka_ch k @ [pl], ka_hand := None, ka_running := (pl_err pl = None)\<rparr>"
    using assms(2) by (auto simp: ka_send_def split: option.splits if_splits)
  have "ka_running k" using assms(1) h by (simp add: ka_ok_def)
  with no_error_running [OF assms(1)] have "pl_err x = None" if "x \<in> set (ka_ch k)" for x using that by blast
  with assms(1) h show ?thesis by (auto simp: k' ka_ok_def)
qed

lemma payload_ok:
  assumes ok: "ka_ok I k" and rd: "ka_read ops k Case_payload p = (k', Return (p', n, err))"
    and len: "length p = ka_buffer" and ne: "\<not> ka_eof k"
  shows "ka_ok I k'" and "take n p' @ concat (map pl_bytes (queued k')) = concat (map pl_bytes (queued k))"
    and "ka_eof k' \<or> err \<noteq> None \<longrightarrow> ka_over k'"
proof -
  obtain pl rest where ch: "ka_ch k = pl # rest" using rd ne by (auto simp: ka_read_def split: list.splits)
  with ok have fits: "pl_n pl \<le> ka_buffer" "length (pl_p pl) = ka_buffer" by (auto simp: ka_ok_def queued_def)
  with rd ne ch have k': "k' = k\<lparr>ka_ch := rest, ka_eof := (pl_err pl = Some EOF)\<rparr>"
    and res: "p' = (if pl_n pl > 0 then fst (go_copy p (take (pl_n pl) (pl_p pl))) else p)"
      "n = pl_n pl" "err = pl_err pl"
    by (auto simp: ka_read_def Let_def)
  have q: "queued k = pl # queued k'" using ch by (simp add: queued_def k')
  show "ka_ok I k'" using ok ch q
    by (auto simp: ka_ok_def k' queued_def split: if_splits)
  have "take n p' = pl_bytes pl"
    using fits len take_fst_go_copy [of "take (pl_n pl) (pl_p pl)" p] by (simp add: res pl_bytes_def)
  then show "take n p' @ concat (map pl_bytes (queued k')) = concat (map pl_bytes (queued k))" by (simp add: q)
  show "ka_eof k' \<or> err \<noteq> None \<longrightarrow> ka_over k'"
  proof
    assume "ka_eof k' \<or> err \<noteq> None"
    then have e: "pl_err pl \<noteq> None" by (auto simp: k' res)
    with ok ch have stop: "\<not> ka_running k" "ka_hand k = None" by (auto simp: ka_ok_def)
    have "queued k' = []"
    proof (rule ccontr)
      assume "queued k' \<noteq> []"
      then have "pl \<in> set (butlast (queued k))" by (simp add: q)
      with ok e show False by (simp add: ka_ok_def)
    qed
    with stop show "ka_over k'" by (simp add: ka_over_def k')
  qed
qed

lemma ka_step_inv:
  assumes "ka_step ops s t" and inv: "ka_inv I s"
  shows "ka_inv I t"
  using assms(1)
proof cases
  case (step_produce k' pl)
  have ok: "ka_ok I (kr_k s)" using inv by (simp add: ka_inv_def)
  note pr = produce_ok [OF ok step_produce(2)]
  then have q: "queued k' = queued (kr_k s) @ [pl]" "ka_ok I k'" using step_produce(3) by auto
  have "\<not> ka_over (kr_k s)" using pr(1) by (simp add: ka_over_def)
  with inv q pr(3) show ?thesis by (auto simp: step_produce(1) ka_inv_def pl_bytes_def)
next
  case (step_wait k')
  have ok: "ka_ok I (kr_k s)" using inv by (simp add: ka_inv_def)
  from wait_ok [OF ok step_wait(2)] inv show ?thesis by (auto simp: step_wait(1) ka_inv_def ka_over_def)
next
  case (step_send k')
  have ok: "ka_ok I (kr_k s)" using inv by (simp add: ka_inv_def)
  have "\<not> ka_over (kr_k s)" using step_send(2)
    by (auto simp: ka_send_def ka_over_def queued_def split: option.splits)
  with send_ok [OF ok step_send(2)] inv show ?thesis by (auto simp: step_send(1) ka_inv_def)
next
  case (step_payload p k' p' n err)
  have ok: "ka_ok I (kr_k s)" using inv by (simp add: ka_inv_def)
  show ?thesis
  proof (cases "ka_eof (kr_k s)")
    case True
    with step_payload(2) inv show ?thesis by (auto simp: step_payload(1) ka_inv_def ka_read_def)
  next
    case False
    note pl = payload_ok [OF ok step_payload(2,3) False]
    from pl inv show ?thesis by (auto simp: step_payload(1) ka_inv_def)
  qed
next
  case (step_timer p k' p' n err)
  then have "err = None" "k' = (kr_k s)\<lparr>ka_r := io_renew ops (ka_r (kr_k s))\<rparr>"
    by (auto simp: ka_read_def split: prod.splits)
  with inv renew_keeps step_timer(3) show ?thesis
    by (auto simp: step_timer(1) ka_inv_def ka_ok_def queued_def)
next
  case (step_gone p k' p' n err)
  then consider "k' = kr_k s" | "k' = (kr_k s)\<lparr>ka_eof := True\<rparr>" by (auto simp: ka_read_def split: if_splits)
  then show ?thesis
  proof cases
    case 1
    with inv show ?thesis by (simp add: step_gone(1) ka_inv_def)
  next
    case 2
    with inv show ?thesis by (simp add: step_gone(1) ka_inv_def ka_ok_def queued_def)
  qed
qed

lemma ka_reach_inv: "ka_reach ops s0 s \<Longrightarrow> ka_inv I s0 \<Longrightarrow> ka_inv I s"
  by (induction rule: ka_reach.induct) (auto intro: ka_step_inv)

lemma ka_init_inv: "I r \<Longrightarrow> ka_inv I (ka_init r packet)"
  by (simp add: ka_inv_def ka_init_def newKeepAliveReader_def ka_ok_def queued_def)

end

lemma keepalive_run:
  assumes "io_reader ops I" and "I r" and "ka_reach ops (ka_init r packet) s"
  shows "prefix (pieces_data (kr_out s)) (kr_src s)
    \<and> (kr_err s \<noteq> None \<and> \<not> kr_gone s \<longrightarrow> pieces_data (kr_out s) = kr_src s)"
proof -
  have "ka_inv I s"
    by (rule io_reader.ka_reach_inv [OF assms(1,3) io_reader.ka_init_inv [OF assms(1,2)]])
  then show ?thesis unfolding ka_inv_def ka_over_def prefix_def by (metis append_Nil2 concat.simps(1) list.map(1))
qed

section \<open>A run\<close>

lemma string_reader: "io_reader string_io (\<lambda>_. True)"
  by unfold_locales (auto simp: string_io_def go_copy_def Let_def split: if_splits)

text \<open>A text that fits one buffer is read, sent and returned, then its end is.\<close>

lemma string_run:
  assumes "s \<noteq> []" and "length s \<le> ka_buffer"
  shows "\<exists>t. ka_reach string_io (ka_init (s, 0) packet) t \<and> kr_err t = Some EOF \<and> \<not> kr_gone t
    \<and> kr_src t = s"
proof -
  let ?z = "replicate ka_buffer CHR 0x00" and ?k = "newKeepAliveReader (s, 0 :: nat) packet"
  have z: "?z \<noteq> []" by (rule ka_buffer_pos)
  obtain p where p: "go_copy ?z s = (p, length s)" and p': "take (length s) p = s" "length p = ka_buffer"
    using take_fst_go_copy [of s ?z] snd_go_copy [of ?z s] fst_go_copy_length [of ?z s] assms(2)
    by (cases "go_copy ?z s") auto
  define pl1 where "pl1 = \<lparr>pl_p = p, pl_n = length s, pl_err = None\<rparr>"
  define pl2 where "pl2 = \<lparr>pl_p = ?z, pl_n = 0, pl_err = Some EOF\<rparr>"
  define k1 where "k1 = ?k\<lparr>ka_r := (s, length s), ka_hand := Some pl1\<rparr>"
  define k2 where "k2 = k1\<lparr>ka_ch := [pl1], ka_hand := None\<rparr>"
  define k3 where "k3 = k2\<lparr>ka_hand := Some pl2\<rparr>"
  define k4 where "k4 = k3\<lparr>ka_ch := [pl1, pl2], ka_hand := None, ka_running := False\<rparr>"
  define k5 where "k5 = k4\<lparr>ka_ch := [pl2]\<rparr>"
  define k6 where "k6 = k5\<lparr>ka_ch := [], ka_eof := True\<rparr>"
  note ks = k1_def k2_def k3_def k4_def k5_def k6_def pl1_def pl2_def newKeepAliveReader_def
  have a1: "ka_produce string_io ?k = (k1, Return ())"
    using z assms p by (simp add: ka_produce_def string_io_def ks)
  have a2: "ka_send k1 = (k2, Return ())" by (simp add: ka_send_def ks ka_capacity_def)
  have a3: "ka_produce string_io k2 = (k3, Return ())" using z by (simp add: ka_produce_def string_io_def ks)
  have a4: "ka_send k3 = (k4, Return ())" by (simp add: ka_send_def ks ka_capacity_def)
  obtain p1 where a5: "ka_read string_io k4 Case_payload ?z = (k5, Return (p1, length s, None))"
    using p' assms by (simp add: ka_read_def ks Let_def)
  have a6: "ka_read string_io k5 Case_payload ?z = (k6, Return (?z, 0, Some EOF))"
    by (simp add: ka_read_def ks Let_def)
  let ?t = "\<lambda>k src out err. \<lparr>kr_k = k, kr_src = src, kr_out = out, kr_err = err, kr_gone = False\<rparr>"
  have "ka_hand k1 = Some pl1" "ka_hand k3 = Some pl2" "take (pl_n pl1) (pl_p pl1) = s"
    "take (pl_n pl2) (pl_p pl2) = []"
    using p' by (simp_all add: ks)
  note h = this
  have s1: "ka_step string_io (?t ?k [] [] None) (?t k1 s [] None)"
    using step_produce [of string_io "?t ?k [] [] None" k1 pl1] a1 h by simp
  have s2: "ka_step string_io (?t k1 s [] None) (?t k2 s [] None)"
    using step_send [of "?t k1 s [] None" k2 string_io] a2 by simp
  have s3: "ka_step string_io (?t k2 s [] None) (?t k3 s [] None)"
    using step_produce [of string_io "?t k2 s [] None" k3 pl2] a3 h by simp
  have s4: "ka_step string_io (?t k3 s [] None) (?t k4 s [] None)"
    using step_send [of "?t k3 s [] None" k4 string_io] a4 by simp
  have s5: "ka_step string_io (?t k4 s [] None) (?t k5 s [Chunk (take (length s) p1)] None)"
    using step_payload [of string_io "?t k4 s [] None" ?z k5 p1 "length s" None] a5 by simp
  have s6: "ka_step string_io (?t k5 s [Chunk (take (length s) p1)] None)
      (?t k6 s [Chunk (take (length s) p1), Chunk []] (Some EOF))"
    using step_payload [of string_io "?t k5 s [Chunk (take (length s) p1)] None" ?z k6 ?z 0 "Some EOF"] a6
    by simp
  have "ka_reach string_io (ka_init (s, 0) packet)
      (?t k6 s [Chunk (take (length s) p1), Chunk []] (Some EOF))"
    unfolding ka_init_def
    by (rule ka_more [OF ka_more [OF ka_more [OF ka_more [OF ka_more [OF ka_more
      [OF ka_start s1] s2] s3] s4] s5] s6])
  then show ?thesis by fastforce
qed

section \<open>Properties\<close>

text \<open>
  C15. Through the goroutine, the channel of payloads and the heartbeats, a client gets exactly
  the bytes that were read from the wrapped reader, in order: what it has got is a prefix of
  what the goroutine has read, and once \<open>Read\<close> has returned an error without the client having
  left it is all of it. This holds for every reader that keeps the contract of \<open>io.Reader\<close>.
\<close>

theorem keepalive_exact:
  assumes "io_reader ops I" and "I r" and "ka_reach ops (ka_init r packet) s"
  shows "prefix (pieces_data (kr_out s)) (kr_src s)
    \<and> (kr_err s \<noteq> None \<and> \<not> kr_gone s \<longrightarrow> pieces_data (kr_out s) = kr_src s)"
  by (rule keepalive_run [OF assms])

theorem keepalive_exact_witness:
  "\<exists>t. ka_reach string_io (ka_init (''hello'', 0) ''ack'') t \<and> kr_err t = Some EOF
    \<and> pieces_data (kr_out t) = ''hello''"
proof -
  have "''hello'' \<noteq> []" "length ''hello'' \<le> ka_buffer" by (simp_all add: ka_buffer_def)
  from string_run [OF this, of "''ack''"] obtain t where
    t: "ka_reach string_io (ka_init (''hello'', 0) ''ack'') t" "kr_err t = Some EOF" "\<not> kr_gone t"
      "kr_src t = ''hello''" by blast
  from keepalive_exact [OF string_reader TrueI t(1)] t show ?thesis by auto
qed

text \<open>
  A heartbeat keeps a channel alive for a plain subscriber only: it renews the expiry of the
  key the broker's reader is on, but for an event stream, where the reader is hidden behind the
  encoder and \<open>NopCloser\<close>, it touches nothing in Redis, and neither does \<open>Close\<close>, so that the
  subscription of an event stream is never given back.
\<close>

theorem sse_heartbeat_renews_nothing:
  assumes "ka_r kp = (w, r)" and "\<not> ka_eof kp"
  shows "ka_r (fst (ka_read (broker_io R) kp Case_timer p)) = (renewExpiry R w (Some r), r)
    \<and> fst (ka_r (fst (ka_close (broker_io R) kp))) = fst (reader_close R w r)
    \<and> ka_r (fst (ka_read (nop_closer (encoder_io (broker_io R))) ke Case_timer p)) = ka_r ke
    \<and> ka_r (fst (ka_close (nop_closer (encoder_io (broker_io R))) ke)) = ka_r ke"
  using assms
  by (auto simp: ka_read_def ka_close_def nop_closer_def broker_io_def split: prod.splits)

theorem sse_heartbeat_renews_nothing_witness:
  "\<exists>kp ke. ka_r (fst (ka_read (broker_io ref_redis) kp Case_timer ''....'')) \<noteq> ka_r kp
    \<and> ka_r (fst (ka_read (nop_closer (encoder_io (broker_io ref_redis))) ke Case_timer ''....'')) = ka_r ke
    \<and> fst (enc_reader (ka_r ke)) = fst (ka_r kp)"
proof -
  let ?w = "ref_wait 100 (expiry_run ''k'' ''data'' 9 9)" and ?r = "new_reader ''k'' 1"
  let ?kp = "newKeepAliveReader (?w, ?r) ''ack''" and ?ke = "newKeepAliveReader (newEncoder (?w, ?r)) keepalive"
  have kp: "ka_r ?kp = (?w, ?r)" "\<not> ka_eof ?kp" by (simp_all add: newKeepAliveReader_def)
  note h = sse_heartbeat_renews_nothing [OF kp, of ref_redis "''....''" ?ke]
  have "map_option snd (rw_db (renewExpiry ref_redis ?w (Some ?r)) (chan_id ''k'')) = Some (Some 300)"
    "map_option snd (rw_db ?w (chan_id ''k'')) = Some (Some 191)" by code_simp+
  then have "renewExpiry ref_redis ?w (Some ?r) \<noteq> ?w" by auto
  with h kp(1) show ?thesis
    by (intro exI [of _ ?kp] exI [of _ ?ke]) (simp add: newKeepAliveReader_def newEncoder_def)
qed

end
