(* ===== verification/Util.thy ===== *)
theory Util
  imports GoLib
begin

text \<open>
  Package \<open>util\<close>: identifiers (\<open>util.go\<close>), the log prefix (\<open>logger.go\<close>), the lines the
  metrics write (\<open>util.go\<close>) and the response logger (\<open>response_logger.go\<close>). The random
  source and the process environment are arguments.
\<close>

section \<open>util.go\<close>

text \<open>
  \<open>rand.Read(uuid)\<close> returns how many bytes it filled and an error; \<open>rnd\<close> is the buffer
  after that call. Two bytes of it are then overwritten.
\<close>

definition newUUID :: "bytes \<Rightarrow> nat \<Rightarrow> go_error option \<Rightarrow> string \<times> go_error option" where
  "newUUID rnd n err =
     (if n \<noteq> 16 \<or> err \<noteq> None then ([], err)
      else (hex_encode ((rnd[8 := CHR 0x80])[4 := CHR 0x40]), None))"

definition getNullByte :: bytes where
  "getNullByte = [CHR 0x00]"

text \<open>\<open>StringSliceUtil.Contains\<close>: the loop over the slice, with its early return.\<close>

fun sliceContains :: "string list \<Rightarrow> string \<Rightarrow> bool" where
  "sliceContains [] check = False"
| "sliceContains (c # s) check = (if c = check then True else sliceContains s check)"

text \<open>
  The line a metric writes to the log; \<open>data\<close> is the extra data with its verbs already
  replaced (\<open>fmt.Sprintf(extraData, v...)\<close>), \<open>extra\<close> the format itself, whose emptiness the
  code tests.
\<close>

definition countWithData :: "string \<Rightarrow> int \<Rightarrow> string \<Rightarrow> string \<Rightarrow> string" where
  "countWithData metric n extra data =
     (if extra = [] then ''count#'' @ metric @ ''='' @ itoa n
      else ''count#'' @ metric @ ''='' @ itoa n @ '' '' @ data)"

definition countMany :: "string \<Rightarrow> int \<Rightarrow> string" where
  "countMany metric n = countWithData metric n [] []"

definition count_metric :: "string \<Rightarrow> string" where
  "count_metric metric = countMany metric 1"

section \<open>logger.go\<close>

definition env :: "(string \<Rightarrow> string) \<Rightarrow> string \<Rightarrow> string \<Rightarrow> string" where
  "env getenv key fallback = (let val = getenv key in if val = [] then fallback else val)"

text \<open>The loop of \<open>reverseDNS\<close>: swap the labels at \<open>i\<close> and \<open>j\<close> until the indices meet.\<close>

function swap_loop :: "'a list \<Rightarrow> int \<Rightarrow> int \<Rightarrow> 'a list" where
  "swap_loop s i j =
     (if i < j then swap_loop (s[nat i := s ! nat j, nat j := s ! nat i]) (i + 1) (j - 1) else s)"
  by pat_completeness auto
termination
  by (relation "measure (\<lambda>(s, i, j). nat (j - i))") auto

declare swap_loop.simps [simp del]

definition reverseDNS :: "string \<Rightarrow> string" where
  "reverseDNS domain =
     (let s = split_on CHR ''.'' domain in join ''.'' (swap_loop s 0 (int (length s) - 1)))"

definition log_source :: "(string \<Rightarrow> string) \<Rightarrow> string" where
  "log_source getenv = reverseDNS (''busl'' @ ''.'' @ env getenv ''DOMAIN'' ''development'')"

text \<open>The prefix of every log line, which the package's \<open>init\<close> sets.\<close>

definition logger_init :: "(string \<Rightarrow> string) \<Rightarrow> int \<Rightarrow> string" where
  "logger_init getenv pid = ''busl source='' @ log_source getenv @ '' pid='' @ itoa pid @ '' ''"

section \<open>response\_logger.go\<close>

record responseLogger =
  rl_written :: "int list"  \<comment> \<open>the calls of the wrapped \<open>ResponseWriter.WriteHeader\<close>\<close>
  rl_status :: int
  rl_requestID :: string

definition newResponseLogger :: "string \<Rightarrow> responseLogger" where
  "newResponseLogger requestID = \<lparr>rl_written = [], rl_status = 200, rl_requestID = requestID\<rparr>"

definition rl_writeHeader :: "responseLogger \<Rightarrow> int \<Rightarrow> responseLogger" where
  "rl_writeHeader l s = l\<lparr>rl_written := rl_written l @ [s], rl_status := s\<rparr>"

text \<open>Integer division in Go truncates towards zero.\<close>

definition go_div :: "int \<Rightarrow> int \<Rightarrow> int" where
  "go_div a b = sgn a * sgn b * (\<bar>a\<bar> div \<bar>b\<bar>)"

definition rl_writeLog :: "responseLogger \<Rightarrow> string" where
  "rl_writeLog l =
     (let maskedStatus = itoa (go_div (rl_status l) 100) @ ''xx''
      in ''count#http.status.'' @ maskedStatus @ ''=1 status='' @ itoa (rl_status l)
         @ '' request_id='' @ rl_requestID l)"

text \<open>
  \<open>Flush\<close> and \<open>CloseNotify\<close> pass the call on to the wrapped writer: \<open>flusher\<close> and \<open>notifier\<close> are its methods,
  where it has them.
\<close>

definition rl_Flush :: "('w \<Rightarrow> 'w) option \<Rightarrow> 'w \<Rightarrow> 'w go" where
  "rl_Flush flusher w =
     (case flusher of None \<Rightarrow> Panic ''interface conversion: missing method Flush'' | Some f \<Rightarrow> Return (f w))"

definition rl_CloseNotify :: "('w \<Rightarrow> 'c) option \<Rightarrow> 'w \<Rightarrow> 'c go" where
  "rl_CloseNotify notifier w =
     (case notifier of None \<Rightarrow> Panic ''interface conversion: missing method CloseNotify'' | Some f \<Rightarrow> Return (f w))"

section \<open>Lemmas\<close>

lemma sliceContains_set [simp]: "sliceContains s check \<longleftrightarrow> check \<in> set s"
  by (induction s) auto

lemma swap_loop_step:
  "i < j \<Longrightarrow> swap_loop s i j = swap_loop (s[nat i := s ! nat j, nat j := s ! nat i]) (i + 1) (j - 1)"
  by (subst swap_loop.simps) (rule if_P)

lemma swap_loop_stop: "\<not> i < j \<Longrightarrow> swap_loop s i j = s"
  by (subst swap_loop.simps) (rule if_not_P)

lemma length_swap_loop [simp]: "length (swap_loop s i j) = length s"
proof (induction s i j rule: swap_loop.induct)
  case (1 s i j)
  show ?case
  proof (cases "i < j")
    case True
    with "1.IH" show ?thesis by (simp only: swap_loop_step length_list_update)
  next
    case False
    show ?thesis unfolding swap_loop_stop [OF False] ..
  qed
qed

text \<open>
  One round of the loop exchanges the outermost labels that are not yet in place; the
  loop reverses the segment between its two indices.
\<close>

lemma swap_loop_nth:
  assumes "0 \<le> i" and "i + j = int (length s) - 1" and "k < length s"
  shows "swap_loop s i j ! k =
    (if i \<le> int k \<and> int k \<le> j then s ! (length s - Suc k) else s ! k)"
  using assms
proof (induction s i j rule: swap_loop.induct)
  case (1 s i j)
  show ?case
  proof (cases "i < j")
    case False
    have "length s - Suc k = k" if "i \<le> int k" "int k \<le> j"
      using "1.prems" False that by linarith
    then show ?thesis by (simp add: swap_loop_stop [OF False])
  next
    case True
    let ?t = "s[nat i := s ! nat j, nat j := s ! nat i]" and ?m = "length s - Suc k"
    have IH: "swap_loop ?t (i + 1) (j - 1) ! k =
        (if i + 1 \<le> int k \<and> int k \<le> j - 1 then ?t ! ?m else ?t ! k)"
      by (rule "1.IH" [OF True, simplified length_list_update])
        (use "1.prems" in linarith)+
    consider (left) "int k = i" | (right) "int k = j" | (mid) "int k \<noteq> i" "int k \<noteq> j"
      by blast
    then show ?thesis
    proof cases
      case left
      then have "nat i = k" "?m = nat j" "nat j < length s" using "1.prems" True by linarith+
      with "1.prems" True left IH show ?thesis by (simp add: swap_loop_step nth_list_update)
    next
      case right
      then have "nat j = k" "?m = nat i" "nat i < length s" using "1.prems" True by linarith+
      with "1.prems" True right IH show ?thesis by (simp add: swap_loop_step nth_list_update)
    next
      case mid
      then have "nat i \<noteq> k" "nat j \<noteq> k" "?m \<noteq> nat i" "?m \<noteq> nat j"
        using "1.prems" True by linarith+
      with "1.prems" True mid IH show ?thesis by (auto simp: swap_loop_step)
    qed
  qed
qed

lemma swap_loop_rev: "swap_loop s 0 (int (length s) - 1) = rev s"
  by (rule nth_equalityI) (simp_all add: swap_loop_nth rev_nth)

lemma reverseDNS_rev: "reverseDNS domain = join ''.'' (rev (split_on CHR ''.'' domain))"
  by (simp add: reverseDNS_def Let_def swap_loop_rev)

lemma split_on_reverseDNS:
  "split_on CHR ''.'' (reverseDNS domain) = rev (split_on CHR ''.'' domain)"
  unfolding reverseDNS_rev by (rule split_on_join) (auto dest: split_on_free)

section \<open>Properties\<close>

text \<open>
  Reversing a domain name twice gives it back: the in-place swap loop of
  \<open>reverseDNS\<close> loses and invents no label, whatever the number of labels.
\<close>

theorem reverseDNS_involution: "reverseDNS (reverseDNS domain) = domain"
  by (simp add: reverseDNS_rev [of "reverseDNS domain"] split_on_reverseDNS)

end
