(* ===== verification/Storage.thy ===== *)
theory Storage
  imports Util
begin

text \<open>
  Package \<open>storage\<close> (\<open>blob.go\<close>): the blob store a stream is kept in when Redis has forgotten
  it. The HTTP client and the parser of URLs are arguments; a response body is a handle that
  can be closed, and the body of a request is what is left in the buffer the caller passed.
\<close>

section \<open>HTTP and URLs\<close>

record 'u http_request =
  rq_method :: string
  rq_url :: 'u
  rq_body :: "bytes option"
  rq_te :: "string list"
  rq_headers :: "(string \<times> string) list"

record http_response =
  rs_status :: int
  rs_body :: nat

text \<open>
  \<open>client.Do\<close>: how many bytes of the request's body it has read, and the response or an error,
  which may come with a response too; without an error there always is one. \<open>h_close\<close> closes
  the body of a response.
\<close>

record ('h, 'u) http =
  h_do :: "'h \<Rightarrow> 'u http_request \<Rightarrow> 'h \<times> nat \<times> (go_error \<times> http_response option + http_response)"
  h_close :: "'h \<Rightarrow> nat \<Rightarrow> 'h"

record 'u url_lib =
  u_parse :: "string \<Rightarrow> go_error + 'u"
  u_parse_request :: "string \<Rightarrow> go_error + 'u"
  u_resolve :: "'u \<Rightarrow> 'u \<Rightarrow> 'u"
  u_string :: "'u \<Rightarrow> string"

text \<open>\<open>http.NewRequest\<close> parses the URL it is given.\<close>

definition http_newRequest ::
  "'u url_lib \<Rightarrow> string \<Rightarrow> string \<Rightarrow> bytes option \<Rightarrow> go_error + 'u http_request" where
  "http_newRequest L method s body =
     (case u_parse L s of Inl e \<Rightarrow> Inl e
      | Inr u \<Rightarrow> Inr \<lparr>rq_method = method, rq_url = u, rq_body = body, rq_te = [], rq_headers = []\<rparr>)"

section \<open>blob.go\<close>

definition retries :: nat where "retries = 3"

definition storage_normalize :: "string \<Rightarrow> string" where
  "storage_normalize requestURI = ''/'' @ requestURI"

definition storage_baseURI :: "'u url_lib \<Rightarrow> string \<Rightarrow> go_error + 'u" where
  "storage_baseURI L base = (if base = [] then Inl ErrNoStorage else u_parse L base)"

definition storage_absoluteURL :: "'u url_lib \<Rightarrow> string \<Rightarrow> string \<Rightarrow> go_error + 'u" where
  "storage_absoluteURL L base requestURI =
     (case u_parse_request L (storage_normalize requestURI) of Inl e \<Rightarrow> Inl e
      | Inr ref \<Rightarrow>
          (case storage_baseURI L base of Inl e \<Rightarrow> Inl e
           | Inr uri \<Rightarrow> Inr (u_resolve L uri ref)))"

definition storage_newRequest ::
  "'u url_lib \<Rightarrow> string \<Rightarrow> string \<Rightarrow> string \<Rightarrow> bytes option \<Rightarrow> go_error + 'u http_request" where
  "storage_newRequest L base method requestURI body =
     (case storage_absoluteURL L base requestURI of Inl e \<Rightarrow> Inl e
      | Inr u \<Rightarrow> http_newRequest L method (u_string L u) body)"

definition status_error :: "int \<Rightarrow> go_error option" where
  "status_error s =
     (if s = 416 then Some ErrRange
      else if s = 404 \<or> s = 403 then Some ErrNotFound
      else if s \<ge> 500 then Some Err5xx
      else if go_div s 100 \<noteq> 2 then Some (ErrStatus s)
      else None)"

definition storage_process ::
  "('h, 'u) http \<Rightarrow> 'h \<Rightarrow> 'u http_request \<Rightarrow> 'h \<times> nat \<times> http_response option \<times> go_error option" where
  "storage_process H h req =
     (case h_do H h req of
        (h', n, Inl (e, res)) \<Rightarrow> (h', n, res, Some e)
      | (h', n, Inr res) \<Rightarrow> (h', n, Some res, status_error (rs_status res)))"

text \<open>
  \<open>put\<close> and \<open>Put\<close>: the reader is a buffer shared by all attempts, so each attempt finds what
  the one before it has left there.
\<close>

definition storage_put1 ::
  "('h, 'u) http \<Rightarrow> 'u url_lib \<Rightarrow> string \<Rightarrow> 'h \<Rightarrow> string \<Rightarrow> bytes option \<Rightarrow>
    'h \<times> bytes option \<times> go_error option" where
  "storage_put1 H L base h requestURI body =
     (case storage_newRequest L base ''PUT'' requestURI body of
        Inl e \<Rightarrow> (h, body, Some e)
      | Inr req \<Rightarrow>
          (let (h1, n, res, err) = storage_process H h req;
               h2 = (case res of None \<Rightarrow> h1 | Some r \<Rightarrow> h_close H h1 (rs_body r))
           in (h2, map_option (drop n) body, err)))"

fun put_loop ::
  "('h, 'u) http \<Rightarrow> 'u url_lib \<Rightarrow> string \<Rightarrow> string \<Rightarrow> nat \<Rightarrow> 'h \<Rightarrow> bytes option \<Rightarrow> go_error option \<Rightarrow>
    'h \<times> bytes option \<times> go_error option" where
  "put_loop H L base requestURI 0 h body err = (h, body, err)"
| "put_loop H L base requestURI (Suc i) h body err0 =
     (let (h', body', err) = storage_put1 H L base h requestURI body
      in if err = None then (h', body', None)
         else if err \<noteq> Some Err5xx then (h', body', err)
         else put_loop H L base requestURI i h' body' err)"

definition storage_Put ::
  "('h, 'u) http \<Rightarrow> 'u url_lib \<Rightarrow> string \<Rightarrow> 'h \<Rightarrow> string \<Rightarrow> bytes option \<Rightarrow>
    'h \<times> bytes option \<times> go_error option" where
  "storage_Put H L base h requestURI body = put_loop H L base requestURI retries h body None"

text \<open>\<open>get\<close> and \<open>Get\<close> return the body of the response, \<open>None\<close> for a nil reader.\<close>

definition storage_get1 ::
  "('h, 'u) http \<Rightarrow> 'u url_lib \<Rightarrow> string \<Rightarrow> 'h \<Rightarrow> string \<Rightarrow> int \<Rightarrow>
    'h \<times> nat option \<times> go_error option" where
  "storage_get1 H L base h requestURI offset =
     (case storage_newRequest L base ''GET'' requestURI None of
        Inl e \<Rightarrow> (h, None, Some e)
      | Inr req \<Rightarrow>
          (let req' = req\<lparr>rq_te := [''chunked''],
                 rq_headers := rq_headers req @ [(''Transfer-Encoding'', ''chunked''),
                   (''Range'', ''bytes='' @ itoa offset @ ''-'')]\<rparr>;
               (h', n, res, err) = storage_process H h req'
           in (h', map_option rs_body res, err)))"

fun get_loop ::
  "('h, 'u) http \<Rightarrow> 'u url_lib \<Rightarrow> string \<Rightarrow> string \<Rightarrow> int \<Rightarrow> nat \<Rightarrow> 'h \<Rightarrow> nat option \<Rightarrow>
    go_error option \<Rightarrow> 'h \<times> nat option \<times> go_error option" where
  "get_loop H L base requestURI offset 0 h rd err = (h, rd, err)"
| "get_loop H L base requestURI offset (Suc i) h rd0 err0 =
     (let (h', rd, err) = storage_get1 H L base h requestURI offset
      in if err = None then (h', rd, None)
         else if err \<noteq> Some Err5xx then (h', rd, err)
         else let h'' = (case rd of None \<Rightarrow> h' | Some b \<Rightarrow> h_close H h' b)
              in get_loop H L base requestURI offset i h'' rd err)"

definition storage_Get ::
  "('h, 'u) http \<Rightarrow> 'u url_lib \<Rightarrow> string \<Rightarrow> 'h \<Rightarrow> string \<Rightarrow> int \<Rightarrow>
    'h \<times> nat option \<times> go_error option" where
  "storage_Get H L base h requestURI offset =
     get_loop H L base requestURI offset retries h None None"

section \<open>Traces of the client\<close>

text \<open>Any client, with a record of what was asked of it.\<close>

datatype 'u h_event =
    Sent "'u http_request" "go_error \<times> http_response option + http_response"
  | Closed nat

definition traced :: "('h, 'u) http \<Rightarrow> ('h \<times> 'u h_event list, 'u) http" where
  "traced H = \<lparr>
     h_do = (\<lambda>(h, es) rq. let (h', n, x) = h_do H h rq in ((h', es @ [Sent rq x]), n, x)),
     h_close = (\<lambda>(h, es) b. (h_close H h b, es @ [Closed b]))\<rparr>"

text \<open>
  What \<open>Get\<close> may have done: attempts that were answered with a 5xx status, each body closed
  before the next attempt, then at most one attempt with another outcome.
\<close>

definition failed_attempt :: "('u http_request \<times> http_response) \<Rightarrow> 'u h_event list" where
  "failed_attempt a = [Sent (fst a) (Inr (snd a)), Closed (rs_body (snd a))]"

definition is_5xx :: "http_response \<Rightarrow> bool" where
  "is_5xx r \<longleftrightarrow> status_error (rs_status r) = Some Err5xx"

lemma is_5xx_iff: "is_5xx r \<longleftrightarrow> 500 \<le> rs_status r"
  by (auto simp: is_5xx_def status_error_def split: if_splits)

text \<open>The client's own errors are not the package's \<open>Err5xx\<close>.\<close>

definition own_errors :: "('h, 'u) http \<Rightarrow> bool" where
  "own_errors H \<longleftrightarrow> (\<forall>h rq h' n e r. h_do H h rq = (h', n, Inl (e, r)) \<longrightarrow> e \<noteq> Err5xx)"

definition own_url_errors :: "'u url_lib \<Rightarrow> bool" where
  "own_url_errors L \<longleftrightarrow> (\<forall>s. u_parse L s \<noteq> Inl Err5xx \<and> u_parse_request L s \<noteq> Inl Err5xx)"

lemma newRequest_own:
  "own_url_errors L \<Longrightarrow> storage_newRequest L base m uri body \<noteq> Inl Err5xx"
  by (auto simp: storage_newRequest_def storage_absoluteURL_def storage_baseURI_def
      http_newRequest_def own_url_errors_def split: sum.splits if_splits)

lemma get1_traced:
  assumes "own_errors H" and "own_url_errors L"
    and "storage_get1 (traced H) L base (h, es) uri off = ((h', es'), rd, err)"
  shows "(err = Some Err5xx \<longrightarrow> (\<exists>rq r. es' = es @ [Sent rq (Inr r)] \<and> is_5xx r \<and> rd = Some (rs_body r)))
    \<and> (err \<noteq> Some Err5xx \<longrightarrow> (es' = es \<and> rd = None) \<or> (\<exists>rq x. es' = es @ [Sent rq x]))
    \<and> (err = None \<longrightarrow> (\<exists>rq r. es' = es @ [Sent rq (Inr r)] \<and> rd = Some (rs_body r)
        \<and> 200 \<le> rs_status r \<and> rs_status r < 300))"
proof (cases "storage_newRequest L base ''GET'' uri None")
  case (Inl e)
  with newRequest_own [OF assms(2), of base "''GET''" uri None] assms(3) show ?thesis
    by (auto simp: storage_get1_def)
next
  case (Inr rq)
  have ok: "200 \<le> s \<and> s < 300" if "status_error s = None" for s
    using that by (auto simp: status_error_def go_div_def sgn_if split: if_splits)
  have own: "h_do H h rq = (h', n, Inl (Err5xx, r)) \<Longrightarrow> False" for h rq h' n r
    using assms(1) unfolding own_errors_def by blast
  from Inr assms(3) ok own show ?thesis
    by (auto simp: storage_get1_def storage_process_def traced_def is_5xx_def Let_def
        split: prod.splits sum.splits)
qed

text \<open>
  \<open>get_shape i es rd err\<close>: \<open>i\<close> attempts at most, \<open>es\<close> the events of them, \<open>rd\<close> and \<open>err\<close> the
  result.
\<close>

definition get_tail :: "'u h_event list \<Rightarrow> nat option \<Rightarrow> go_error option \<Rightarrow> bool" where
  "get_tail tail rd err \<longleftrightarrow> (tail = [] \<or> (\<exists>rq x. tail = [Sent rq x]))
     \<and> (err = None \<longrightarrow> (\<exists>rq r. tail = [Sent rq (Inr r)] \<and> rd = Some (rs_body r)
         \<and> 200 \<le> rs_status r \<and> rs_status r < 300))"

definition get_shape :: "nat \<Rightarrow> 'u h_event list \<Rightarrow> nat option \<Rightarrow> go_error option \<Rightarrow> bool" where
  "get_shape i es rd err \<longleftrightarrow> (\<exists>as tail. es = concat (map failed_attempt as) @ tail
     \<and> (\<forall>a \<in> set as. is_5xx (snd a)) \<and> length as + length tail \<le> i \<and> get_tail tail rd err
     \<and> (err = Some Err5xx \<longrightarrow> length as = i))"

lemma get_shape_retry:
  assumes "get_shape i es rd err" and "is_5xx r"
  shows "get_shape (Suc i) (failed_attempt (rq, r) @ es) rd err"
proof -
  obtain as tail where "es = concat (map failed_attempt as) @ tail" "\<forall>a \<in> set as. is_5xx (snd a)"
    "length as + length tail \<le> i" "get_tail tail rd err" "err = Some Err5xx \<longrightarrow> length as = i"
    using assms(1) by (auto simp: get_shape_def)
  with assms(2) show ?thesis unfolding get_shape_def
    by (intro exI [of _ "(rq, r) # as"] exI [of _ tail]) simp
qed

lemma get_loop_traced:
  assumes "own_errors H" and "own_url_errors L"
    and "get_loop (traced H) L base uri off i (h, es) rd0 err0 = ((h', es'), rd, err)"
    and "i = 0 \<longrightarrow> err0 = Some Err5xx"
  shows "\<exists>new. es' = es @ new \<and> get_shape i new rd err"
  using assms(3,4)
proof (induction i arbitrary: h es rd0 err0)
  case 0
  then have "get_shape 0 [] rd err" by (auto simp: get_shape_def get_tail_def)
  with 0 show ?case by simp
next
  case (Suc i)
  obtain h1 es1 rd1 err1 where g: "storage_get1 (traced H) L base (h, es) uri off = ((h1, es1), rd1, err1)"
    by (metis prod.collapse)
  note gt = get1_traced [OF assms(1,2) g]
  show ?case
  proof (cases "err1 = Some Err5xx")
    case False
    with Suc.prems(1) g have eq: "es' = es1" "rd = rd1" "err = err1" by (auto simp: Let_def split: if_splits)
    obtain tail where tail: "es1 = es @ tail" "get_tail tail rd1 err1" "length tail \<le> 1"
    proof (cases "err1 = None")
      case True
      with gt that show thesis by (auto simp: get_tail_def)
    next
      case err: False
      with gt False that [of "[]"] that show thesis by (auto simp: get_tail_def)
    qed
    then have "get_shape (Suc i) tail rd1 err1" unfolding get_shape_def
      using False by (intro exI [of _ "[]"] exI [of _ tail]) simp
    with tail eq show ?thesis by auto
  next
    case True
    with gt obtain rq r where r: "es1 = es @ [Sent rq (Inr r)]" "is_5xx r" "rd1 = Some (rs_body r)" by auto
    with True Suc.prems g have
      "get_loop (traced H) L base uri off i (h_close H h1 (rs_body r), es @ failed_attempt (rq, r)) rd1 err1
        = ((h', es'), rd, err)"
      by (simp add: Let_def traced_def failed_attempt_def)
    from Suc.IH [OF this] True obtain new where
      "es' = (es @ failed_attempt (rq, r)) @ new" "get_shape i new rd err" by auto
    then show ?thesis using get_shape_retry [OF _ r(2)] by auto
  qed
qed

section \<open>Uploads\<close>

text \<open>
  The documented behaviour of the client: before it returns a response it has read the body of
  the request to its end.
\<close>

definition drains :: "('h, 'u) http \<Rightarrow> bool" where
  "drains H \<longleftrightarrow> (\<forall>h rq h' n r b. h_do H h rq = (h', n, Inr r) \<longrightarrow> rq_body rq = Some b \<longrightarrow> length b \<le> n)"

fun put_bodies :: "'u h_event list \<Rightarrow> bytes option list" where
  "put_bodies [] = []"
| "put_bodies (Sent rq x # es) = rq_body rq # put_bodies es"
| "put_bodies (Closed b # es) = put_bodies es"

lemma put_bodies_append [simp]: "put_bodies (xs @ ys) = put_bodies xs @ put_bodies ys"
  by (induction xs rule: put_bodies.induct) auto

lemma newRequest_body: "storage_newRequest L base m uri body = Inr rq \<Longrightarrow> rq_body rq = body"
  by (auto simp: storage_newRequest_def storage_absoluteURL_def http_newRequest_def split: sum.splits)

lemma put1_traced:
  assumes "own_errors H" and "own_url_errors L" and "drains H"
    and "storage_put1 (traced H) L base (h, es) uri (Some b) = ((h', es'), body', err)"
  shows "(\<exists>b'. body' = Some b') \<and> (err = Some Err5xx \<longrightarrow> body' = Some [])
    \<and> (put_bodies es' = put_bodies es \<and> err \<noteq> Some Err5xx \<or> put_bodies es' = put_bodies es @ [Some b])"
proof (cases "storage_newRequest L base ''PUT'' uri (Some b)")
  case (Inl e)
  with newRequest_own [OF assms(2), of base "''PUT''" uri "Some b"] assms(4) show ?thesis
    by (auto simp: storage_put1_def)
next
  case (Inr rq)
  have body: "rq_body rq = Some b" by (rule newRequest_body [OF Inr])
  have own: "h_do H h rq = (h', n, Inl (Err5xx, r)) \<Longrightarrow> False" for h rq h' n r
    using assms(1) unfolding own_errors_def by blast
  have dr: "h_do H h rq = (h', n, Inr r) \<Longrightarrow> length b \<le> n" for h' n r
    using assms(3) body unfolding drains_def by blast
  from Inr assms(4) own dr body show ?thesis
    by (auto simp: storage_put1_def storage_process_def traced_def Let_def dest: own
        split: prod.splits sum.splits option.splits)
qed

lemma put_loop_empty:
  assumes "own_errors H" and "own_url_errors L" and "drains H"
    and "put_loop (traced H) L base uri i (h, es) (Some b) err0 = ((h', es'), body', err)"
  shows "\<exists>n. put_bodies es' = put_bodies es @ (if n = 0 then [] else Some b # replicate (n - 1) (Some []))
    \<and> n \<le> i"
  using assms(4)
proof (induction i arbitrary: h es b err0)
  case (Suc i)
  obtain h1 es1 body1 err1 where p: "storage_put1 (traced H) L base (h, es) uri (Some b) = ((h1, es1), body1, err1)"
    by (metis prod.collapse)
  note pt = put1_traced [OF assms(1-3) p]
  show ?case
  proof (cases "err1 = Some Err5xx")
    case False
    with Suc.prems p have "es' = es1" by (auto simp: Let_def split: if_splits)
    with pt show ?thesis by (intro exI [of _ "if put_bodies es1 = put_bodies es then 0 else 1"]) auto
  next
    case True
    with Suc.prems p pt have
      "put_loop (traced H) L base uri i (h1, es1) (Some []) err1 = ((h', es'), body', err)"
      by (simp add: Let_def)
    from Suc.IH [OF this] obtain n where n: "n \<le> i"
      "put_bodies es' = put_bodies es1 @ (if n = 0 then [] else Some [] # replicate (n - 1) (Some []))"
      by blast
    have "(if n = 0 then [] else Some [] # replicate (n - 1) (Some [])) = replicate n (Some [])"
      by (cases n) simp_all
    with n pt True show ?thesis by (intro exI [of _ "Suc n"]) simp
  qed
qed simp

section \<open>A scripted client\<close>

text \<open>
  A server that gives its answers from a list and a client that reads every body, with URLs
  kept as strings: the client of the witnesses.
\<close>

definition script_http :: "(http_response list, string) http" where
  "script_http = \<lparr>
     h_do = (\<lambda>h rq. (tl h, (case rq_body rq of None \<Rightarrow> 0 | Some b \<Rightarrow> length b),
        (case h of [] \<Rightarrow> Inl (ErrNet False ''connection refused'', None) | r # _ \<Rightarrow> Inr r))),
     h_close = (\<lambda>h b. h)\<rparr>"

definition script_url :: "string url_lib" where
  "script_url = \<lparr>u_parse = Inr, u_parse_request = Inr, u_resolve = (\<lambda>base ref. base @ ref), u_string = id\<rparr>"

definition script :: "int list \<Rightarrow> http_response list" where
  "script ss = map (\<lambda>s. \<lparr>rs_status = s, rs_body = nat s\<rparr>) ss"

lemma script_own: "own_errors script_http" "own_url_errors script_url" "drains script_http"
  by (auto simp: own_errors_def own_url_errors_def drains_def script_http_def script_url_def
      split: list.splits)

text \<open>A client's record only grows, and the first request of \<open>Put\<close> carries the whole buffer.\<close>

lemma put1_grows: "\<exists>t. snd (fst (storage_put1 (traced H) L base (h, es) uri body)) = es @ t"
  by (auto simp: storage_put1_def storage_process_def traced_def Let_def
      split: sum.splits prod.splits option.splits)

lemma put_loop_grows: "\<exists>t. snd (fst (put_loop (traced H) L base uri i (h, es) body err)) = es @ t"
proof (induction i arbitrary: h es body err)
  case (Suc i)
  obtain h' es' body' err' where p: "storage_put1 (traced H) L base (h, es) uri body = ((h', es'), body', err')"
    by (metis prod.collapse)
  with put1_grows [of H L base h es uri body] obtain t where "es' = es @ t" by auto
  with p Suc.IH [of h' es' body' err'] show ?case by auto
qed simp

lemma put_first_request:
  assumes "storage_newRequest L base ''PUT'' uri (Some b) = Inr rq"
  shows "\<exists>x rest. snd (fst (storage_Put (traced H) L base (h, es) uri (Some b))) = es @ Sent rq x # rest"
proof -
  obtain h' es' body' err' where p: "storage_put1 (traced H) L base (h, es) uri (Some b) = ((h', es'), body', err')"
    by (metis prod.collapse)
  obtain h1 n x where d: "h_do H h rq = (h1, n, x)" by (metis prod.collapse)
  from assms p obtain rest where e: "es' = es @ Sent rq x # rest"
    by (cases x) (auto simp: storage_put1_def storage_process_def traced_def d split: option.splits)
  have "storage_Put (traced H) L base (h, es) uri (Some b) =
      (let (h', body', err) = storage_put1 (traced H) L base (h, es) uri (Some b)
       in if err = None then (h', body', None) else if err \<noteq> Some Err5xx then (h', body', err)
          else put_loop (traced H) L base uri 2 h' body' err)"
    by (simp only: storage_Put_def retries_def numeral_3_eq_3 numeral_2_eq_2 put_loop.simps(2))
  with p e put_loop_grows [of H L base uri 2 h' es' body' err'] show ?thesis
    by (auto simp del: put_loop.simps)
qed

lemma newRequest_fields:
  "storage_newRequest L base m uri body = Inr rq \<Longrightarrow> rq_method rq = m \<and> rq_body rq = body"
  by (auto simp: storage_newRequest_def http_newRequest_def split: sum.splits)

section \<open>Properties\<close>

text \<open>
  C13. \<open>Get\<close> asks at most three times and again only after a 5xx status, and leaks nothing on
  the way: before each new attempt the body of the answer it gives up is closed. A nil error
  comes with the open body of a 2xx answer, and \<open>Err5xx\<close> only after three answers with 5xx.
\<close>

theorem storage_get_retries:
  assumes "own_errors H" and "own_url_errors L"
    and "storage_Get (traced H) L base (h, []) uri off = ((h', es), rd, err)"
  shows "\<exists>as tail. es = concat (map failed_attempt as) @ tail
    \<and> (\<forall>a \<in> set as. 500 \<le> rs_status (snd a)) \<and> length as + length tail \<le> 3
    \<and> (tail = [] \<or> (\<exists>rq x. tail = [Sent rq x]))
    \<and> (err = None \<longrightarrow> (\<exists>rq r. tail = [Sent rq (Inr r)] \<and> rd = Some (rs_body r)
         \<and> 200 \<le> rs_status r \<and> rs_status r < 300))
    \<and> (err = Some Err5xx \<longrightarrow> length as = 3)"
proof -
  have "get_shape 3 es rd err"
    using get_loop_traced [OF assms(1,2) assms(3) [unfolded storage_Get_def]] by (simp add: retries_def)
  then show ?thesis unfolding get_shape_def get_tail_def is_5xx_iff by blast
qed

theorem storage_get_retries_witness:
  "\<exists>h' es. storage_Get (traced script_http) script_url ''base'' (script [503, 500, 206], []) ''k'' 7
      = ((h', es), Some 206, None) \<and> length es = 5
    \<and> (\<exists>as tail. es = concat (map failed_attempt as) @ tail \<and> length as + length tail \<le> 3
        \<and> (\<exists>rq r. tail = [Sent rq (Inr r)] \<and> rs_status r < 300))"
proof -
  let ?x = "storage_Get (traced script_http) script_url ''base'' (script [503, 500, 206], []) ''k'' 7"
  have x: "snd ?x = (Some 206, None)" "length (snd (fst ?x)) = 5" by code_simp+
  then have "?x = ((fst (fst ?x), snd (fst ?x)), Some 206, None)" by (metis prod.collapse)
  from storage_get_retries [OF script_own(1,2) this] this x(2) show ?thesis by blast
qed



text \<open>
  Without a storage base \<open>Get\<close> and \<open>Put\<close> fail without a request, with \<open>ErrNoStorage\<close> or the
  parser's error on the key: the world of the client is as before, nothing is returned to be
  closed and the buffer is untouched.
\<close>

theorem storage_without_base:
  "storage_Get H L [] h uri off = (h, None, Some (case u_parse_request L (''/'' @ uri) of
      Inl e \<Rightarrow> e | Inr _ \<Rightarrow> ErrNoStorage))
    \<and> storage_Put H L [] h uri body = (h, body, Some (case u_parse_request L (''/'' @ uri) of
      Inl e \<Rightarrow> e | Inr _ \<Rightarrow> ErrNoStorage))"
  by (simp add: storage_Get_def storage_Put_def retries_def numeral_3_eq_3 storage_get1_def
      storage_put1_def storage_newRequest_def storage_absoluteURL_def storage_baseURI_def
      storage_normalize_def split: sum.split)

end
