(* ===== verification/Http.thy ===== *)
theory Http
  imports GoLib
begin

text \<open>
  The part of \<open>net/http\<close> (Go 1.4) the handlers use: the request, the response as the handler
  writes it, header lookup under canonical keys, \<open>http.Error\<close>, \<open>http.Redirect\<close> and the basic
  authentication of a request with its base64 decoder.
\<close>

section \<open>Headers\<close>

text \<open>
  \<open>CanonicalMIMEHeaderKey\<close> of a key without spaces: upper case at the start and after a hyphen,
  lower case elsewhere.
\<close>

definition to_upper :: "char \<Rightarrow> char" where
  "to_upper c = (if 97 \<le> (of_char c :: nat) \<and> (of_char c :: nat) \<le> 122
     then char_of ((of_char c :: nat) - 32) else c)"

definition to_lower :: "char \<Rightarrow> char" where
  "to_lower c = (if 65 \<le> (of_char c :: nat) \<and> (of_char c :: nat) \<le> 90
     then char_of ((of_char c :: nat) + 32) else c)"

fun canonical :: "bool \<Rightarrow> string \<Rightarrow> string" where
  "canonical up [] = []"
| "canonical up (c # cs) = (if up then to_upper c else to_lower c) # canonical (c = CHR ''-'') cs"

definition canonical_key :: "string \<Rightarrow> string" where
  "canonical_key k = (if CHR '' '' \<in> set k then k else canonical True k)"

type_synonym header = "(string \<times> string) list"

definition header_get :: "header \<Rightarrow> string \<Rightarrow> string" where
  "header_get h k = (case map_of h (canonical_key k) of None \<Rightarrow> [] | Some v \<Rightarrow> v)"

definition header_set :: "header \<Rightarrow> string \<Rightarrow> string \<Rightarrow> header" where
  "header_set h k v = filter (\<lambda>(j, _). j \<noteq> canonical_key k) h @ [(canonical_key k, v)]"

lemma map_of_filter_key: "map_of (filter (\<lambda>(j, _). j \<noteq> k) h) i = (if i = k then None else map_of h i)"
  by (induction h) auto

lemma header_get_set:
  "header_get (header_set h k v) j = (if canonical_key j = canonical_key k then v else header_get h j)"
  by (auto simp: header_get_def header_set_def map_add_def map_of_filter_key split: option.splits)

section \<open>Requests and responses\<close>

text \<open>
  \<open>rq_path\<close> is the path of the URL as \<open>URL.String\<close> writes it, \<open>rq_key\<close> the variable \<open>key\<close> of the
  route. The body of a request is the list of what its reads return, in chunks of a buffer.
\<close>

record request =
  hr_method :: string
  hr_path :: string
  hr_query :: string
  hr_host :: string
  hr_headers :: header
  hr_te :: "string list"
  hr_key :: string
  hr_body :: "(bytes \<times> go_error option) list"

text \<open>The state of a handler extends the response it writes.\<close>

record response =
  rp_headers :: header
  rp_status :: "int option"   \<comment> \<open>the header that has been sent\<close>
  rp_body :: bytes
  rp_calls :: "int list"      \<comment> \<open>the calls of \<open>WriteHeader\<close> by the handlers\<close>
  rp_flushed :: nat           \<comment> \<open>how much of the body has been flushed\<close>

definition empty_response :: response where
  "empty_response = \<lparr>rp_headers = [], rp_status = None, rp_body = [], rp_calls = [], rp_flushed = 0\<rparr>"

text \<open>The first status counts; a body without one is sent under 200.\<close>

definition commit :: "int \<Rightarrow> 'a response_scheme \<Rightarrow> 'a response_scheme" where
  "commit s r = (case rp_status r of None \<Rightarrow> r\<lparr>rp_status := Some s\<rparr> | Some _ \<Rightarrow> r)"

definition writeHeader :: "int \<Rightarrow> 'a response_scheme \<Rightarrow> 'a response_scheme" where
  "writeHeader s r = (commit s r)\<lparr>rp_calls := rp_calls r @ [s]\<rparr>"

definition writeBody :: "bytes \<Rightarrow> 'a response_scheme \<Rightarrow> 'a response_scheme" where
  "writeBody b r = (commit 200 r)\<lparr>rp_body := rp_body r @ b\<rparr>"

definition flush :: "'a response_scheme \<Rightarrow> 'a response_scheme" where
  "flush r = (commit 200 r)\<lparr>rp_flushed := length (rp_body r)\<rparr>"

definition setHeader :: "string \<Rightarrow> string \<Rightarrow> 'a response_scheme \<Rightarrow> 'a response_scheme" where
  "setHeader k v r = r\<lparr>rp_headers := header_set (rp_headers r) k v\<rparr>"

text \<open>What is sent if the handler returns now.\<close>

definition sent_status :: "'a response_scheme \<Rightarrow> int" where
  "sent_status r = (case rp_status r of None \<Rightarrow> 200 | Some s \<Rightarrow> s)"

definition http_Error :: "string \<Rightarrow> int \<Rightarrow> 'a response_scheme \<Rightarrow> 'a response_scheme" where
  "http_Error message code r =
     writeBody (message @ [CHR 0x0A])
       (writeHeader code (setHeader ''Content-Type'' ''text/plain; charset=utf-8'' r))"

text \<open>\<open>http.Redirect\<close> to an absolute URL; a \<open>GET\<close> gets a short body with the escaped link.\<close>

fun html_escape :: "string \<Rightarrow> string" where
  "html_escape [] = []"
| "html_escape (c # cs) =
     (if c = CHR ''&'' then ''&amp;'' else if c = CHR ''<'' then ''&lt;''
      else if c = CHR ''>'' then ''&gt;'' else if c = CHR 0x22 then ''&#34;''
      else if c = CHR 0x27 then ''&#39;'' else [c]) @ html_escape cs"

definition http_Redirect ::
  "request \<Rightarrow> string \<Rightarrow> int \<Rightarrow> string \<Rightarrow> 'a response_scheme \<Rightarrow> 'a response_scheme" where
  "http_Redirect q url code status_text r =
     (let r1 = writeHeader code (setHeader ''Location'' url r)
      in if hr_method q = ''GET''
         then writeBody (''<a href='' @ [CHR 0x22] @ html_escape url @ [CHR 0x22] @ ''>'' @ status_text
                @ ''</a>.'' @ [CHR 0x0A, CHR 0x0A]) r1
         else r1)"

section \<open>Base64\<close>

definition b64_char :: "nat \<Rightarrow> char" where
  "b64_char d = (if d < 26 then char_of (65 + d) else if d < 52 then char_of (71 + d)
     else if d < 62 then char_of (d - 4) else if d = 62 then CHR ''+'' else CHR ''/'')"

definition b64_val :: "char \<Rightarrow> nat option" where
  "b64_val c =
     (let n = (of_char c :: nat)
      in if 65 \<le> n \<and> n \<le> 90 then Some (n - 65)
         else if 97 \<le> n \<and> n \<le> 122 then Some (n - 71)
         else if 48 \<le> n \<and> n \<le> 57 then Some (n + 4)
         else if c = CHR ''+'' then Some 62
         else if c = CHR ''/'' then Some 63 else None)"

fun b64_encode :: "bytes \<Rightarrow> string" where
  "b64_encode [] = []"
| "b64_encode [a] =
     (let n = of_char a * 16 in [b64_char (n div 64), b64_char (n mod 64), CHR ''='', CHR ''=''])"
| "b64_encode [a, b] =
     (let n = (of_char a * 256 + of_char b) * 4
      in [b64_char (n div 4096), b64_char (n div 64 mod 64), b64_char (n mod 64), CHR ''=''])"
| "b64_encode (a # b # c # s) =
     (let n = (of_char a * 256 + of_char b) * 256 + of_char c
      in b64_char (n div 262144) # b64_char (n div 4096 mod 64) # b64_char (n div 64 mod 64)
         # b64_char (n mod 64) # b64_encode s)"

text \<open>
  \<open>base64.StdEncoding\<close>: groups of four, the last one padded; line breaks are dropped first.
\<close>

fun b64_groups :: "string \<Rightarrow> bytes option" where
  "b64_groups [] = Some []"
| "b64_groups (a # b # c # d # s) =
     (case (b64_val a, b64_val b) of
        (Some x, Some y) \<Rightarrow>
          (if c = CHR ''='' then
             (if d = CHR ''='' \<and> s = [] then Some [char_of ((x * 64 + y) div 16)] else None)
           else case b64_val c of None \<Rightarrow> None
           | Some z \<Rightarrow>
               (if d = CHR ''='' then
                  (if s = [] then let n = ((x * 64 + y) * 64 + z) div 4
                     in Some [char_of (n div 256), char_of (n mod 256)] else None)
                else case b64_val d of None \<Rightarrow> None
                | Some u \<Rightarrow>
                    (let n = ((x * 64 + y) * 64 + z) * 64 + u
                     in map_option (\<lambda>t. char_of (n div 65536) # char_of (n div 256 mod 256)
                          # char_of (n mod 256) # t) (b64_groups s))))
      | _ \<Rightarrow> None)"
| "b64_groups _ = None"

definition b64_decode :: "string \<Rightarrow> bytes option" where
  "b64_decode s = b64_groups (filter (\<lambda>c. c \<noteq> CHR 0x0A \<and> c \<noteq> CHR 0x0D) s)"

text \<open>\<open>Request.BasicAuth\<close>\<close>

definition basicAuth :: "request \<Rightarrow> (string \<times> string) option" where
  "basicAuth q =
     (let auth = header_get (hr_headers q) ''Authorization''
      in if take 6 auth \<noteq> ''Basic '' then None
         else case b64_decode (drop 6 auth) of None \<Rightarrow> None
         | Some cs \<Rightarrow> (case split2 CHR '':'' cs of [u, p] \<Rightarrow> Some (u, p) | _ \<Rightarrow> None))"

section \<open>Lemmas on base64\<close>

lemma of_char_b64:
  "d < 62 \<Longrightarrow> (of_char (b64_char d) :: nat) = (if d < 26 then 65 + d else if d < 52 then 71 + d else d - 4)"
  by (simp add: b64_char_def take_bit_nat_eq_self)

lemma b64_char_ends: "b64_char 62 = CHR ''+''" "b64_char 63 = CHR ''/''"
  by (simp_all add: b64_char_def)

lemma b64_cases: "d < 64 \<Longrightarrow> d < 62 \<or> d = 62 \<or> d = (63 :: nat)"
  by linarith

lemma b64_val_char: "d < 64 \<Longrightarrow> b64_val (b64_char d) = Some d"
  using b64_cases [of d] of_char_b64 [of d]
  by (cases "d < 26"; cases "d < 52") (auto simp: b64_val_def b64_char_ends Let_def)

lemma b64_char_plain:
  assumes "d < 64"
  shows "b64_char d \<noteq> CHR ''=''" and "b64_char d \<noteq> CHR 0x0A" and "b64_char d \<noteq> CHR 0x0D"
proof -
  have "c \<noteq> CHR ''='' \<and> c \<noteq> CHR 0x0A \<and> c \<noteq> CHR 0x0D"
    if "(of_char c :: nat) \<noteq> 61 \<and> (of_char c :: nat) \<noteq> 10 \<and> (of_char c :: nat) \<noteq> 13" for c
    using that by auto
  moreover have "(of_char (b64_char d) :: nat) \<noteq> 61 \<and> (of_char (b64_char d) :: nat) \<noteq> 10
      \<and> (of_char (b64_char d) :: nat) \<noteq> 13"
    using b64_cases [OF assms] by (auto simp: of_char_b64 b64_char_ends split: if_splits)
  ultimately show "b64_char d \<noteq> CHR ''=''" "b64_char d \<noteq> CHR 0x0A" "b64_char d \<noteq> CHR 0x0D" by blast+
qed

text \<open>The bytes of a group as the digits of one number, in both bases.\<close>

lemma div_steps: "n div 4096 = n div 64 div (64 :: nat)" "n div 262144 = n div 64 div 64 div (64 :: nat)"
  "n div 65536 = n div 256 div (256 :: nat)"
  by (simp_all add: div_mult2_eq [symmetric])

lemma group3:
  assumes "n = (a * 256 + b) * 256 + c" and "a < 256" and "b < 256" and "c < (256 :: nat)"
  shows "((n div 262144 * 64 + n div 4096 mod 64) * 64 + n div 64 mod 64) * 64 + n mod 64 = n"
    and "n div 262144 < 64" and "n div 65536 = a" and "n div 256 mod 256 = b" and "n mod 256 = c"
proof -
  show "((n div 262144 * 64 + n div 4096 mod 64) * 64 + n div 64 mod 64) * 64 + n mod 64 = n"
    by (simp only: div_steps div_mult_mod_eq)
  have d: "n div 256 = a * 256 + b" using assms by simp
  have m: "n mod 256 = c" unfolding assms(1) by (simp only: mod_mult_self3 mod_less assms(4))
  from d m show "n div 256 mod 256 = b" "n mod 256 = c" using assms by simp_all
  show "n div 65536 = a" unfolding div_steps d using assms by simp
  have "n < 64 * 262144" using assms by (simp add: algebra_simps)
  then show "n div 262144 < 64" by (rule less_mult_imp_div_less)
qed

lemma group2:
  assumes "n = (a * 256 + b) * 4" and "a < 256" and "b < (256 :: nat)"
  shows "(n div 4096 * 64 + n div 64 mod 64) * 64 + n mod 64 = n" and "n div 4096 < 64"
    and "n div 4 div 256 = a" and "n div 4 mod 256 = b"
proof -
  show "(n div 4096 * 64 + n div 64 mod 64) * 64 + n mod 64 = n"
    by (simp only: div_steps div_mult_mod_eq)
  have d: "n div 4 = a * 256 + b" unfolding assms(1) by simp
  show "n div 4 div 256 = a" "n div 4 mod 256 = b" unfolding d using assms by simp_all
  have "n < 64 * 4096" using assms by (simp add: algebra_simps)
  then show "n div 4096 < 64" by (rule less_mult_imp_div_less)
qed

lemma group1:
  assumes "n = a * 16" and "a < (256 :: nat)"
  shows "n div 64 * 64 + n mod 64 = n" and "n div 64 < 64" and "n div 16 = a"
proof -
  have "n < 64 * 64" using assms by linarith
  then show "n div 64 < 64" by (rule less_mult_imp_div_less)
  show "n div 64 * 64 + n mod 64 = n" by (rule div_mult_mod_eq)
  show "n div 16 = a" unfolding assms(1) by simp
qed

lemma of_char_256: "(of_char (c :: char) :: nat) < 256"
  by simp

text \<open>One group of each kind, with its number named.\<close>

lemma b64_groups_two:
  "x < 64 \<Longrightarrow> y < 64 \<Longrightarrow> z < 64 \<Longrightarrow> b64_groups [b64_char x, b64_char y, b64_char z, CHR ''='']
   = (let n = ((x * 64 + y) * 64 + z) div 4 in Some [char_of (n div 256), char_of (n mod 256)])"
  by (simp only: b64_groups.simps b64_val_char b64_char_plain option.case prod.case if_False if_True simp_thms)

lemma b64_groups_three:
  "x < 64 \<Longrightarrow> y < 64 \<Longrightarrow> z < 64 \<Longrightarrow> u < 64 \<Longrightarrow>
   b64_groups (b64_char x # b64_char y # b64_char z # b64_char u # s)
   = (let n = ((x * 64 + y) * 64 + z) * 64 + u
      in map_option (\<lambda>t. char_of (n div 65536) # char_of (n div 256 mod 256) # char_of (n mod 256) # t)
           (b64_groups s))"
  by (simp only: b64_groups.simps b64_val_char b64_char_plain option.case prod.case if_False if_True simp_thms)

lemma b64_one:
  fixes a :: char
  defines "n \<equiv> (of_char a :: nat) * 16"
  shows "b64_encode [a] = [b64_char (n div 64), b64_char (n mod 64), CHR ''='', CHR ''='']"
    and "b64_groups (b64_encode [a]) = Some [a]"
proof -
  note g = group1 [OF n_def [THEN meta_eq_to_obj_eq] of_char_256]
  show e: "b64_encode [a] = [b64_char (n div 64), b64_char (n mod 64), CHR ''='', CHR ''='']"
    by (simp only: b64_encode.simps Let_def n_def)
  show "b64_groups (b64_encode [a]) = Some [a]"
    unfolding e by (simp add: b64_val_char g)
qed

lemma b64_two:
  fixes a b :: char
  defines "n \<equiv> ((of_char a :: nat) * 256 + of_char b) * 4"
  shows "b64_encode [a, b]
      = [b64_char (n div 4096), b64_char (n div 64 mod 64), b64_char (n mod 64), CHR ''='']"
    and "b64_groups (b64_encode [a, b]) = Some [a, b]" and "n div 4096 < 64"
proof -
  note g = group2 [OF n_def [THEN meta_eq_to_obj_eq] of_char_256 of_char_256]
  show e: "b64_encode [a, b]
      = [b64_char (n div 4096), b64_char (n div 64 mod 64), b64_char (n mod 64), CHR ''='']"
    by (simp only: b64_encode.simps Let_def n_def)
  show "b64_groups (b64_encode [a, b]) = Some [a, b]"
    unfolding e by (subst b64_groups_two) (simp_all only: g Let_def, simp_all)
  show "n div 4096 < 64" by (rule g(2))
qed

lemma b64_three:
  fixes a b c :: char
  defines "n \<equiv> ((of_char a :: nat) * 256 + of_char b) * 256 + of_char c"
  shows "b64_encode (a # b # c # s) = b64_char (n div 262144) # b64_char (n div 4096 mod 64)
      # b64_char (n div 64 mod 64) # b64_char (n mod 64) # b64_encode s"
    and "b64_groups (b64_encode s) = Some s \<Longrightarrow> b64_groups (b64_encode (a # b # c # s)) = Some (a # b # c # s)"
    and "n div 262144 < 64"
proof -
  note g = group3 [OF n_def [THEN meta_eq_to_obj_eq] of_char_256 of_char_256 of_char_256]
  show e: "b64_encode (a # b # c # s) = b64_char (n div 262144) # b64_char (n div 4096 mod 64)
      # b64_char (n div 64 mod 64) # b64_char (n mod 64) # b64_encode s"
    by (simp only: b64_encode.simps Let_def n_def)
  show "b64_groups (b64_encode (a # b # c # s)) = Some (a # b # c # s)"
    if "b64_groups (b64_encode s) = Some s"
    unfolding e by (subst b64_groups_three) (simp_all only: g Let_def that, simp_all)
  show "n div 262144 < 64" by (rule g(2))
qed

lemma b64_groups_encode: "b64_groups (b64_encode s) = Some s"
  by (induction s rule: b64_encode.induct) (simp_all only: b64_one(2) b64_two(2) b64_three(2) b64_encode.simps(1) b64_groups.simps(1))

lemma b64_encode_plain: "c \<in> set (b64_encode s) \<Longrightarrow> c \<noteq> CHR 0x0A \<and> c \<noteq> CHR 0x0D"
proof (induction s rule: b64_encode.induct)
  case (2 a)
  have "(of_char a :: nat) * 16 div 64 < 64" by (rule group1(2) [OF refl of_char_256])
  with 2 show ?case unfolding b64_one(1) by (auto simp: b64_char_plain)
next
  case (3 a b)
  then show ?case unfolding b64_two(1) using b64_two(3) [of a b] by (auto simp: b64_char_plain)
next
  case (4 a b d s)
  then show ?case unfolding b64_three(1) using b64_three(3) [of a b d] by (auto simp: b64_char_plain)
qed simp

lemma b64_decode_encode: "b64_decode (b64_encode s) = Some s"
proof -
  have "filter (\<lambda>c. c \<noteq> CHR 0x0A \<and> c \<noteq> CHR 0x0D) (b64_encode s) = b64_encode s"
    by (rule filter_True) (use b64_encode_plain in blast)
  then show ?thesis by (simp only: b64_decode_def b64_groups_encode)
qed

end
