(* ===== verification/Auth.thy ===== *)
theory Auth
  imports Http
begin

text \<open>
  Package \<open>authenticater\<close> (vendored): the credentials of \<open>BasicAuth\<close>, the Logplex tokens, and
  the wrapper that lets a request through to a handler or answers it with 401. The locks
  around the maps make each operation one step.
\<close>

section \<open>basic\_auth.go\<close>

type_synonym basic_auth = "string \<rightharpoonup> string list"

definition newBasicAuth :: basic_auth where
  "newBasicAuth = Map.empty"

definition addPrincipal :: "basic_auth \<Rightarrow> string \<Rightarrow> string \<Rightarrow> basic_auth" where
  "addPrincipal ba user pass =
     (let u = (case ba user of None \<Rightarrow> [] | Some u \<Rightarrow> u) in ba(user \<mapsto> u @ [pass]))"

fun add_entries :: "basic_auth \<Rightarrow> string list \<Rightarrow> basic_auth \<times> go_error option" where
  "add_entries ba [] = (ba, None)"
| "add_entries ba (u # us) =
     (case split2 CHR '':'' u of
        [user, pass] \<Rightarrow>
          (if user = [] \<or> pass = []
           then (ba, Some (ErrOther (''Unable to create credentials from '' @ u)))
           else add_entries (addPrincipal ba user pass) us)
      | _ \<Rightarrow> (ba, Some (ErrOther (''Unable to create credentials from '' @ u))))"

definition newBasicAuthFromString :: "string \<Rightarrow> basic_auth \<times> go_error option" where
  "newBasicAuthFromString creds = add_entries newBasicAuth (split_on CHR ''|'' creds)"

definition ba_authenticate :: "basic_auth \<Rightarrow> request \<Rightarrow> bool" where
  "ba_authenticate ba r =
     (case basicAuth r of None \<Rightarrow> False
      | Some (user, pass) \<Rightarrow>
          (case ba user of None \<Rightarrow> False | Some passwords \<Rightarrow> list_ex (\<lambda>p. p = pass) passwords))"

section \<open>auth.go, any.go\<close>

definition wrapAuth ::
  "(request \<Rightarrow> bool) \<Rightarrow> (request \<Rightarrow> 'a response_scheme \<Rightarrow> 'a response_scheme) \<Rightarrow>
    request \<Rightarrow> 'a response_scheme \<Rightarrow> 'a response_scheme" where
  "wrapAuth authenticate handle r w = (if authenticate r then handle r w else writeHeader 401 w)"

definition anyOrNoAuth :: "request \<Rightarrow> bool" where
  "anyOrNoAuth r = True"

section \<open>logplex\_drain\_tokens.go\<close>

definition addToken :: "string set \<Rightarrow> string \<Rightarrow> string set" where
  "addToken tokens token = insert token tokens"

definition newLogplexDrainTokenFromString :: "string \<Rightarrow> string set" where
  "newLogplexDrainTokenFromString tokens =
     fold (\<lambda>token ldt. addToken ldt token) (split_on CHR '','' tokens) {}"

definition ldt_authenticate :: "string set \<Rightarrow> request \<Rightarrow> bool" where
  "ldt_authenticate ldt r =
     (let token = header_get (hr_headers r) ''Logplex-Drain-Token''
      in if token \<noteq> [] then token \<in> ldt else False)"

section \<open>The interface of an authenticater\<close>

text \<open>
  \<open>Authenticater\<close>: what \<open>WrapAuth\<close> guarantees whatever the policy is, when the handler keeps
  an invariant of the state.
\<close>

locale authenticater =
  fixes authenticate :: "request \<Rightarrow> bool"
    and granted :: "request \<Rightarrow> bool"
  assumes granted: "authenticate r \<Longrightarrow> granted r"
begin

lemma wrap_denied: "\<not> granted r \<Longrightarrow> wrapAuth authenticate handle r w = writeHeader 401 w"
  using granted by (auto simp: wrapAuth_def)

end

section \<open>Lemmas\<close>

lemma split2_cases:
  obtains "c \<notin> set s" "split2 c s = [s]"
  | u v where "s = u @ c # v" "c \<notin> set u" "split2 c s = [u, v]"
proof (cases "c \<in> set s")
  case True
  then obtain u v where "s = u @ c # v" "c \<notin> set u" by (metis split_list_first)
  with that(2) split2_append show thesis by metis
next
  case False
  with that(1) split2_none show thesis by metis
qed

text \<open>Which passwords a map of credentials holds for a user.\<close>

definition passwords_of :: "basic_auth \<Rightarrow> string \<Rightarrow> string list" where
  "passwords_of ba user = (case ba user of None \<Rightarrow> [] | Some ps \<Rightarrow> ps)"

lemma passwords_add:
  "passwords_of (addPrincipal ba user pass) u
   = (if u = user then passwords_of ba u @ [pass] else passwords_of ba u)"
  by (auto simp: passwords_of_def addPrincipal_def Let_def split: option.split)

lemma add_entries_passwords:
  "add_entries ba es = (ba', None) \<Longrightarrow>
   set (passwords_of ba' u) = set (passwords_of ba u) \<union> {p. \<exists>e \<in> set es. split2 CHR '':'' e = [u, p]}"
proof (induction es arbitrary: ba)
  case (Cons e es)
  show ?case
  proof (cases e rule: split2_cases [of "CHR '':''"])
    case (2 a b)
    with Cons.prems have "add_entries (addPrincipal ba a b) es = (ba', None)"
      by (simp split: if_splits)
    from Cons.IH [OF this] 2 show ?thesis by (auto simp: passwords_add)
  next
    case 1
    with Cons.prems show ?thesis by simp
  qed
qed simp

lemma ba_authenticate_iff:
  "ba_authenticate ba r \<longleftrightarrow> (\<exists>u p. basicAuth r = Some (u, p) \<and> p \<in> set (passwords_of ba u))"
  by (auto simp: ba_authenticate_def passwords_of_def list_ex_iff split: option.splits)

text \<open>The header a client sends for a user and a password.\<close>

definition basic_header :: "string \<Rightarrow> string \<Rightarrow> string" where
  "basic_header user pass = ''Basic '' @ b64_encode (user @ '':'' @ pass)"

lemma basicAuth_header:
  assumes "header_get (hr_headers r) ''Authorization'' = basic_header user pass"
    and "CHR '':'' \<notin> set user"
  shows "basicAuth r = Some (user, pass)"
  using assms split2_append [of "CHR '':''" user pass]
  by (simp add: basicAuth_def basic_header_def Let_def b64_decode_encode)

text \<open>Every policy is one: \<open>BasicAuth\<close> grants the pairs it was given.\<close>

definition in_creds :: "string \<Rightarrow> request \<Rightarrow> bool" where
  "in_creds creds r \<longleftrightarrow>
     (\<exists>u p. basicAuth r = Some (u, p) \<and> (\<exists>e \<in> set (split_on CHR ''|'' creds). split2 CHR '':'' e = [u, p]))"

lemma from_string_iff:
  assumes "newBasicAuthFromString creds = (ba, None)"
  shows "ba_authenticate ba r \<longleftrightarrow> in_creds creds r"
  using add_entries_passwords [OF assms [unfolded newBasicAuthFromString_def]]
  by (auto simp: ba_authenticate_iff in_creds_def passwords_of_def newBasicAuth_def)

interpretation basic: authenticater
  "ba_authenticate (fst (newBasicAuthFromString creds))"
  "\<lambda>r. snd (newBasicAuthFromString creds) \<noteq> None \<or> in_creds creds r" for creds
proof unfold_locales
  show "snd (newBasicAuthFromString creds) \<noteq> None \<or> in_creds creds r"
    if "ba_authenticate (fst (newBasicAuthFromString creds)) r" for r
    using that from_string_iff [of creds "fst (newBasicAuthFromString creds)" r]
    by (cases "newBasicAuthFromString creds") auto
qed

lemma ldt_from_string: "newLogplexDrainTokenFromString tokens = set (split_on CHR '','' tokens)"
proof -
  have "fold (\<lambda>token ldt. addToken ldt token) ts S = S \<union> set ts" for ts S
    by (induction ts arbitrary: S) (auto simp: addToken_def)
  then show ?thesis by (simp add: newLogplexDrainTokenFromString_def)
qed

interpretation logplex: authenticater
  "ldt_authenticate (newLogplexDrainTokenFromString tokens)"
  "\<lambda>r. header_get (hr_headers r) ''Logplex-Drain-Token'' \<in> set (split_on CHR '','' tokens)" for tokens
  by unfold_locales (auto simp: ldt_authenticate_def ldt_from_string Let_def split: if_splits)

section \<open>Properties\<close>


definition demo_request :: "header \<Rightarrow> request" where
  "demo_request h = \<lparr>hr_method = ''PUT'', hr_path = ''/streams/k'', hr_query = [], hr_host = ''busl'',
     hr_headers = h, hr_te = [], hr_key = ''k'', hr_body = []\<rparr>"


end
