(* ===== verification/Server.thy ===== *)
theory Server
  imports KeepAlive Storage Auth
begin

text \<open>
  Package \<open>server\<close>: the handlers (\<open>server.go\<close>), the middleware (\<open>middleware.go\<close>), the answer to
  an error (\<open>errors.go\<close>) and the flushing writer (\<open>writeflusher.go\<close>). A handler takes a
  request and the state of the server, which extends the response it writes; the client of
  Redis, the HTTP client, the parser of URLs and the settings are in a record of arguments.
\<close>

section \<open>Settings and state\<close>

record ('w, 'h, 'u) config =
  cf_redis :: "'w redis"
  cf_http :: "('h, 'u) http"
  cf_urls :: "'u url_lib"
  cf_bodyRead :: "'h \<Rightarrow> nat \<Rightarrow> bytes \<Rightarrow> 'h \<times> read_result"  \<comment> \<open>\<open>Read\<close> of a response body\<close>
  cf_storageBaseURL :: string
  cf_creds :: string
  cf_enforceHTTPS :: bool
  cf_httpCatGone :: bytes

text \<open>
  A reader of a stream: the broker's or the body of an answer of the store, as it is or behind
  an SSE encoder at a position.
\<close>

datatype source = Src_broker reader | Src_blob nat

datatype served = Sv_plain source | Sv_event source int

type_synonym ('w, 'h) stream = "(('w \<times> 'h) \<times> served) keepAlive"

text \<open>
  What the server keeps besides the response in progress: the worlds of its clients, the random
  source, the uploaders that wait (one for each \<open>pub\<close> whose \<open>done\<close> is still open), the uploads
  that have been started, the lines of the log and the errors handed to \<open>rollbar.Error\<close>, each with the
  text it is reported under.
\<close>

record ('w, 'h) serv = response +
  sv_redis :: 'w
  sv_http :: 'h
  sv_rand :: "nat \<Rightarrow> bytes \<times> nat \<times> go_error option"
  sv_uploaders :: "(string \<times> string) list"
  sv_uploads :: "(string \<times> string) list"
  sv_log :: "string list"
  sv_reports :: "(string \<times> go_error option) list"

definition rollbar_Error :: "string \<Rightarrow> go_error option \<Rightarrow> ('w, 'h) serv \<Rightarrow> ('w, 'h) serv" where
  "rollbar_Error msg err s = s\<lparr>sv_reports := sv_reports s @ [(msg, err)]\<rparr>"

definition draw_uuid :: "('w, 'h) serv \<Rightarrow> ('w, 'h) serv \<times> string \<times> go_error option" where
  "draw_uuid s = (let (rnd, n, err) = sv_rand s 0
     in (s\<lparr>sv_rand := (\<lambda>i. sv_rand s (Suc i))\<rparr>, newUUID rnd n err))"

section \<open>middleware.go\<close>

definition request_url :: "request \<Rightarrow> string" where
  "request_url r = ''https://'' @ hr_host r @ hr_path r
     @ (if hr_query r \<noteq> [] then ''?'' @ hr_query r else [])"

definition enforceHTTPS ::
  "('w, 'h, 'u) config \<Rightarrow> (request \<Rightarrow> ('w, 'h) serv \<Rightarrow> ('w, 'h) serv) \<Rightarrow>
    request \<Rightarrow> ('w, 'h) serv \<Rightarrow> ('w, 'h) serv" where
  "enforceHTTPS cf fn r s =
     (if \<not> cf_enforceHTTPS cf then fn r s
      else if header_get (hr_headers r) ''X-Forwarded-Proto'' \<noteq> ''https''
        then http_Redirect r (request_url r) 301 ''Moved Permanently'' s
      else fn r s)"

text \<open>Credentials that cannot be read end the process: \<open>None\<close>.\<close>

definition serv_auth ::
  "('w, 'h, 'u) config \<Rightarrow> (request \<Rightarrow> ('w, 'h) serv \<Rightarrow> ('w, 'h) serv) \<Rightarrow>
    (request \<Rightarrow> ('w, 'h) serv \<Rightarrow> ('w, 'h) serv) option" where
  "serv_auth cf fn =
     (if cf_creds cf = [] then Some fn
      else case newBasicAuthFromString (cf_creds cf) of
        (ba, Some err) \<Rightarrow> None
      | (ba, None) \<Rightarrow> Some (wrapAuth (ba_authenticate ba) fn))"

definition addDefaultHeaders ::
  "(request \<Rightarrow> ('w, 'h) serv \<Rightarrow> ('w, 'h) serv) \<Rightarrow> request \<Rightarrow> ('w, 'h) serv \<Rightarrow> ('w, 'h) serv" where
  "addDefaultHeaders fn r s =
     (let origin = header_get (hr_headers r) ''Origin'';
          s1 = (if origin \<noteq> [] then setHeader ''Access-Control-Allow-Origin'' origin s else s);
          s2 = setHeader ''Access-Control-Allow-Methods'' ''POST, GET, OPTIONS, PUT, DELETE'' s1;
          s3 = setHeader ''Access-Control-Allow-Headers''
                 ''Content-Type, Content-Length, Accept-Encoding, X-CSRF-Token'' s2;
          s4 = setHeader ''Access-Control-Allow-Credentials'' ''true'' s3
      in fn r s4)"

definition requestId :: "request \<Rightarrow> ('w, 'h) serv \<Rightarrow> ('w, 'h) serv \<times> string" where
  "requestId r s =
     (let id1 = header_get (hr_headers r) ''Request-Id'';
          id2 = (if id1 = [] then header_get (hr_headers r) ''X-Request-Id'' else id1)
      in if id2 = [] then (let (s', uuid, _) = draw_uuid s in (s', uuid)) else (s, id2))"

text \<open>The response logger sees the calls of \<open>WriteHeader\<close> made through it.\<close>

definition logRequest ::
  "(request \<Rightarrow> ('w, 'h) serv \<Rightarrow> ('w, 'h) serv) \<Rightarrow> request \<Rightarrow> ('w, 'h) serv \<Rightarrow> ('w, 'h) serv" where
  "logRequest fn r s =
     (let (s1, rid) = requestId r s;
          s2 = fn r s1;
          calls = drop (length (rp_calls s1)) (rp_calls s2);
          logger = fold (\<lambda>c l. rl_writeHeader l c) calls (newResponseLogger rid)
      in s2\<lparr>sv_log := sv_log s2 @ [rl_writeLog logger]\<rparr>)"

definition req_offset :: "request \<Rightarrow> int" where
  "req_offset r =
     (let last_id = header_get (hr_headers r) ''last-event-id'';
          val = header_get (hr_headers r) ''Range'';
          off = (if last_id = [] then (if val \<noteq> [] then hd (split2 CHR ''-'' val) else last_id)
                 else last_id)
      in fst (atoi off))"

definition req_key :: "request \<Rightarrow> string" where
  "req_key r = hr_key r"

definition req_requestURI :: "request \<Rightarrow> string" where
  "req_requestURI r = req_key r @ (if hr_query r \<noteq> [] then ''?'' @ hr_query r else [])"

section \<open>Readers of a stream\<close>

fun src_read ::
  "('w, 'h, 'u) config \<Rightarrow> ('w \<times> 'h) \<times> source \<Rightarrow> bytes \<Rightarrow> (('w \<times> 'h) \<times> source) \<times> read_result" where
  "src_read cf ((w, h), Src_broker r) p =
     (let (w', r', res) = reader_read (cf_redis cf) w r p in (((w', h), Src_broker r'), res))"
| "src_read cf ((w, h), Src_blob b) p =
     (let (h', res) = cf_bodyRead cf h b p in (((w, h'), Src_blob b), res))"

fun src_seek ::
  "('w \<times> 'h) \<times> source \<Rightarrow> int \<Rightarrow> int \<Rightarrow> ((('w \<times> 'h) \<times> source) \<times> int \<times> go_error option) option" where
  "src_seek (wh, Src_broker r) off whence =
     (let (r', n, err) = reader_seek r off whence in Some ((wh, Src_broker r'), n, err))"
| "src_seek (wh, Src_blob b) off whence = None"

fun src_close ::
  "('w, 'h, 'u) config \<Rightarrow> ('w \<times> 'h) \<times> source \<Rightarrow> (('w \<times> 'h) \<times> source) \<times> go_error option" where
  "src_close cf ((w, h), Src_broker r) =
     (let (w', r', err) = reader_close (cf_redis cf) w r in (((w', h), Src_broker r'), err))"
| "src_close cf ((w, h), Src_blob b) = (((w, h_close (cf_http cf) h b), Src_blob b), None)"

text \<open>\<open>rd.(*reader)\<close>, the assertion of \<open>ReaderDone\<close>, \<open>NoContent\<close> and \<open>RenewExpiry\<close>.\<close>

fun src_reader :: "source \<Rightarrow> reader option" where
  "src_reader (Src_broker r) = Some r"
| "src_reader (Src_blob b) = None"

definition src_io :: "('w, 'h, 'u) config \<Rightarrow> (('w \<times> 'h) \<times> source) io" where
  "src_io cf = \<lparr>io_read = src_read cf, io_seek = src_seek,
     io_close = (\<lambda>x. Some (src_close cf x)),
     io_renew = (\<lambda>((w, h), src). ((renewExpiry (cf_redis cf) w (src_reader src), h), src))\<rparr>"

text \<open>
  What the keepalive reader wraps: the source itself, or \<open>NopCloser\<close> around the encoder, whose
  \<open>Read\<close> is the encoder's.
\<close>

fun served_read ::
  "('w, 'h, 'u) config \<Rightarrow> ('w \<times> 'h) \<times> served \<Rightarrow> bytes \<Rightarrow> (('w \<times> 'h) \<times> served) \<times> read_result" where
  "served_read cf (wh, Sv_plain src) p =
     (let ((wh', src'), res) = io_read (src_io cf) (wh, src) p in ((wh', Sv_plain src'), res))"
| "served_read cf (wh, Sv_event src off) p =
     (let (e, res) = io_read (nop_closer (encoder_io (src_io cf)))
            \<lparr>enc_reader = (wh, src), enc_offset = off\<rparr> p
      in ((fst (enc_reader e), Sv_event (snd (enc_reader e)) (enc_offset e)), res))"

fun served_close ::
  "('w, 'h, 'u) config \<Rightarrow> ('w \<times> 'h) \<times> served \<Rightarrow> (('w \<times> 'h) \<times> served) \<times> go_error option" where
  "served_close cf (wh, Sv_plain src) =
     (let ((wh', src'), err) = src_close cf (wh, src) in ((wh', Sv_plain src'), err))"
| "served_close cf (wh, Sv_event src off) = ((wh, Sv_event src off), None)"

fun served_renew :: "('w, 'h, 'u) config \<Rightarrow> ('w \<times> 'h) \<times> served \<Rightarrow> ('w \<times> 'h) \<times> served" where
  "served_renew cf ((w, h), Sv_plain src) =
     ((renewExpiry (cf_redis cf) w (src_reader src), h), Sv_plain src)"
| "served_renew cf ((w, h), Sv_event src off) =
     ((renewExpiry (cf_redis cf) w None, h), Sv_event src off)"

definition served_io :: "('w, 'h, 'u) config \<Rightarrow> (('w \<times> 'h) \<times> served) io" where
  "served_io cf = \<lparr>io_read = served_read cf, io_seek = (\<lambda>x off wh. None),
     io_close = (\<lambda>x. Some (served_close cf x)), io_renew = served_renew cf\<rparr>"

section \<open>newStorageReader and newReader\<close>

definition newStorageReader ::
  "('w, 'h, 'u) config \<Rightarrow> request \<Rightarrow> ('w, 'h) serv \<Rightarrow>
    ('w, 'h) serv \<times> source option \<times> go_error option" where
  "newStorageReader cf r s =
     (let offset = req_offset r
      in case newReader (cf_redis cf) (sv_redis s) (req_key r) of
           (w', Inl ErrNotRegistered) \<Rightarrow>
             (let (h', rd, err) = storage_Get (cf_http cf) (cf_urls cf) (cf_storageBaseURL cf)
                    (sv_http s) (req_requestURI r) offset
              in (s\<lparr>sv_redis := w', sv_http := h'\<rparr>, map_option Src_blob rd, err))
         | (w', Inl err) \<Rightarrow> (s\<lparr>sv_redis := w'\<rparr>, None, Some err)
         | (w', Inr rd) \<Rightarrow>
             (s\<lparr>sv_redis := w'\<rparr>,
              Some (Src_broker (if offset > 0 then fst (reader_seek rd offset 0) else rd)), None))"

text \<open>
  The result is the stream, or the reader and the error: the reader of a failed lookup has been
  closed, and \<open>errNoContent\<close> comes with no reader. The third case, no reader and no error, does
  not occur (\<open>newStorageReader_some\<close>).
\<close>

definition server_newReader ::
  "('w, 'h, 'u) config \<Rightarrow> request \<Rightarrow> ('w, 'h) serv \<Rightarrow>
    ('w, 'h) serv \<times> (source option \<times> go_error + served \<times> bytes)" where
  "server_newReader cf r s =
     (case newStorageReader cf r s of
        (s1, rd, Some err) \<Rightarrow>
          (case rd of
             Some src \<Rightarrow>
               (let (((w', h'), src'), _) = src_close cf ((sv_redis s1, sv_http s1), src)
                in (s1\<lparr>sv_redis := w', sv_http := h'\<rparr>, Inl (Some src', err)))
           | None \<Rightarrow> (s1, Inl (None, err)))
      | (s1, None, None) \<Rightarrow> (s1, Inl (None, ErrNotFound))
      | (s1, Some src, None) \<Rightarrow>
          (let ack = getNullByte;
               (w2, nocontent) = noContent (cf_redis cf) (sv_redis s1) (src_reader src) (req_offset r);
               s2 = s1\<lparr>sv_redis := w2\<rparr>
           in if nocontent then (s2, Inl (None, ErrNoContent))
              else if header_get (hr_headers r) ''Accept'' = ''text/event-stream''
              then (let s3 = setHeader ''Cache-Control'' ''no-cache''
                               (setHeader ''Content-Type'' ''text/event-stream'' s2);
                        (e, _, _) = enc_seek (src_io cf)
                          (newEncoder ((sv_redis s3, sv_http s3), src)) (req_offset r) 0
                    in (s3, Inr (Sv_event (snd (enc_reader e)) (enc_offset e), keepalive)))
              else (s2, Inr (Sv_plain src, ack))))"

section \<open>errors.go\<close>

definition handleError ::
  "('w, 'h, 'u) config \<Rightarrow> request \<Rightarrow> go_error \<Rightarrow> ('w, 'h) serv \<Rightarrow> ('w, 'h) serv" where
  "handleError cf r err s =
     (if err = ErrNotRegistered \<or> err = ErrNoStorage \<or> err = ErrNotFound
      then http_Error (if header_get (hr_headers r) ''Accept'' = ''text/ascii; version=feral''
             then cf_httpCatGone cf else ''Channel is not registered.'') 404 s
      else if err = ErrRange then writeHeader 416 s
      else if err = ErrNoContent then writeHeader 204 s
      else writeHeader 500 s)"

section \<open>writeflusher.go\<close>

text \<open>\<open>fails\<close>: the connection of the client is gone and \<open>Write\<close> returns an error.\<close>

definition writeFlusher_write :: "bool \<Rightarrow> bytes \<Rightarrow> 'a response_scheme \<Rightarrow> 'a response_scheme \<times> bool" where
  "writeFlusher_write fails p w =
     (let w1 = (if fails then commit 200 w else writeBody p w) in (flush w1, fails))"

section \<open>server.go\<close>

definition mkstream :: "('w, 'h, 'u) config \<Rightarrow> request \<Rightarrow> ('w, 'h) serv \<Rightarrow> ('w, 'h) serv" where
  "mkstream cf r s =
     (let (s1, uuid, err) = draw_uuid s
      in if err \<noteq> None
         then rollbar_Error ''unable to create new uuid for stream'' err
                (http_Error ''Unable to create stream. Please try again.'' 503 s1)
         else let (w', err) = registrar_register (cf_redis cf) (sv_redis s1) uuid;
                  s2 = s1\<lparr>sv_redis := w'\<rparr>
              in if err \<noteq> None
                 then rollbar_Error ''unable to register stream'' err
                        (http_Error ''Unable to create stream. Please try again.'' 503 s2)
                 else writeBody uuid s2)"

definition put_handler :: "('w, 'h, 'u) config \<Rightarrow> request \<Rightarrow> ('w, 'h) serv \<Rightarrow> ('w, 'h) serv" where
  "put_handler cf r s =
     (let (w', err) = registrar_register (cf_redis cf) (sv_redis s) (req_key r);
          s1 = s\<lparr>sv_redis := w'\<rparr>
      in if err \<noteq> None
         then rollbar_Error ''unable to register stream'' err
                (http_Error ''Unable to create stream. Please try again.'' 503 s1)
         else writeHeader 201 s1)"

definition health :: "request \<Rightarrow> ('w, 'h) serv \<Rightarrow> ('w, 'h) serv" where
  "health r s = writeBody ''OK'' s"

text \<open>
  \<open>bufio.Reader\<close> on the body and its \<open>WriteTo\<close>, which \<open>io.Copy\<close> calls: an empty write first,
  then a fill of the buffer and a write of what it holds, until a fill brings nothing. A fill
  takes one read that has data or an error, and gives up after 100 that have neither. The body
  whose list is used up is at its end.
\<close>

fun bufio_fill :: "nat \<Rightarrow> (bytes \<times> go_error option) list \<Rightarrow>
    bytes \<times> go_error option \<times> (bytes \<times> go_error option) list" where
  "bufio_fill 0 body =
     ([], Some (ErrOther ''multiple Read calls return no data or error''), body)"
| "bufio_fill (Suc i) [] = ([], Some EOF, [])"
| "bufio_fill (Suc i) ((d, err) # rest) =
     (if err \<noteq> None \<or> d \<noteq> [] then (d, err, rest) else bufio_fill i rest)"

lemma bufio_fill_shorter: "bufio_fill i body = (d, err, rest) \<Longrightarrow> d \<noteq> [] \<Longrightarrow> length rest < length body"
  by (induction i body rule: bufio_fill.induct) (fastforce split: if_splits)+

function copy_body ::
  "'w redis \<Rightarrow> string \<Rightarrow> 'w \<Rightarrow> (bytes \<times> go_error option) list \<Rightarrow> 'w \<times> go_error option" where
  "copy_body R c w body =
     (let fill = bufio_fill 100 body
      in if fst fill = [] then (w, if fst (snd fill) = Some EOF then None else fst (snd fill))
         else let wr = writer_write R w c (fst fill)
              in if snd (snd wr) \<noteq> None then (fst wr, snd (snd wr))
                 else copy_body R c (fst wr) (snd (snd fill)))"
  by pat_completeness auto
termination
  by (relation "measure (\<lambda>(R, c, w, body). length body)")
    (auto simp: bufio_fill_shorter [OF prod_eqI [OF _ prod_eqI]])

declare copy_body.simps [simp del]

definition io_copy_body ::
  "'w redis \<Rightarrow> string \<Rightarrow> 'w \<Rightarrow> (bytes \<times> go_error option) list \<Rightarrow> 'w \<times> go_error option" where
  "io_copy_body R c w body =
     (let (w1, _, err) = writer_write R w c []
      in if err \<noteq> None then (w1, err) else copy_body R c w1 body)"

text \<open>
  \<open>pub\<close>. The uploader goroutine is in \<open>sv_uploaders\<close> while it waits; closing \<open>done\<close> makes it
  start one last upload and end. The deferred \<open>Close\<close> of the writer runs on every path behind
  \<open>NewWriter\<close>.
\<close>

definition pub :: "('w, 'h, 'u) config \<Rightarrow> request \<Rightarrow> ('w, 'h) serv \<Rightarrow> ('w, 'h) serv" where
  "pub cf r s =
     (if \<not> sliceContains (hr_te r) ''chunked''
      then http_Error ''A chunked Transfer-Encoding header is required.'' 400 s
      else case newWriter (cf_redis cf) (sv_redis s) (req_key r) of
        (w1, Inl err) \<Rightarrow> handleError cf r err (s\<lparr>sv_redis := w1\<rparr>)
      | (w1, Inr c) \<Rightarrow>
          (let job = (req_key r, req_requestURI r);
               s1 = s\<lparr>sv_uploaders := sv_uploaders s @ [job]\<rparr>;
               (w2, err) = io_copy_body (cf_redis cf) c w1 (hr_body r);
               s2 = (case err of
                   None \<Rightarrow> s1\<lparr>sv_uploaders := sv_uploaders s, sv_uploads := sv_uploads s @ [job]\<rparr>
                 | Some e \<Rightarrow> (if e = ErrUnexpectedEOF then s1
                     else rollbar_Error ''unhandled error'' err (http_Error ''Unhandled error, please try again.'' 500 s1)));
               (w3, _) = writer_close (cf_redis cf) w2 c
           in s2\<lparr>sv_redis := w3\<rparr>))"

text \<open>A tick of \<open>StorageInterval\<close> in the uploader \<open>i\<close>, and an upload that runs.\<close>

definition uploader_tick :: "nat \<Rightarrow> ('w, 'h) serv \<Rightarrow> ('w, 'h) serv" where
  "uploader_tick i s =
     (if i < length (sv_uploaders s) then s\<lparr>sv_uploads := sv_uploads s @ [sv_uploaders s ! i]\<rparr> else s)"

definition storeOutput ::
  "('w, 'h, 'u) config \<Rightarrow> string \<Rightarrow> string \<Rightarrow> ('w, 'h) serv \<Rightarrow> ('w, 'h) serv" where
  "storeOutput cf channel requestURI s =
     (let (w', buf, err) = broker_get (cf_redis cf) (sv_redis s) channel;
          s1 = s\<lparr>sv_redis := w'\<rparr>
      in if err = None
         then (let (h', _, err) = storage_Put (cf_http cf) (cf_urls cf) (cf_storageBaseURL cf)
                     (sv_http s1) requestURI (Some buf)
               in s1\<lparr>sv_http := h'\<rparr>)
         else s1)"

text \<open>
  \<open>sub\<close>: either the response is complete, or a stream has begun that \<open>io.Copy\<close> goes on with.
  \<open>flusher\<close> is the type assertion on the response writer.
\<close>

definition sub ::
  "('w, 'h, 'u) config \<Rightarrow> bool \<Rightarrow> request \<Rightarrow> ('w, 'h) serv \<Rightarrow> ('w, 'h) serv \<times> ('w, 'h) stream option" where
  "sub cf flusher r s =
     (if \<not> flusher then (http_Error ''streaming unsupported'' 500 s, None)
      else case server_newReader cf r s of
        (s1, Inl (rd, err)) \<Rightarrow>
          (let s2 = handleError cf r err s1
           in case rd of None \<Rightarrow> (s2, None)
              | Some src \<Rightarrow>
                  (let (((w', h'), _), _) = src_close cf ((sv_redis s2, sv_http s2), src)
                   in (s2\<lparr>sv_redis := w', sv_http := h'\<rparr>, None)))
      | (s1, Inr (served, ack)) \<Rightarrow>
          (s1, Some (newKeepAliveReader ((sv_redis s1, sv_http s1), served) ack)))"

text \<open>
  One round of \<open>io.Copy(newWriteFlusher(w), rd)\<close>: a \<open>Read\<close> in the case \<open>c\<close> and a write of what
  it returned. The copy ends with an error of either, and the deferred \<open>Close\<close> runs.
\<close>

definition sub_copy ::
  "('w, 'h, 'u) config \<Rightarrow> ('w, 'h) serv \<Rightarrow> ('w, 'h) stream \<Rightarrow> ka_case \<Rightarrow> bool \<Rightarrow>
    ('w, 'h) serv \<times> ('w, 'h) stream \<times> bool go" where
  "sub_copy cf s k c fails =
     (case ka_read (served_io cf) k c (replicate (32 * 1024) CHR 0x00) of
        (k1, Return (p, n, err)) \<Rightarrow>
          (let (s1, bad) = (if n > 0 then writeFlusher_write fails (take n p) s else (s, False))
           in if bad \<or> err \<noteq> None
              then (s1, fst (ka_close (served_io cf) k1), Return False)
              else (s1, k1, Return True))
      | (k1, Panic m) \<Rightarrow> (s, k1, Panic m)
      | (k1, Blocked) \<Rightarrow> (s, k1, Blocked))"

text \<open>The routes of \<open>app\<close>; the router is a parameter that says which of them a request takes.\<close>

datatype route = R_health | R_streams | R_sub | R_pub | R_put

text \<open>
  The handler of each route but \<open>sub\<close>, whose stream outlives the call; \<open>None\<close> is a server that
  does not start.
\<close>

definition app_handler ::
  "('w, 'h, 'u) config \<Rightarrow> route \<Rightarrow> (request \<Rightarrow> ('w, 'h) serv \<Rightarrow> ('w, 'h) serv) option" where
  "app_handler cf rt =
     (case rt of
        R_health \<Rightarrow> Some (addDefaultHeaders health)
      | R_streams \<Rightarrow> serv_auth cf (addDefaultHeaders (mkstream cf))
      | R_sub \<Rightarrow> Some (addDefaultHeaders (\<lambda>r s. fst (sub cf True r s)))
      | R_pub \<Rightarrow> Some (addDefaultHeaders (pub cf))
      | R_put \<Rightarrow> serv_auth cf (addDefaultHeaders (put_handler cf)))"

definition app ::
  "('w, 'h, 'u) config \<Rightarrow> (request \<Rightarrow> route option) \<Rightarrow> (request \<Rightarrow> ('w, 'h) serv \<Rightarrow> ('w, 'h) serv) option" where
  "app cf router =
     (if app_handler cf R_streams = None then None
      else Some (logRequest (enforceHTTPS cf (\<lambda>r s.
        case router r of
          None \<Rightarrow> http_Error ''404 page not found'' 404 s
        | Some rt \<Rightarrow> (case app_handler cf rt of None \<Rightarrow> s | Some fn \<Rightarrow> fn r s)))))"

end
