(* ===== verification/Handlers.thy ===== *)
theory Handlers
  imports Server
begin

text \<open>
  What the handlers of \<open>Server\<close> guarantee: who gets past the middleware, what an upload leaves
  in Redis, what a subscriber is answered, what is logged.
\<close>

section \<open>Readers and writers in a server that answers\<close>

lemma newStorageReader_some: "newStorageReader cf r s = (s', None, e) \<Longrightarrow> e \<noteq> None"
proof -
  have one: "snd (snd (storage_get1 H L base h uri off)) = None \<Longrightarrow>
      fst (snd (storage_get1 H L base h uri off)) \<noteq> None" for H :: "('h, 'u) http" and L base h uri off
    by (auto simp: storage_get1_def storage_process_def Let_def split: sum.splits prod.splits)
  have loop: "snd (snd (get_loop H L base uri off i h rd e0)) = None \<Longrightarrow> e0 \<noteq> None \<or> 0 < i \<Longrightarrow>
      fst (snd (get_loop H L base uri off i h rd e0)) \<noteq> None"
    for H :: "('h, 'u) http" and L base uri off i h rd e0
  proof (induction i arbitrary: h rd e0)
    case (Suc i)
    with one [of H L base h uri off] show ?case
      by (auto simp: Let_def split: prod.splits if_splits)
  qed simp
  assume n: "newStorageReader cf r s = (s', None, e)"
  show "e \<noteq> None"
  proof
    assume "e = None"
    with n obtain w' h' where
      "storage_Get (cf_http cf) (cf_urls cf) (cf_storageBaseURL cf) (sv_http s) (req_requestURI r)
        (req_offset r) = (h', None, None)"
      by (auto simp: newStorageReader_def Let_def split: prod.splits sum.splits go_error.splits)
    with loop [of "cf_http cf" "cf_urls cf" "cf_storageBaseURL cf" "req_requestURI r" "req_offset r"
        retries "sv_http s" None None]
    show False by (simp add: storage_Get_def retries_def)
  qed
qed

context redis_up
begin

lemma isRegistered_up:
  "\<exists>w'. registrar_isRegistered R w c = (w', db_of w (chan_id c) \<noteq> None) \<and> db_of w' = db_of w"
proof -
  obtain w' rep where do: "r_do R w (EXISTS (chan_id c)) = (w', rep, None)" using do_up by blast
  from do_law [OF do] have "rep = RInt (if db_of w (chan_id c) = None then 0 else 1)" "db_of w' = db_of w"
    by (simp_all add: cmd_db.simps)
  then show ?thesis by (auto simp: registrar_isRegistered_def do reply_bool_def)
qed

lemma write_up:
  "\<exists>w'. writer_write R w c p = (w', length p, None)
    \<and> db_of w' = (db_of w)(chan_id c \<mapsto> (chan_val (db_of w) c @ p, Some 300), chan_doneId c := None)"
proof -
  obtain w' rep where "r_exec R w [APPEND (chan_id c) p, EXPIRE (chan_id c) redisChannelExpire,
      DEL (chan_doneId c), PUBLISH (chan_id c) ''1''] = (w', rep, None)" using exec_up by blast
  then have w: "writer_write R w c p = (w', length p, None)" by (simp add: writer_write_def)
  with write_db(1) [OF w] show ?thesis by blast
qed

lemma close_up:
  "\<exists>w'. writer_close R w c = (w', None)
    \<and> db_of w' = (db_of w)(chan_doneId c \<mapsto> ([CHR 0x01], Some 300))"
proof -
  obtain w' rep where "r_exec R w [SETEX (chan_doneId c) redisChannelExpire [CHR 0x01],
      PUBLISH (chan_killId c) ''1''] = (w', rep, None)" using exec_up by blast
  then have w: "writer_close R w c = (w', None)" by (simp add: writer_close_def)
  with close_db(1) [OF w] show ?thesis by blast
qed

lemma write_chan:
  assumes "db_of w' = (db_of w)(chan_id c \<mapsto> (chan_val (db_of w) c @ p, Some 300), chan_doneId c := None)"
  shows "channels_of (db_of w') = (channels_of (db_of w))(c := (Some (chan_val (db_of w) c @ p), False))"
    and "chan_val (db_of w') c = chan_val (db_of w) c @ p"
  unfolding assms by (simp_all add: chan_val_def)

text \<open>
  A body of chunks that are not empty, at its end or broken off with an error: all chunks are
  appended to the channel, whatever the end.
\<close>

lemma copy_body_appends:
  assumes "\<forall>d \<in> set ds. d \<noteq> []" and "tl ending = []" and "ending = [] \<or> (\<exists>e. ending = [([], Some e)])"
  shows "\<exists>w'. copy_body R c w (map (\<lambda>d. (d, None)) ds @ ending)
      = (w', (case ending of [] \<Rightarrow> None | (_, e) # _ \<Rightarrow> if e = Some EOF then None else e))
    \<and> (ds \<noteq> [] \<longrightarrow> channels_of (db_of w')
        = (channels_of (db_of w))(c := (Some (chan_val (db_of w) c @ concat ds), False)))
    \<and> (ds = [] \<longrightarrow> w' = w)"
  using assms(1)
proof (induction ds arbitrary: w)
  case Nil
  have "bufio_fill 100 ending = ([], (case ending of [] \<Rightarrow> Some EOF | (_, e) # _ \<Rightarrow> e), [])"
    using assms(3) by (auto simp: numeral_eq_Suc)
  then show ?case using assms(3) by (auto simp: copy_body.simps [of R c w] Let_def)
next
  case (Cons d ds)
  then have d: "d \<noteq> []" by simp
  have fill: "bufio_fill 100 ((d, None) # map (\<lambda>d. (d, None)) ds @ ending)
      = (d, None, map (\<lambda>d. (d, None)) ds @ ending)"
    using d by (simp add: numeral_eq_Suc)
  obtain w1 where w1: "writer_write R w c d = (w1, length d, None)"
    "db_of w1 = (db_of w)(chan_id c \<mapsto> (chan_val (db_of w) c @ d, Some 300), chan_doneId c := None)"
    using write_up by blast
  note wc = write_chan [OF w1(2)]
  have "\<forall>d \<in> set ds. d \<noteq> []" using Cons.prems by simp
  from Cons.IH [OF this, of w1] obtain w' where w':
    "copy_body R c w1 (map (\<lambda>d. (d, None)) ds @ ending)
      = (w', (case ending of [] \<Rightarrow> None | (_, e) # _ \<Rightarrow> if e = Some EOF then None else e))"
    "ds \<noteq> [] \<longrightarrow> channels_of (db_of w')
      = (channels_of (db_of w1))(c := (Some (chan_val (db_of w1) c @ concat ds), False))"
    "ds = [] \<longrightarrow> w' = w1" by blast
  have "copy_body R c w (map (\<lambda>d. (d, None)) (d # ds) @ ending)
      = (w', (case ending of [] \<Rightarrow> None | (_, e) # _ \<Rightarrow> if e = Some EOF then None else e))"
    using d by (subst copy_body.simps) (simp add: fill Let_def w1(1) w'(1))
  moreover have "channels_of (db_of w')
      = (channels_of (db_of w))(c := (Some (chan_val (db_of w) c @ concat (d # ds)), False))"
    using w'(2,3) wc by (cases "ds = []") (simp_all only: concat.simps append_assoc append_Nil2 fun_upd_upd simp_thms)
  ultimately show ?case by (simp only: list.distinct(2) simp_thms) blast
qed

lemma io_copy_appends:
  assumes "\<forall>d \<in> set ds. d \<noteq> []" and "tl ending = []" and "ending = [] \<or> (\<exists>e. ending = [([], Some e)])"
  shows "\<exists>w'. io_copy_body R c w (map (\<lambda>d. (d, None)) ds @ ending)
      = (w', (case ending of [] \<Rightarrow> None | (_, e) # _ \<Rightarrow> if e = Some EOF then None else e))
    \<and> channels_of (db_of w')
        = (channels_of (db_of w))(c := (Some (chan_val (db_of w) c @ concat ds), False))"
proof -
  obtain w1 where w1: "writer_write R w c [] = (w1, length ([] :: bytes), None)"
    "db_of w1 = (db_of w)(chan_id c \<mapsto> (chan_val (db_of w) c @ [], Some 300), chan_doneId c := None)"
    using write_up by blast
  note wc = write_chan [OF w1(2)]
  from copy_body_appends [OF assms, of c w1] obtain w' where w':
    "copy_body R c w1 (map (\<lambda>d. (d, None)) ds @ ending)
      = (w', (case ending of [] \<Rightarrow> None | (_, e) # _ \<Rightarrow> if e = Some EOF then None else e))"
    "ds \<noteq> [] \<longrightarrow> channels_of (db_of w')
      = (channels_of (db_of w1))(c := (Some (chan_val (db_of w1) c @ concat ds), False))"
    "ds = [] \<longrightarrow> w' = w1" by blast
  have "channels_of (db_of w')
      = (channels_of (db_of w))(c := (Some (chan_val (db_of w) c @ concat ds), False))"
    using w'(2,3) wc by (cases "ds = []") (simp_all only: concat.simps append_assoc append_Nil2 append_Nil fun_upd_upd simp_thms)
  then show ?thesis using w'(1) by (intro exI [of _ w']) (simp add: io_copy_body_def w1(1))
qed

lemma close_chan:
  assumes "db_of w' = (db_of w)(chan_doneId c \<mapsto> ([CHR 0x01], Some 300))"
  shows "channels_of (db_of w') = (channels_of (db_of w))(c := (fst (channels_of (db_of w) c), True))"
  unfolding assms channels_of_upd(2) by (simp add: channels_of_def)

lemma get_up:
  assumes "fst (channels_of (db_of w) c) = Some v"
  shows "\<exists>w'. broker_get R w c = (w', v, None)"
proof -
  obtain w' rep where do: "r_do R w (GET (chan_id c)) = (w', rep, None)" using do_up by blast
  with do_law [OF do] assms show ?thesis
    by (auto simp: broker_get_def reply_bytes_def channels_of_def db_get_def split: option.splits)
qed

text \<open>The end of a body: its result for \<open>io.Copy\<close>.\<close>

lemma pub_db:
  assumes "R = cf_redis cf"
    and "''chunked'' \<in> set (hr_te r)" and "db_of (sv_redis s) (chan_id (req_key r)) \<noteq> None"
    and "hr_body r = map (\<lambda>d. (d, None)) ds @ ending" and "\<forall>d \<in> set ds. d \<noteq> []"
    and "ending = [] \<or> ending = [([], Some e)]"
  shows "channels_of (db_of (sv_redis (pub cf r s))) = (channels_of (db_of (sv_redis s)))
      (req_key r := (Some (chan_val (db_of (sv_redis s)) (req_key r) @ concat ds), True))"
    and "pub cf r s = (let s1 = (if ending = [] \<or> e = EOF
        then s\<lparr>sv_uploads := sv_uploads s @ [(req_key r, req_requestURI r)]\<rparr>
        else if e = ErrUnexpectedEOF
        then s\<lparr>sv_uploaders := sv_uploaders s @ [(req_key r, req_requestURI r)]\<rparr>
        else rollbar_Error ''unhandled error'' (Some e) (http_Error ''Unhandled error, please try again.'' 500
          (s\<lparr>sv_uploaders := sv_uploaders s @ [(req_key r, req_requestURI r)]\<rparr>)))
      in s1\<lparr>sv_redis := sv_redis (pub cf r s)\<rparr>)"
proof -
  let ?c = "req_key r"
  obtain w1 where w1: "registrar_isRegistered R (sv_redis s) ?c = (w1, True)"
    "db_of w1 = db_of (sv_redis s)" using isRegistered_up [of "sv_redis s" ?c] assms(3) by auto
  then have nw: "newWriter R (sv_redis s) ?c = (w1, Inr ?c)" by (simp add: newWriter_def)
  have e: "tl ending = []" "ending = [] \<or> (\<exists>e. ending = [([], Some e)])" using assms(6) by auto
  from io_copy_appends [OF assms(5) e, of ?c w1] obtain w2 where w2:
    "io_copy_body R ?c w1 (hr_body r)
      = (w2, (case ending of [] \<Rightarrow> None | (_, e) # _ \<Rightarrow> if e = Some EOF then None else e))"
    "channels_of (db_of w2)
      = (channels_of (db_of (sv_redis s)))(?c := (Some (chan_val (db_of (sv_redis s)) ?c @ concat ds), False))"
    unfolding assms(4) w1(2) by blast
  obtain w3 where w3: "writer_close R w2 ?c = (w3, None)"
    "db_of w3 = (db_of w2)(chan_doneId ?c \<mapsto> ([CHR 0x01], Some 300))" using close_up by blast
  have p: "pub cf r s = (let s1 = (if ending = [] \<or> e = EOF
        then s\<lparr>sv_uploads := sv_uploads s @ [(?c, req_requestURI r)]\<rparr>
        else if e = ErrUnexpectedEOF then s\<lparr>sv_uploaders := sv_uploaders s @ [(?c, req_requestURI r)]\<rparr>
        else rollbar_Error ''unhandled error'' (Some e) (http_Error ''Unhandled error, please try again.'' 500
          (s\<lparr>sv_uploaders := sv_uploaders s @ [(?c, req_requestURI r)]\<rparr>)))
      in s1\<lparr>sv_redis := w3\<rparr>)"
    using assms(2,6) nw w2(1) w3(1) by (auto simp: pub_def assms(1) Let_def)
  then have r: "sv_redis (pub cf r s) = w3" by (simp add: Let_def)
  have "channels_of (db_of w3) = (channels_of (db_of (sv_redis s)))
      (?c := (Some (chan_val (db_of (sv_redis s)) ?c @ concat ds), True))"
    unfolding close_chan [OF w3(2)] w2(2) by (simp add: fun_upd_upd)
  then show "channels_of (db_of (sv_redis (pub cf r s))) = (channels_of (db_of (sv_redis s)))
      (?c := (Some (chan_val (db_of (sv_redis s)) ?c @ concat ds), True))" by (simp only: r)
  show "pub cf r s = (let s1 = (if ending = [] \<or> e = EOF
        then s\<lparr>sv_uploads := sv_uploads s @ [(?c, req_requestURI r)]\<rparr>
        else if e = ErrUnexpectedEOF then s\<lparr>sv_uploaders := sv_uploaders s @ [(?c, req_requestURI r)]\<rparr>
        else rollbar_Error ''unhandled error'' (Some e) (http_Error ''Unhandled error, please try again.'' 500
          (s\<lparr>sv_uploaders := sv_uploaders s @ [(?c, req_requestURI r)]\<rparr>)))
      in s1\<lparr>sv_redis := sv_redis (pub cf r s)\<rparr>)" using p r by (simp only:)
qed

end

section \<open>Log lines\<close>

text \<open>One call of \<open>WriteHeader\<close> at most, and none behind a response that has begun.\<close>

definition one_status :: "'a response_scheme \<Rightarrow> bool" where
  "one_status s \<longleftrightarrow> rp_calls s = [] \<and> (rp_status s = None \<or> rp_status s = Some 200)
     \<or> (\<exists>c. rp_calls s = [c] \<and> rp_status s = Some c)"

definition fresh :: "'a response_scheme \<Rightarrow> bool" where
  "fresh s \<longleftrightarrow> rp_calls s = [] \<and> rp_status s = None"

named_theorems response_simps

lemma response_simps1 [response_simps]:
  "fresh s \<Longrightarrow> one_status s" "fresh s \<Longrightarrow> one_status (writeHeader c s)"
  "fresh s \<Longrightarrow> one_status (writeBody b s)" "fresh (setHeader k v s) = fresh s"
  "fresh s \<Longrightarrow> one_status (http_Error m c s)"
  "fresh s \<Longrightarrow> one_status (http_Redirect r u c m s)"
  by (auto simp: fresh_def one_status_def writeHeader_def writeBody_def commit_def setHeader_def
      http_Error_def http_Redirect_def Let_def)

lemma response_fields [response_simps]:
  "fresh (s\<lparr>sv_redis := w\<rparr>) = fresh s" "one_status (s\<lparr>sv_redis := w\<rparr>) = one_status s"
  "fresh (s\<lparr>sv_http := h\<rparr>) = fresh s" "one_status (s\<lparr>sv_http := h\<rparr>) = one_status s"
  "fresh (s\<lparr>sv_rand := f\<rparr>) = fresh s" "fresh (s\<lparr>sv_uploads := u\<rparr>) = fresh s"
  "one_status (s\<lparr>sv_uploads := u\<rparr>) = one_status s" "fresh (s\<lparr>sv_uploaders := u\<rparr>) = fresh s"
  "one_status (s\<lparr>sv_uploaders := u\<rparr>) = one_status s" "one_status (s\<lparr>sv_log := l\<rparr>) = one_status s"
  "one_status (rollbar_Error m e s) = one_status s"
  by (simp_all add: fresh_def one_status_def rollbar_Error_def)

lemma handleError_status: "fresh s \<Longrightarrow> one_status (handleError cf r e s)"
  by (auto simp: handleError_def response_simps)

lemma server_newReader_status: "fresh s \<Longrightarrow> server_newReader cf r s = (s', x) \<Longrightarrow> fresh s'"
  by (auto simp: server_newReader_def newStorageReader_def Let_def response_simps
      split: prod.splits option.splits sum.splits go_error.splits if_splits)

lemma handler_status:
  "fresh s \<Longrightarrow> one_status (mkstream cf r s)" "fresh s \<Longrightarrow> one_status (put_handler cf r s)"
  "fresh s \<Longrightarrow> one_status (health r s)"
  by (auto simp: mkstream_def put_handler_def health_def draw_uuid_def Let_def response_simps
      split: prod.splits)

lemma sub_status: "fresh s \<Longrightarrow> one_status (fst (sub cf fl r s))"
  using server_newReader_status [of s cf r]
  by (auto simp: sub_def Let_def response_simps handleError_status split: prod.splits sum.splits option.splits)

lemma pub_status: "fresh s \<Longrightarrow> one_status (pub cf r s)"
  by (auto simp: pub_def Let_def response_simps handleError_status split: prod.splits sum.splits option.splits)

lemma addDefaultHeaders_status:
  assumes "\<And>s. fresh s \<Longrightarrow> one_status (fn r s)" and "fresh s"
  shows "one_status (addDefaultHeaders fn r s)"
  using assms by (simp add: addDefaultHeaders_def Let_def response_simps)

lemma serv_auth_status:
  assumes "serv_auth cf fn = Some gn" and "\<And>s. fresh s \<Longrightarrow> one_status (fn r s)" and "fresh s"
  shows "one_status (gn r s)"
  using assms by (auto simp: serv_auth_def wrapAuth_def response_simps split: if_splits prod.splits option.splits)

lemma app_handler_status:
  assumes "app_handler cf rt = Some fn" and "fresh s"
  shows "one_status (fn r s)"
  using assms
  by (auto simp: app_handler_def intro: addDefaultHeaders_status handler_status sub_status pub_status
      elim!: serv_auth_status split: route.splits)

lemma draw_status: "fresh (fst (requestId r s)) = fresh s" "rp_calls (fst (requestId r s)) = rp_calls s"
  by (simp_all add: requestId_def draw_uuid_def fresh_def Let_def split: prod.splits)

section \<open>Configurations for the witnesses\<close>

definition demo_config :: "string \<Rightarrow> bool \<Rightarrow> (refworld, http_response list, string) config" where
  "demo_config creds https = \<lparr>cf_redis = ref_redis, cf_http = script_http, cf_urls = script_url,
     cf_bodyRead = (\<lambda>h b p. (h, Return (p, 0, Some EOF))), cf_storageBaseURL = [], cf_creds = creds,
     cf_enforceHTTPS = https, cf_httpCatGone = ''GONE''\<rparr>"

definition demo_serv :: "refworld \<Rightarrow> (refworld, http_response list) serv" where
  "demo_serv w = \<lparr>rp_headers = [], rp_status = None, rp_body = [], rp_calls = [], rp_flushed = 0,
     sv_redis = w, sv_http = [], sv_rand = (\<lambda>i. (replicate 16 CHR 0x61, 16, None)),
     sv_uploaders = [], sv_uploads = [], sv_log = [], sv_reports = []\<rparr>"

section \<open>Properties\<close>

text \<open>
  C10. An upload is appended to its channel whole and the channel is closed, however the body
  ends: all chunks read before the end, in order, behind what the channel held, and nothing
  elsewhere.
\<close>

theorem pub_appends_body:
  assumes "redis_up (cf_redis cf) db_of inbox pats"
    and "''chunked'' \<in> set (hr_te r)" and "db_of (sv_redis s) (chan_id (req_key r)) \<noteq> None"
    and "hr_body r = map (\<lambda>d. (d, None)) ds @ ending" and "\<forall>d \<in> set ds. d \<noteq> []"
    and "ending = [] \<or> ending = [([], Some e)]"
  shows "channels_of (db_of (sv_redis (pub cf r s))) = (channels_of (db_of (sv_redis s)))
    (req_key r := (Some (chan_val (db_of (sv_redis s)) (req_key r) @ concat ds), True))"
  by (rule redis_up.pub_db(1) [OF assms(1) refl assms(2-6)])

definition demo_pub :: "go_error \<Rightarrow> request" where
  "demo_pub e = \<lparr>hr_method = ''POST'', hr_path = ''/streams/k'', hr_query = [], hr_host = ''busl'',
     hr_headers = [], hr_te = [''chunked''], hr_key = ''k'',
     hr_body = [(''ab'', None), (''c'', None), ([], Some e)]\<rparr>"

lemma demo_pub_body: "hr_body (demo_pub e) = map (\<lambda>d. (d, None)) [''ab'', ''c''] @ [([], Some e)]"
  "\<forall>d \<in> set [''ab'', ''c'']. d \<noteq> []" "''chunked'' \<in> set (hr_te (demo_pub e))" "req_key (demo_pub e) = ''k''"
  by (simp_all add: demo_pub_def req_key_def)

lemma demo_pub_registered:
  "rw_db (sv_redis (demo_serv (expiry_run ''k'' ''data'' 9 9))) (chan_id (req_key (demo_pub e))) \<noteq> None"
  "chan_val (rw_db (sv_redis (demo_serv (expiry_run ''k'' ''data'' 9 9)))) ''k'' = ''data''"
  using expiry_run_db(1) [of 9 9 "''k''" "''data''"]
  by (simp_all add: demo_serv_def demo_pub_body chan_val_def db_get_def)

theorem pub_appends_body_witness:
  "channels_of (rw_db (sv_redis (pub (demo_config [] False) (demo_pub ErrUnexpectedEOF)
      (demo_serv (expiry_run ''k'' ''data'' 9 9))))) ''k'' = (Some ''dataabc'', True)"
proof -
  have "redis_up (cf_redis (demo_config [] False)) rw_db rw_inbox rw_pats"
    using refred.redis_up_axioms by (simp add: demo_config_def)
  from pub_appends_body [OF this demo_pub_body(3) demo_pub_registered(1) demo_pub_body(1,2) disjI2 [OF refl]]
  show ?thesis by (simp add: demo_pub_body(4) demo_pub_registered(2))
qed




definition demo_put :: request where
  "demo_put = \<lparr>hr_method = ''PUT'', hr_path = ''/streams/k'', hr_query = [], hr_host = ''busl'',
     hr_headers = [], hr_te = [], hr_key = ''k'', hr_body = []\<rparr>"


end
