(* ===== verification/Streams.thy ===== *)
theory Streams
  imports Handlers
begin

text \<open>
  The streams of \<open>sub\<close>: where they start, that every byte of their source comes through the
  layers of the server in order, what is flushed, what is logged, and what a stream that is
  refused leaves behind.
\<close>

section \<open>The layers keep the contract of io.Reader\<close>

definition body_contract :: "('w, 'h, 'u) config \<Rightarrow> bool" where
  "body_contract cf \<longleftrightarrow> (\<forall>h b p h' p' n err. cf_bodyRead cf h b p = (h', Return (p', n, err)) \<longrightarrow>
     n \<le> length p \<and> length p' = length p)"

definition src_ok :: "('w \<Rightarrow> db) \<Rightarrow> ('w \<times> 'h) \<times> source \<Rightarrow> bool" where
  "src_ok db_of x = (case snd x of Src_broker r \<Rightarrow> sane (db_of (fst (fst x))) r 1 | Src_blob b \<Rightarrow> True)"

fun served_ok :: "('w \<Rightarrow> db) \<Rightarrow> ('w \<times> 'h) \<times> served \<Rightarrow> bool" where
  "served_ok db_of (wh, Sv_plain src) = src_ok db_of (wh, src)"
| "served_ok db_of (wh, Sv_event src off) = src_ok db_of (wh, src)"

lemma src_reader:
  assumes up: "redis_up (cf_redis cf) db_of inbox pats" and body: "body_contract cf"
  shows "io_reader (src_io cf) (src_ok db_of)"
proof
  fix x x' :: "('a \<times> 'b) \<times> source" and p p' :: bytes and n err
  assume ok: "src_ok db_of x" "p \<noteq> []" "int (length p) < 2 ^ 62"
  obtain w h src where x: "x = ((w, h), src)" by (metis prod.collapse)
  have srv: "redis_server (cf_redis cf) db_of inbox pats"
    using up by (simp add: redis_up_def redis_pubsub_def)
  show "n \<le> length p \<and> length p' = length p \<and> src_ok db_of x'"
    if io: "io_read (src_io cf) x p = (x', Return (p', n, err))"
  proof (cases src)
    case (Src_broker r)
    then have s: "sane (db_of w) r (length p)" using ok by (simp add: x src_ok_def sane_any [of _ _ "length p"])
    obtain w' r' where rd: "reader_read (cf_redis cf) w r p = (w', r', Return (p', n, err))"
      and x': "x' = ((w', h), Src_broker r')"
      using io by (auto simp: x Src_broker src_io_def split: prod.splits)
    from redis_server.read_fits [OF srv rd s] x' show ?thesis
      by (simp add: src_ok_def sane_any [of _ _ "length p"])
  next
    case (Src_blob b)
    with io obtain h' where b: "cf_bodyRead cf h b p = (h', Return (p', n, err))" "x' = ((w, h'), Src_blob b)"
      by (auto simp: x src_io_def split: prod.splits)
    from body b(1) have "n \<le> length p \<and> length p' = length p" unfolding body_contract_def by blast
    with b(2) show ?thesis by (simp add: src_ok_def)
  qed
  show "src_ok db_of x'" if io: "io_read (src_io cf) x p = (x', Blocked)"
  proof (cases src)
    case (Src_broker r)
    then have s: "sane (db_of w) r (length p)" using ok by (simp add: x src_ok_def sane_any [of _ _ "length p"])
    obtain w' r' where rd: "reader_read (cf_redis cf) w r p = (w', r', Blocked)"
      and x': "x' = ((w', h), Src_broker r')"
      using io by (auto simp: x Src_broker src_io_def split: prod.splits)
    from redis_server.read_blocked [OF srv rd s] x' show ?thesis
      by (simp add: src_ok_def sane_any [of _ _ "length p"])
  next
    case (Src_blob b)
    with io show ?thesis by (auto simp: x src_io_def src_ok_def split: prod.splits)
  qed
next
  fix x :: "('a \<times> 'b) \<times> source" assume ok: "src_ok db_of x"
  obtain w h src where x: "x = ((w, h), src)" by (metis prod.collapse)
  show "src_ok db_of (io_renew (src_io cf) x)"
  proof (cases src)
    case (Src_broker r)
    with ok redis_up.renew_channels_of [OF up, of w r] show ?thesis
      by (simp add: x src_io_def src_ok_def sane_def chan_val_view)
  next
    case (Src_blob b)
    then show ?thesis by (simp add: x src_io_def src_ok_def)
  qed
qed

lemma served_reader:
  assumes up: "redis_up (cf_redis cf) db_of inbox pats" and body: "body_contract cf"
  shows "io_reader (served_io cf) (served_ok db_of)"
proof
  note src = src_reader [OF up body]
  note enc = io_reader.nop_reader [OF io_reader.encoder_reader [OF src]]
  fix x x' :: "('a \<times> 'b) \<times> served" and p p' :: bytes and n err
  assume ok: "served_ok db_of x" "p \<noteq> []" "int (length p) < 2 ^ 62"
  obtain wh sv where x: "x = (wh, sv)" by (rule prod.exhaust)
  show "n \<le> length p \<and> length p' = length p \<and> served_ok db_of x'"
    if io: "io_read (served_io cf) x p = (x', Return (p', n, err))"
  proof (cases sv)
    case (Sv_plain s)
    with ok have s: "src_ok db_of (wh, s)" by (simp add: x)
    obtain y where "io_read (src_io cf) (wh, s) p = (y, Return (p', n, err))" "x' = (fst y, Sv_plain (snd y))"
      using io by (auto simp: x Sv_plain served_io_def split: prod.splits)
    with io_reader.read_fits [OF src s ok(2,3)] show ?thesis by fastforce
  next
    case (Sv_event s off)
    let ?e = "\<lparr>enc_reader = (wh, s), enc_offset = off\<rparr>"
    have s: "src_ok db_of (enc_reader ?e)" using ok by (simp add: x Sv_event)
    obtain e where "io_read (nop_closer (encoder_io (src_io cf))) ?e p = (e, Return (p', n, err))"
      "x' = (fst (enc_reader e), Sv_event (snd (enc_reader e)) (enc_offset e))"
      using io by (auto simp: x Sv_event served_io_def split: prod.splits)
    with io_reader.read_fits [OF enc s ok(2,3)] show ?thesis by fastforce
  qed
  show "served_ok db_of x'" if io: "io_read (served_io cf) x p = (x', Blocked)"
  proof (cases sv)
    case (Sv_plain s)
    with ok have s: "src_ok db_of (wh, s)" by (simp add: x)
    obtain y where "io_read (src_io cf) (wh, s) p = (y, Blocked)" "x' = (fst y, Sv_plain (snd y))"
      using io by (auto simp: x Sv_plain served_io_def split: prod.splits)
    with io_reader.read_blocked [OF src s ok(2,3)] show ?thesis by fastforce
  next
    case (Sv_event s off)
    let ?e = "\<lparr>enc_reader = (wh, s), enc_offset = off\<rparr>"
    have s: "src_ok db_of (enc_reader ?e)" using ok by (simp add: x Sv_event)
    obtain e where "io_read (nop_closer (encoder_io (src_io cf))) ?e p = (e, Blocked)"
      "x' = (fst (enc_reader e), Sv_event (snd (enc_reader e)) (enc_offset e))"
      using io by (auto simp: x Sv_event served_io_def split: prod.splits)
    with io_reader.read_blocked [OF enc s ok(2,3)] show ?thesis by fastforce
  qed
next
  note src = src_reader [OF up body]
  fix x :: "('a \<times> 'b) \<times> served" assume ok: "served_ok db_of x"
  obtain w h sv where x: "x = ((w, h), sv)" by (metis prod.collapse)
  show "served_ok db_of (io_renew (served_io cf) x)"
  proof (cases sv)
    case (Sv_plain s)
    with io_reader.renew_keeps [OF src, of "((w, h), s)"] ok show ?thesis
      by (simp add: x served_io_def src_io_def)
  next
    case (Sv_event s off)
    with ok show ?thesis by (simp add: x served_io_def renewExpiry_def src_ok_def split: source.splits)
  qed
qed

section \<open>Where a stream starts\<close>

lemma i64_le: "2 ^ 63 \<le> un \<Longrightarrow> is_i64 (2 ^ 63 - 1)" "is_i64 (- (2 ^ 63))"
  by (simp_all add: is_i64_def)

lemma atoi_range: "is_i64 (fst (atoi s))"
  by (auto simp: atoi_def parse_int_def is_i64_def Let_def not_le split: list.splits prod.splits)

lemma req_offset_range: "is_i64 (req_offset r)"
  by (simp add: req_offset_def atoi_range Let_def)

lemma seek_range: "is_i64 (rd_offset r) \<Longrightarrow> is_i64 off \<Longrightarrow> is_i64 (rd_offset (fst (reader_seek r off 0)))"
  by (simp add: reader_seek_def Let_def)

lemma seek_channel: "rd_channel (fst (reader_seek r off wh)) = rd_channel r"
  by (simp add: reader_seek_def Let_def)

definition bounded :: "db \<Rightarrow> bool" where
  "bounded d \<longleftrightarrow> (\<forall>c. int (length (chan_val d c)) < 2 ^ 62)"

definition start_ok :: "source \<Rightarrow> bool" where
  "start_ok src = (case src of Src_broker r \<Rightarrow> is_i64 (rd_offset r) | Src_blob b \<Rightarrow> True)"

lemma src_ok_bounded: "bounded (db_of (fst wh)) \<Longrightarrow> src_ok db_of (wh, src) = start_ok src"
  by (auto simp: src_ok_def start_ok_def sane_def bounded_def split: source.splits)

lemma newStorageReader_start: "newStorageReader cf r s = (s', Some src, e) \<Longrightarrow> start_ok src"
  using req_offset_range [of r]
  by (auto simp: newStorageReader_def newReader_def new_reader_def start_ok_def Let_def is_i64_def
      reader_seek_def
      split: prod.splits sum.splits go_error.splits if_splits option.splits)

lemma seek_start:
  "start_ok (snd (enc_reader e)) \<Longrightarrow> is_i64 off \<Longrightarrow>
   start_ok (snd (enc_reader (fst (enc_seek (src_io cf) e off 0))))"
  by (cases "enc_reader e"; cases "snd (enc_reader e)")
    (auto simp: enc_seek_def src_io_def start_ok_def reader_seek_def Let_def)

fun served_src :: "served \<Rightarrow> source" where
  "served_src (Sv_plain s) = s"
| "served_src (Sv_event s off) = s"

lemma server_newReader_start:
  assumes "server_newReader cf r s = (s', Inr (sv, ack))"
  shows "start_ok (served_src sv)"
proof -
  obtain s1 src where n: "newStorageReader cf r s = (s1, Some src, None)"
    using assms by (auto simp: server_newReader_def Let_def split: prod.splits option.splits if_splits)
  note st = newStorageReader_start [OF n]
  have "start_ok (snd (enc_reader (fst (enc_seek (src_io cf) (newEncoder (wh, src)) (req_offset r) 0))))" for wh
    by (rule seek_start) (simp_all add: newEncoder_def st req_offset_range)
  with assms n st show ?thesis
    by (auto simp: server_newReader_def Let_def split: prod.splits if_splits) (metis fst_conv)
qed

section \<open>Properties\<close>


definition demo_get :: "header \<Rightarrow> request" where
  "demo_get hs = \<lparr>hr_method = ''GET'', hr_path = ''/streams/k'', hr_query = [], hr_host = ''busl'',
     hr_headers = hs, hr_te = [], hr_key = ''k'', hr_body = []\<rparr>"

text \<open>A subscriber of a channel that is open and holds \<open>data\<close>.\<close>

definition open_channel :: "bytes \<Rightarrow> refworld" where
  "open_channel p = fst (op_calls ref_redis ref_empty [Op_register ''k'', Op_write ''k'' p])"

lemma open_channel_bounded: "bounded (rw_db (open_channel ''data''))"
proof -
  have v: "chan_val (rw_db (open_channel ''data'')) c = (if c = ''k'' then ''data'' else [])" for c
  proof -
    define w where "w = fst (registrar_register ref_redis ref_empty ''k'')"
    have "open_channel ''data'' = fst (writer_write ref_redis w ''k'' ''data'')"
      using ref_register(2) [of ref_empty "''k''"] ref_write(2) [of w "''k''" "''data''"]
      by (auto simp: open_channel_def w_def split: prod.splits)
    then show ?thesis
      by (simp add: ref_write(1) chan_val_def) (simp add: w_def ref_register(1) ref_empty_def db_get_def)
  qed
  show ?thesis by (simp add: bounded_def v)
qed

lemma ref_do_db: "rw_db (fst (r_do ref_redis w c)) = cmd_db (rw_db w) c"
  by (simp add: ref_redis_def ref_exec_def cmds_db.simps)

lemma ref_do_db_eq: "r_do ref_redis w c = (w', x) \<Longrightarrow> rw_db w' = cmd_db (rw_db w) c"
  using ref_do_db [of w c] by simp

lemma ref_lookups_db:
  "rw_db (fst (registrar_isRegistered ref_redis w c)) = rw_db w"
  "rw_db (fst (newReader ref_redis w c)) = rw_db w"
  "rw_db (fst (readerDone ref_redis w rd)) = rw_db w"
  "rw_db (fst (noContent ref_redis w rd off)) = rw_db w"
proof -
  show reg: "rw_db (fst (registrar_isRegistered ref_redis w c)) = rw_db w" for w
    using ref_do_db [of w "EXISTS (chan_id c)"]
    by (cases "r_do ref_redis w (EXISTS (chan_id c))")
      (simp add: registrar_isRegistered_def Let_def cmd_db.simps split: prod.split)
  have "r_psubscribe ref_redis w p = (w', x) \<Longrightarrow> rw_db w' = rw_db w" for w w' p x
    by (auto simp: ref_redis_def)
  with reg [of w] show "rw_db (fst (newReader ref_redis w c)) = rw_db w"
    by (auto simp: newReader_def Let_def split: prod.splits)
  show don: "rw_db (fst (readerDone ref_redis w rd)) = rw_db w"
    by (auto simp: readerDone_def Let_def cmd_db.simps dest!: ref_do_db_eq split: prod.splits option.splits)
  show "rw_db (fst (noContent ref_redis w rd off)) = rw_db w"
  proof (cases rd)
    case (Some r)
    obtain w1 b where d: "readerDone ref_redis w rd = (w1, b)" by (rule prod.exhaust)
    obtain w2 rep e where s: "r_do ref_redis w1 (STRLEN (chan_id (rd_channel r))) = (w2, rep, e)"
      by (rule prod_cases3)
    have "rw_db w1 = rw_db w" "rw_db w2 = rw_db w1"
      using don d ref_do_db [of w1 "STRLEN (chan_id (rd_channel r))"] s by (simp_all add: cmd_db.simps)
    with d s Some show ?thesis by (simp add: noContent_def Let_def split: prod.split)
  qed (simp add: noContent_def readerDone_def)
qed

lemma ref_newStorageReader_db:
  "cf_redis cf = ref_redis \<Longrightarrow> newStorageReader cf r s = (s', x) \<Longrightarrow> rw_db (sv_redis s') = rw_db (sv_redis s)"
  using ref_lookups_db(2) [of "sv_redis s" "req_key r"]
  by (auto simp: newStorageReader_def Let_def split: prod.splits sum.splits go_error.splits)

lemma ref_sub_db:
  assumes "sub (demo_config creds https) fl r s = (s', Some k)"
  shows "rw_db (sv_redis s') = rw_db (sv_redis s)"
proof -
  let ?cf = "demo_config creds https"
  have cf: "cf_redis ?cf = ref_redis" by (simp add: demo_config_def)
  obtain sv ack where n: "server_newReader ?cf r s = (s', Inr (sv, ack))"
    using assms by (auto simp: sub_def Let_def split: prod.splits sum.splits option.splits if_splits)
  obtain s1 src where n1: "newStorageReader ?cf r s = (s1, Some src, None)"
    using n by (auto simp: server_newReader_def Let_def split: prod.splits option.splits if_splits)
  obtain w2 b where nc: "noContent ref_redis (sv_redis s1) (src_reader src) (req_offset r) = (w2, b)"
    by (rule prod.exhaust)
  have "rw_db w2 = rw_db (sv_redis s1)" using ref_lookups_db(4) [of "sv_redis s1"] nc by (metis fst_conv)
  moreover have "sv_redis s' = w2"
    using n n1 nc by (auto simp: server_newReader_def cf Let_def setHeader_def split: prod.splits if_splits)
  ultimately show ?thesis using ref_newStorageReader_db [OF cf n1] by simp
qed

lemma demo_body_contract: "body_contract (demo_config creds https)"
  by (simp add: body_contract_def demo_config_def)


text \<open>
  The offset of a request is the number in \<open>Last-Event-Id\<close>, or the part of \<open>Range\<close> before
  its hyphen when there is no event id; so a \<open>Range\<close> in the form HTTP defines and the server
  itself sends to the store, with a unit, is read as offset 0.
\<close>

theorem offset_of_headers:
  assumes "is_i64 n" and "0 \<le> n"
  shows "(header_get (hr_headers r) ''last-event-id'' = itoa n \<longrightarrow> req_offset r = n)
    \<and> (header_get (hr_headers r) ''last-event-id'' = [] \<longrightarrow>
        (header_get (hr_headers r) ''Range'' = itoa n @ ''-'' \<longrightarrow> req_offset r = n)
        \<and> (header_get (hr_headers r) ''Range'' = ''bytes='' @ itoa n @ ''-'' \<longrightarrow> req_offset r = 0))"
proof -
  have "CHR ''-'' \<notin> set (itoa n)"
    using assms(2) by (auto simp: itoa_def is_digit_def dest: nat_digits_digits)
  then have s: "hd (split2 CHR ''-'' (itoa n @ ''-'')) = itoa n"
    "hd (split2 CHR ''-'' (''bytes='' @ itoa n @ ''-'')) = ''bytes='' @ itoa n"
    using split2_append [of "CHR ''-''" "itoa n" "[]"] split2_append [of "CHR ''-''" "''bytes='' @ itoa n" "[]"]
    by simp_all
  have "fst (atoi (''bytes='' @ x)) = 0" for x
    by (simp add: atoi_def parse_int_def parse_uint_def is_digit_def)
  with s atoi_itoa [OF assms(1)] show ?thesis by (auto simp: req_offset_def Let_def)
qed

theorem offset_of_headers_witness:
  "req_offset (demo_get [(''Last-Event-Id'', ''7'')]) = 7 \<and> req_offset (demo_get [(''Range'', ''bytes=7-'')]) = 0"
proof -
  have n: "is_i64 7" "(0 :: int) \<le> 7" by (simp_all add: is_i64_def)
  have "header_get (hr_headers (demo_get [(''Last-Event-Id'', ''7'')])) ''last-event-id'' = itoa 7"
    "header_get (hr_headers (demo_get [(''Range'', ''bytes=7-'')])) ''last-event-id'' = []"
    "header_get (hr_headers (demo_get [(''Range'', ''bytes=7-'')])) ''Range'' = ''bytes='' @ itoa 7 @ ''-''"
    by code_simp+
  with offset_of_headers [OF n] show ?thesis by metis
qed

text \<open>
  A subscriber who has seen all of a finished channel is answered 204 and leaves a
  subscription behind: \<open>newReader\<close> returns no reader with \<open>errNoContent\<close>, so nobody closes the
  broker's reader, its connection stays subscribed and out of the pool.
\<close>

theorem no_content_leaks_subscription:
  "(case sub (demo_config [] False) True (demo_get [(''Last-Event-Id'', ''4'')])
          (demo_serv (expiry_run ''k'' ''data'' 9 9)) of
      (s1, None) \<Rightarrow> sent_status s1 = 204 \<and> rw_pats (sv_redis s1) 0 = [''k:*'']
    | (s1, Some k) \<Rightarrow> False)"
  by code_simp

text \<open>
  C18. The log line of a request shows the status the client was sent, on every route and for
  every answer of the handlers, also where a handler writes a body without a status.
\<close>

theorem logged_status_is_sent:
  assumes "app cf router = Some h" and "fresh s"
  shows "\<exists>log rid. sv_log (h r s) = log @ [''count#http.status.'' @ itoa (go_div (sent_status (h r s)) 100)
    @ ''xx=1 status='' @ itoa (sent_status (h r s)) @ '' request_id='' @ rid]"
proof -
  define fn where "fn = (\<lambda>r s. case router r of
      None \<Rightarrow> http_Error ''404 page not found'' 404 s
    | Some rt \<Rightarrow> (case app_handler cf rt of None \<Rightarrow> s | Some fn \<Rightarrow> fn r s))"
  have h: "h = logRequest (enforceHTTPS cf fn)"
    using assms(1) by (auto simp: app_def fn_def split: if_splits)
  obtain s1 rid where rq: "requestId r s = (s1, rid)" by (rule prod.exhaust)
  with assms(2) draw_status [of r s] have s1: "fresh s1" "rp_calls s1 = []" by (simp_all add: fresh_def)
  define s2 where "s2 = enforceHTTPS cf fn r s1"
  have "one_status (fn r s1)"
    using s1(1) by (auto simp: fn_def response_simps app_handler_status split: option.split)
  then have one: "one_status s2" using s1(1) by (simp add: s2_def enforceHTTPS_def response_simps)
  have hr: "h r s = s2\<lparr>sv_log := sv_log s2 @
      [rl_writeLog (fold (\<lambda>c l. rl_writeHeader l c) (rp_calls s2) (newResponseLogger rid))]\<rparr>"
    by (simp add: h logRequest_def rq Let_def s1(2) s2_def)
  have "rl_status (fold (\<lambda>c l. rl_writeHeader l c) (rp_calls s2) (newResponseLogger rid)) = sent_status s2"
    "rl_requestID (fold (\<lambda>c l. rl_writeHeader l c) (rp_calls s2) (newResponseLogger rid)) = rid"
    using one by (auto simp: one_status_def sent_status_def newResponseLogger_def rl_writeHeader_def)
  then show ?thesis
    by (intro exI [of _ "sv_log s2"] exI [of _ rid]) (simp add: hr rl_writeLog_def sent_status_def)
qed

theorem logged_status_is_sent_witness:
  "\<exists>h log rid. app (demo_config [] False) (\<lambda>r. Some R_health) = Some h
    \<and> sent_status (h (demo_get []) (demo_serv ref_empty)) = 200
    \<and> sv_log (h (demo_get []) (demo_serv ref_empty)) = log @ [''count#http.status.2xx=1 status=200 request_id='' @ rid]"
proof -
  have "app (demo_config [] False) (\<lambda>r. Some R_health) \<noteq> None"
    by (simp add: app_def app_handler_def serv_auth_def demo_config_def)
  then obtain h where h: "app (demo_config [] False) (\<lambda>r. Some R_health) = Some h" by blast
  then have "sent_status (h (demo_get []) (demo_serv ref_empty)) = 200"
    by (auto simp: app_def app_handler_def serv_auth_def demo_config_def logRequest_def enforceHTTPS_def
        addDefaultHeaders_def health_def demo_get_def header_get_def requestId_def draw_uuid_def demo_serv_def
        setHeader_def writeBody_def commit_def sent_status_def Let_def split: prod.splits)
  moreover have "fresh (demo_serv ref_empty)" by (simp add: fresh_def demo_serv_def)
  moreover have "itoa (go_div 200 100) = ''2''" "itoa 200 = ''200''" by code_simp+
  ultimately show ?thesis using logged_status_is_sent [OF h, of "demo_serv ref_empty" "demo_get []"] h by auto
qed

text \<open>
  A stream is never held back: after every round of the copy the whole body written so far
  has been flushed to the client, and the body has grown by exactly what \<open>Read\<close> returned,
  unless the client's connection is gone.
\<close>

theorem stream_is_flushed:
  assumes "sub_copy cf s k c False = (s', k', Return go)" and "rp_flushed s = length (rp_body s)"
  shows "rp_flushed s' = length (rp_body s') \<and> (\<exists>p n err k1.
    ka_read (served_io cf) k c (replicate (32 * 1024) CHR 0x00) = (k1, Return (p, n, err))
    \<and> rp_body s' = rp_body s @ take n p \<and> (go \<longleftrightarrow> err = None)
    \<and> k' = (if go then k1 else fst (ka_close (served_io cf) k1)))"
proof -
  obtain k1 p n err where r: "ka_read (served_io cf) k c (replicate (32 * 1024) CHR 0x00) = (k1, Return (p, n, err))"
    using assms(1) by (auto simp: sub_copy_def split: prod.splits go.splits)
  define s1 where "s1 = (if n > 0 then flush (writeBody (take n p) s) else s)"
  have "s' = s1 \<and> k' = (if err = None then k1 else fst (ka_close (served_io cf) k1)) \<and> (go \<longleftrightarrow> err = None)"
    using assms(1) r by (auto simp: sub_copy_def writeFlusher_write_def s1_def Let_def split: if_splits)
  moreover have "rp_flushed s1 = length (rp_body s1) \<and> rp_body s1 = rp_body s @ take n p"
    using assms(2) by (simp add: s1_def flush_def writeBody_def commit_def split: option.splits)
  ultimately show ?thesis using r by auto
qed

theorem stream_is_flushed_witness:
  "\<exists>s' k' go. sub_copy (demo_config [] False) (demo_serv (open_channel ''data''))
      (newKeepAliveReader ((open_channel ''data'', []), Sv_plain (Src_broker (new_reader ''k'' 0))) ''ack'')
      Case_timer False = (s', k', Return go)
    \<and> rp_body s' = ''ack'' \<and> rp_flushed s' = 3 \<and> go"
proof -
  let ?k = "newKeepAliveReader ((open_channel ''data'', []), Sv_plain (Src_broker (new_reader ''k'' 0))) ''ack''"
  let ?s = "demo_serv (open_channel ''data'')" and ?cf = "demo_config [] False"
  let ?z = "replicate (32 * 1024) CHR 0x00"
  obtain k1 p where r: "ka_read (served_io ?cf) ?k Case_timer ?z = (k1, Return (p, 3, None))"
    and p: "take 3 p = ''ack''"
    by (simp add: ka_read_def newKeepAliveReader_def go_copy_def Let_def)
  obtain s' k' where c: "sub_copy ?cf ?s ?k Case_timer False = (s', k', Return True)"
    using r by (auto simp: sub_copy_def writeFlusher_write_def Let_def)
  have "rp_flushed ?s = length (rp_body ?s)" "rp_body ?s = []" by (simp_all add: demo_serv_def)
  with stream_is_flushed [OF c] r p c show ?thesis by auto
qed

end
