(* ===== verification/BlobStore.thy ===== *)
theory BlobStore
  imports Streams
begin

text \<open>
  The blob store behind package \<open>storage\<close> (S3 in production): a service, of which nothing is under
  \<open>src/\<close>. The locale \<open>blob_service\<close> states what the server relies on: an object that was put is
  there, a \<open>GET\<close> with a \<open>Range\<close> that starts inside it returns the rest of it, and the body of a
  response is read in order. A small store that obeys these laws interprets it. The lemmas follow a
  stream from an upload over \<open>storeOutput\<close> to a subscriber who comes when Redis has forgotten it.
\<close>

section \<open>The service\<close>

definition ok_status :: "http_response \<Rightarrow> bool" where
  "ok_status r \<longleftrightarrow> 200 \<le> rs_status r \<and> rs_status r < 300"

definition range_from :: "int \<Rightarrow> string" where
  "range_from off = ''bytes='' @ itoa off @ ''-''"

text \<open>\<open>obj\<close> is what the store holds, \<open>left\<close> what has not been read of an open body.\<close>

locale blob_service =
  fixes H :: "('h, 'u) http"
    and body_read :: "'h \<Rightarrow> nat \<Rightarrow> bytes \<Rightarrow> 'h \<times> read_result"
    and obj :: "'h \<Rightarrow> 'u \<Rightarrow> bytes option"
    and left :: "'h \<Rightarrow> nat \<Rightarrow> bytes"
  assumes put_law: "h_do H h rq = (h', n, Inr res) \<Longrightarrow> rq_method rq = ''PUT'' \<Longrightarrow>
      rq_body rq = Some b \<Longrightarrow> ok_status res \<Longrightarrow> obj h' (rq_url rq) = Some b"
    and get_law: "rq_method rq = ''GET'' \<Longrightarrow> map_of (rq_headers rq) ''Range'' = Some (range_from off) \<Longrightarrow>
      is_i64 off \<Longrightarrow> obj h (rq_url rq) = Some b \<Longrightarrow> 0 \<le> off \<Longrightarrow> off < int (length b) \<Longrightarrow>
      \<exists>h' n res. h_do H h rq = (h', n, Inr res) \<and> ok_status res \<and> left h' (rs_body res) = drop (nat off) b"
    and close_law: "obj (h_close H h k) = obj h"
    and read_law: "body_read h k p = (h', Return (p', n, err)) \<Longrightarrow>
      n \<le> length p \<and> length p' = length p \<and> n \<le> length (left h k) \<and> take n p' = take n (left h k)
      \<and> left h' k = drop n (left h k) \<and> (err = Some EOF \<longrightarrow> left h' k = [])"
    and wait_law: "body_read h k p = (h', Blocked) \<Longrightarrow> left h' k = left h k"

lemma ok_status_error: "ok_status r \<Longrightarrow> status_error (rs_status r) = None"
proof -
  assume r: "ok_status r"
  then have "rs_status r div 100 = 2" unfolding ok_status_def by presburger
  with r show ?thesis by (simp add: ok_status_def status_error_def go_div_def sgn_if)
qed

section \<open>A run of a stream whose source is a body\<close>

context blob_service
begin

lemma contract:
  assumes "cf_bodyRead cf = body_read" shows "body_contract cf"
  using read_law by (simp add: body_contract_def assms)

text \<open>What has been read and what is left are the content; an end comes when nothing is left.\<close>

definition blob_inv :: "nat \<Rightarrow> bytes \<Rightarrow> (('w \<times> 'h) \<times> served) ka_run \<Rightarrow> bool" where
  "blob_inv k v t \<longleftrightarrow> (\<exists>w h. ka_r (kr_k t) = ((w, h), Sv_plain (Src_blob k)) \<and> kr_src t @ left h k = v
     \<and> ((\<exists>pl \<in> set (queued (kr_k t)). pl_err pl = Some EOF) \<longrightarrow> left h k = [])
     \<and> ((ka_eof (kr_k t) \<or> kr_err t = Some EOF) \<and> \<not> kr_gone t \<longrightarrow> left h k = []))"

lemma blob_produce:
  assumes "cf_bodyRead cf = body_read" and "blob_inv k v s"
    and "ka_produce (served_io cf) (kr_k s) = (k', Return ())" and "ka_hand k' = Some pl"
  shows "blob_inv k v (s\<lparr>kr_k := k', kr_src := kr_src s @ take (pl_n pl) (pl_p pl)\<rparr>)"
proof -
  obtain w h where s: "ka_r (kr_k s) = ((w, h), Sv_plain (Src_blob k))" "kr_src s @ left h k = v"
    "(\<exists>pl \<in> set (queued (kr_k s)). pl_err pl = Some EOF) \<longrightarrow> left h k = []"
    "(ka_eof (kr_k s) \<or> kr_err s = Some EOF) \<and> \<not> kr_gone s \<longrightarrow> left h k = []"
    using assms(2) by (auto simp: blob_inv_def)
  have hand: "ka_hand (kr_k s) = None" using assms(3) by (auto simp: ka_produce_def split: if_splits)
  obtain h' p' n err where r: "body_read h k (replicate ka_buffer CHR 0x00) = (h', Return (p', n, err))"
    and k': "k' = (kr_k s)\<lparr>ka_r := ((w, h'), Sv_plain (Src_blob k)), ka_hand := Some \<lparr>pl_p = p', pl_n = n, pl_err = err\<rparr>\<rparr>"
    using assms(1,3) s(1)
    by (auto simp: ka_produce_def served_io_def src_io_def split: if_splits prod.splits go.splits)
  from read_law [OF r] s assms(4) hand show ?thesis by (auto simp: blob_inv_def k')
qed

lemma blob_step:
  assumes "cf_bodyRead cf = body_read" and "ka_step (served_io cf) s t" and "blob_inv k v s"
  shows "blob_inv k v t"
  using assms(2,3)
proof (induction rule: ka_step.induct)
  case (step_produce s k' pl)
  from blob_produce [OF assms(1) step_produce(3,1,2)] show ?case .
next
  case (step_wait s k')
  then show ?case
    by (auto simp: blob_inv_def ka_produce_def served_io_def src_io_def assms(1) wait_law
        split: if_splits prod.splits go.splits)
next
  case (step_send s k')
  then show ?case by (auto simp: blob_inv_def ka_send_def split: option.splits if_splits)
next
  case (step_payload s p k' p' n err)
  then show ?case
    by (auto simp: blob_inv_def ka_read_def Let_def queued_def split: if_splits list.splits option.splits)
next
  case (step_timer s p k' p' n err)
  then show ?case
    by (auto simp: blob_inv_def ka_read_def served_io_def Let_def queued_def split: prod.splits)
next
  case (step_gone s p k' p' n err)
  then show ?case
    by (auto simp: blob_inv_def ka_read_def Let_def queued_def split: if_splits)
qed

lemma blob_run:
  assumes "cf_bodyRead cf = body_read" and "redis_up (cf_redis cf) db_of inbox pats"
    and "ka_reach (served_io cf) (ka_init ((w, h), Sv_plain (Src_blob k)) ack) t"
  shows "prefix (pieces_data (kr_out t)) (left h k)
    \<and> (kr_err t = Some EOF \<and> \<not> kr_gone t \<longrightarrow> pieces_data (kr_out t) = left h k)"
proof -
  let ?i = "ka_init ((w, h), Sv_plain (Src_blob k)) ack"
  have "blob_inv k (left h k) ?i" by (simp add: blob_inv_def ka_init_def newKeepAliveReader_def queued_def)
  with assms(3) have inv: "blob_inv k (left h k) t"
    by (induction rule: ka_reach.induct) (auto intro: blob_step [OF assms(1)])
  have "served_ok db_of ((w, h), Sv_plain (Src_blob k))" by (simp add: src_ok_def)
  note run = keepalive_run [OF served_reader [OF assms(2) contract [OF assms(1)]] this assms(3)]
  obtain h' where l: "kr_src t @ left h' k = left h k"
    "kr_err t = Some EOF \<and> \<not> kr_gone t \<Longrightarrow> left h' k = []"
    using inv by (auto simp: blob_inv_def)
  from l(1) have "prefix (kr_src t) (left h k)" by (metis prefixI)
  with run have "prefix (pieces_data (kr_out t)) (left h k)" using prefix_order.trans by blast
  moreover have "pieces_data (kr_out t) = left h k" if "kr_err t = Some EOF \<and> \<not> kr_gone t"
    using run l that by simp
  ultimately show ?thesis by blast
qed

end

section \<open>From an upload to a subscriber\<close>

context blob_service
begin

text \<open>The first attempt of an upload that is accepted leaves the content in the store.\<close>

lemma storeOutput_stores:
  assumes "redis_up (cf_redis cf) db_of inbox pats" and "cf_http cf = H"
    and "fst (channels_of (db_of (sv_redis s)) key) = Some v"
    and "storage_newRequest (cf_urls cf) (cf_storageBaseURL cf) ''PUT'' uri (Some v) = Inr rq"
    and "h_do H (sv_http s) rq = (h1, n, Inr res)" and "ok_status res"
  shows "obj (sv_http (storeOutput cf key uri s)) (rq_url rq) = Some v"
proof -
  obtain w' where g: "broker_get (cf_redis cf) (sv_redis s) key = (w', v, None)"
    using redis_up.get_up [OF assms(1,3)] by blast
  have rq: "rq_method rq = ''PUT''" "rq_body rq = Some v" using newRequest_fields [OF assms(4)] by auto
  have "storage_put1 H (cf_urls cf) (cf_storageBaseURL cf) (sv_http s) uri (Some v)
      = (h_close H h1 (rs_body res), Some (drop n v), None)"
    using assms(4,5) ok_status_error [OF assms(6)] by (simp add: storage_put1_def storage_process_def)
  then have "sv_http (storeOutput cf key uri s) = h_close H h1 (rs_body res)"
    by (simp add: storeOutput_def g assms(2) storage_Put_def retries_def numeral_3_eq_3)
  with put_law [OF assms(5) rq assms(6)] show ?thesis by (simp add: close_law)
qed

text \<open>A subscriber of a channel that Redis has forgotten gets the body of the object.\<close>

lemma sub_from_store:
  assumes "redis_up (cf_redis cf) db_of inbox pats" and "cf_http cf = H"
    and "db_of (sv_redis s) (chan_id (req_key r)) = None"
    and "header_get (hr_headers r) ''Accept'' \<noteq> ''text/event-stream''"
    and "storage_newRequest (cf_urls cf) (cf_storageBaseURL cf) ''GET'' (req_requestURI r) None = Inr rq"
    and "obj (sv_http s) (rq_url rq) = Some v" and "0 \<le> req_offset r" and "req_offset r < int (length v)"
  shows "\<exists>s1 w h k. sub cf True r s = (s1, Some (newKeepAliveReader ((w, h), Sv_plain (Src_blob k)) getNullByte))
    \<and> left h k = drop (nat (req_offset r)) v"
proof -
  let ?rq = "rq\<lparr>rq_te := [''chunked''], rq_headers := rq_headers rq @ [(''Transfer-Encoding'', ''chunked''),
      (''Range'', range_from (req_offset r))]\<rparr>"
  have rq: "rq_method rq = ''GET''" "rq_headers rq = []"
    using assms(5) by (auto simp: storage_newRequest_def http_newRequest_def split: sum.splits)
  obtain h1 n res where do: "h_do H (sv_http s) ?rq = (h1, n, Inr res)" "ok_status res"
    "left h1 (rs_body res) = drop (nat (req_offset r)) v"
    using get_law [of ?rq "req_offset r" "sv_http s" v] rq assms(6-8) req_offset_range [of r] by auto
  have get: "storage_Get H (cf_urls cf) (cf_storageBaseURL cf) (sv_http s) (req_requestURI r) (req_offset r)
      = (h1, Some (rs_body res), None)"
    using assms(5) do(1) ok_status_error [OF do(2)]
    by (simp add: storage_Get_def retries_def numeral_3_eq_3 storage_get1_def storage_process_def range_from_def)
  obtain w1 where "newReader (cf_redis cf) (sv_redis s) (req_key r) = (w1, Inl ErrNotRegistered)"
    using redis_up.isRegistered_up [OF assms(1), of "sv_redis s" "req_key r"] assms(3)
    by (auto simp: newReader_def)
  with get assms(2) have nsr: "newStorageReader cf r s
      = (s\<lparr>sv_redis := w1, sv_http := h1\<rparr>, Some (Src_blob (rs_body res)), None)"
    by (simp add: newStorageReader_def)
  have "server_newReader cf r s = (s\<lparr>sv_redis := w1, sv_http := h1\<rparr>, Inr (Sv_plain (Src_blob (rs_body res)), getNullByte))"
    using assms(4) by (simp add: server_newReader_def nsr noContent_def readerDone_def Let_def)
  then have "sub cf True r s = (s\<lparr>sv_redis := w1, sv_http := h1\<rparr>,
      Some (newKeepAliveReader ((w1, h1), Sv_plain (Src_blob (rs_body res))) getNullByte))"
    by (simp add: sub_def)
  with do(3) show ?thesis by blast
qed

end

section \<open>A store\<close>

text \<open>
  Objects by their URL and the open bodies. A \<open>Range\<close> that starts at the end of the object or behind
  it is refused with 416.
\<close>

record blobs =
  bl_objs :: "string \<Rightarrow> bytes option"
  bl_open :: "nat \<Rightarrow> bytes"
  bl_next :: nat

definition range_start :: "string \<Rightarrow> int" where
  "range_start s = (if take 6 s = ''bytes='' then fst (atoi (hd (split2 CHR ''-'' (drop 6 s)))) else 0)"

definition answer :: "int \<Rightarrow> bytes \<Rightarrow> blobs \<Rightarrow> blobs \<times> http_response" where
  "answer status body h = (h\<lparr>bl_open := (bl_open h)(bl_next h := body), bl_next := Suc (bl_next h)\<rparr>,
     \<lparr>rs_status = status, rs_body = bl_next h\<rparr>)"

definition blob_do ::
  "blobs \<Rightarrow> string http_request \<Rightarrow> blobs \<times> nat \<times> (go_error \<times> http_response option + http_response)" where
  "blob_do h rq =
     (if rq_method rq = ''PUT'' then
        let b = (case rq_body rq of None \<Rightarrow> [] | Some b \<Rightarrow> b);
            (h', res) = answer 200 [] (h\<lparr>bl_objs := (bl_objs h)(rq_url rq \<mapsto> b)\<rparr>)
        in (h', length b, Inr res)
      else let off = (case map_of (rq_headers rq) ''Range'' of None \<Rightarrow> 0 | Some r \<Rightarrow> range_start r);
               (h', res) = (case bl_objs h (rq_url rq) of
                   None \<Rightarrow> answer 404 [] h
                 | Some b \<Rightarrow> if int (length b) \<le> off then answer 416 [] h else answer 206 (drop (nat off) b) h)
           in (h', 0, Inr res))"

definition blob_http :: "(blobs, string) http" where
  "blob_http = \<lparr>h_do = blob_do, h_close = (\<lambda>h k. h\<lparr>bl_open := (bl_open h)(k := [])\<rparr>)\<rparr>"

definition blob_read :: "blobs \<Rightarrow> nat \<Rightarrow> bytes \<Rightarrow> blobs \<times> read_result" where
  "blob_read h k p =
     (let n = min (length p) (length (bl_open h k))
      in (h\<lparr>bl_open := (bl_open h)(k := drop n (bl_open h k))\<rparr>,
          Return (take n (bl_open h k) @ drop n p, n, if bl_open h k = [] then Some EOF else None)))"

lemma range_start_from: "is_i64 off \<Longrightarrow> 0 \<le> off \<Longrightarrow> range_start (range_from off) = off"
proof -
  assume off: "is_i64 off" "0 \<le> off"
  then have "CHR ''-'' \<notin> set (itoa off)"
    by (auto simp: itoa_def dest!: nat_digits_digits dest: is_digit_not_sign)
  then have "split2 CHR ''-'' (itoa off @ ''-'') = [itoa off, []]" using split2_append [of "CHR ''-''" "itoa off" "[]"] by simp
  then show ?thesis by (simp add: range_start_def range_from_def atoi_itoa [OF off(1)])
qed

interpretation s3: blob_service blob_http blob_read bl_objs bl_open
proof
  fix h h' :: blobs and rq :: "string http_request" and n res b
  assume "h_do blob_http h rq = (h', n, Inr res)" "rq_method rq = ''PUT''" "rq_body rq = Some b"
  then show "bl_objs h' (rq_url rq) = Some b" by (auto simp: blob_http_def blob_do_def answer_def Let_def)
next
  fix h :: blobs and rq :: "string http_request" and off b
  assume rq: "rq_method rq = ''GET''" "map_of (rq_headers rq) ''Range'' = Some (range_from off)"
    and off: "is_i64 off" "0 \<le> off" and b: "bl_objs h (rq_url rq) = Some b" "off < int (length b)"
  then show "\<exists>h' n res. h_do blob_http h rq = (h', n, Inr res) \<and> ok_status res \<and> bl_open h' (rs_body res) = drop (nat off) b"
    by (simp add: blob_http_def blob_do_def range_start_from answer_def ok_status_def)
next
  fix h k
  show "bl_objs (h_close blob_http h k) = bl_objs h" by (simp add: blob_http_def)
next
  fix h h' k p p' n err
  assume "blob_read h k p = (h', Return (p', n, err))"
  then show "n \<le> length p \<and> length p' = length p \<and> n \<le> length (bl_open h k)
      \<and> take n p' = take n (bl_open h k) \<and> bl_open h' k = drop n (bl_open h k)
      \<and> (err = Some EOF \<longrightarrow> bl_open h' k = [])"
    by (auto simp: blob_read_def Let_def split: if_splits)
next
  fix h h' k p
  assume "blob_read h k p = (h', Blocked)"
  then show "bl_open h' k = bl_open h k" by (simp add: blob_read_def Let_def)
qed

end
