(* ===== verification/FiniteSource.thy ===== *)
theory FiniteSource
  imports KeepAlive
begin

text \<open>
  Readers of a known rest, as the broker's reader on a finished channel is one: through the
  keepalive reader a client gets all of the rest, and there is a run in which it does.
\<close>

section \<open>Sources that end\<close>

text \<open>
  A reader that has a known rest: every read returns some bytes of it, or the last ones with \<open>io.EOF\<close>,
  and never waits.
\<close>

locale finite_source = io_reader ops I for ops :: "'r io" and I :: "'r \<Rightarrow> bool" +
  fixes gives :: "'r \<Rightarrow> bytes \<Rightarrow> bool"
  assumes gives_ok: "gives r rest \<Longrightarrow> I r"
    and gives_read: "gives r rest \<Longrightarrow> p \<noteq> [] \<Longrightarrow> int (length p) < 2 ^ 62 \<Longrightarrow>
      \<exists>r' p' n err. io_read ops r p = (r', Return (p', n, err))
        \<and> (err = None \<and> 0 < n \<and> (\<exists>rest'. rest = take n p' @ rest' \<and> gives r' rest')
           \<or> err = Some EOF \<and> rest = take n p')"
    and gives_renew: "gives r rest \<Longrightarrow> gives (io_renew ops r) rest"
begin

text \<open>While the goroutine may read, what it has read and the rest are the content; then it has all.\<close>

definition ends_with :: "bytes \<Rightarrow> 'r ka_run \<Rightarrow> bool" where
  "ends_with content s \<longleftrightarrow>
     (\<forall>pl \<in> set (queued (kr_k s)). pl_err pl = None \<or> pl_err pl = Some EOF)
     \<and> (kr_err s = None \<or> kr_err s = Some EOF)
     \<and> (ka_hand (kr_k s) \<noteq> None \<longrightarrow> ka_running (kr_k s))
     \<and> (if ka_running (kr_k s) \<and> (\<forall>pl. ka_hand (kr_k s) = Some pl \<longrightarrow> pl_err pl = None)
        then \<exists>rest. kr_src s @ rest = content \<and> gives (ka_r (kr_k s)) rest else kr_src s = content)"

lemma produce_ends:
  assumes "ends_with content s" and "ka_running (kr_k s)" and "ka_hand (kr_k s) = None"
  obtains k' pl where "ka_produce ops (kr_k s) = (k', Return ())" and "ka_hand k' = Some pl"
    and "k' = (kr_k s)\<lparr>ka_r := ka_r k', ka_hand := Some pl\<rparr>"
    and "ends_with content (s\<lparr>kr_k := k', kr_src := kr_src s @ take (pl_n pl) (pl_p pl)\<rparr>)"
    and "pl_n pl \<le> length (pl_p pl)" and "pl_err pl = None \<and> 0 < pl_n pl \<or> pl_err pl = Some EOF"
proof -
  from assms obtain rest where rest: "kr_src s @ rest = content" "gives (ka_r (kr_k s)) rest"
    by (auto simp: ends_with_def)
  from gives_read [OF rest(2) ka_buffer_pos] obtain r' p n err where
    rd: "io_read ops (ka_r (kr_k s)) (replicate ka_buffer CHR 0x00) = (r', Return (p, n, err))"
    and res: "err = None \<and> 0 < n \<and> (\<exists>rest'. rest = take n p @ rest' \<and> gives r' rest')
      \<or> err = Some EOF \<and> rest = take n p" by blast
  have fits: "n \<le> length p" using read_fits [OF gives_ok [OF rest(2)] ka_buffer_pos rd] by simp
  let ?pl = "\<lparr>pl_p = p, pl_n = n, pl_err = err\<rparr>"
  let ?k = "(kr_k s)\<lparr>ka_r := r', ka_hand := Some ?pl\<rparr>"
  have "ka_produce ops (kr_k s) = (?k, Return ())" using assms(2,3) rd by (simp add: ka_produce_def)
  moreover have "ends_with content (s\<lparr>kr_k := ?k, kr_src := kr_src s @ take n p\<rparr>)"
    using assms rest(1) res by (auto simp: ends_with_def)
  ultimately show thesis using res fits by (intro that [of ?k ?pl]) auto
qed

lemma step_ends:
  assumes "ka_step ops s t" and e: "ends_with content s"
  shows "ends_with content t"
  using assms(1)
proof cases
  case (step_produce k' pl)
  then have "ka_running (kr_k s) \<and> ka_hand (kr_k s) = None" by (auto simp: ka_produce_def split: if_splits)
  with produce_ends [OF e] step_produce show ?thesis by (metis option.inject prod.inject)
next
  case (step_wait k')
  show ?thesis
  proof (cases "ka_running (kr_k s) \<and> ka_hand (kr_k s) = None")
    case True
    with produce_ends [OF e] step_wait show ?thesis by (metis go.distinct(3) prod.inject)
  next
    case False
    with step_wait e show ?thesis by (auto simp: ka_produce_def ends_with_def)
  qed
next
  case (step_send k')
  then obtain pl where "ka_hand (kr_k s) = Some pl"
    "k' = (kr_k s)\<lparr>ka_ch := ka_ch (kr_k s) @ [pl], ka_hand := None, ka_running := (pl_err pl = None)\<rparr>"
    by (auto simp: ka_send_def split: option.splits if_splits)
  with step_send e show ?thesis by (auto simp: ends_with_def split: if_splits)
next
  case (step_payload p k' p' n err)
  show ?thesis
  proof (cases "ka_eof (kr_k s)")
    case True
    with step_payload(2) have "k' = kr_k s" "err = Some EOF" by (simp_all add: ka_read_def)
    with step_payload(1) e show ?thesis by (simp add: ends_with_def)
  next
    case False
    with step_payload(2) obtain pl rest where ch: "ka_ch (kr_k s) = pl # rest"
      by (cases "ka_ch (kr_k s)") (simp_all add: ka_read_def)
    with step_payload(2) False have "k' = (kr_k s)\<lparr>ka_ch := rest, ka_eof := (pl_err pl = Some EOF)\<rparr>" "err = pl_err pl"
      by (auto simp: ka_read_def Let_def split: if_splits)
    with step_payload(1) ch e show ?thesis by (simp add: ends_with_def queued_def)
  qed
next
  case (step_timer p k' p' n err)
  then have "k' = (kr_k s)\<lparr>ka_r := io_renew ops (ka_r (kr_k s))\<rparr>" "err = None"
    by (auto simp: ka_read_def Let_def split: prod.splits)
  with step_timer e show ?thesis by (auto simp: ends_with_def queued_def gives_renew split: if_splits)
next
  case (step_gone p k' p' n err)
  then have "k' = (kr_k s)\<lparr>ka_eof := True\<rparr> \<or> k' = kr_k s" "err = Some EOF"
    by (auto simp: ka_read_def split: if_splits)
  with step_gone e show ?thesis by (auto simp: ends_with_def queued_def)
qed

lemma init_ends: "gives r content \<Longrightarrow> ends_with content (ka_init r packet)"
  by (simp add: ends_with_def ka_init_def newKeepAliveReader_def queued_def)

lemma finite_run:
  assumes "gives r content" and "ka_reach ops (ka_init r packet) s"
  shows "prefix (pieces_data (kr_out s)) content
    \<and> (kr_err s \<noteq> None \<and> \<not> kr_gone s \<longrightarrow> kr_err s = Some EOF \<and> pieces_data (kr_out s) = content)"
proof -
  have inv: "ka_inv I s" by (rule ka_reach_inv [OF assms(2) ka_init_inv [OF gives_ok [OF assms(1)]]])
  from assms(2) have e: "ends_with content s"
    by (induction rule: ka_reach.induct) (auto intro: init_ends [OF assms(1)] step_ends)
  have "pieces_data (kr_out s) @ concat (map pl_bytes (queued (kr_k s))) = kr_src s" using inv by (simp add: ka_inv_def)
  then have "prefix (pieces_data (kr_out s)) (kr_src s)" by (metis prefixI)
  moreover have "prefix (kr_src s) content" using e by (auto simp: ends_with_def prefix_def split: if_splits)
  ultimately have "prefix (pieces_data (kr_out s)) content" by (rule prefix_order.trans)
  moreover have "kr_err s = Some EOF \<and> pieces_data (kr_out s) = content" if "kr_err s \<noteq> None" "\<not> kr_gone s"
  proof -
    have "ka_over (kr_k s)" using inv that by (auto simp: ka_inv_def)
    then show ?thesis using inv e that by (auto simp: ka_inv_def ka_over_def ends_with_def)
  qed
  ultimately show ?thesis by blast
qed

text \<open>The end is reached: one read of the goroutine, its send and one \<open>Read\<close> of the client at a time.\<close>

lemma round:
  assumes "ends_with content s" and "kr_k s = newKeepAliveReader r packet" and "\<not> kr_gone s"
  shows "\<exists>t. (ka_reach ops s0 s \<longrightarrow> ka_reach ops s0 t) \<and> ends_with content t \<and> \<not> kr_gone t
    \<and> (kr_err t = Some EOF \<or> (\<exists>r'. kr_k t = newKeepAliveReader r' packet \<and> length (kr_src s) < length (kr_src t)))"
proof -
  have k: "ka_running (kr_k s)" "ka_hand (kr_k s) = None" "ka_ch (kr_k s) = []" "\<not> ka_eof (kr_k s)"
    by (simp_all add: assms(2) newKeepAliveReader_def)
  obtain k1 pl where k1: "ka_produce ops (kr_k s) = (k1, Return ())" "ka_hand k1 = Some pl"
    "k1 = (kr_k s)\<lparr>ka_r := ka_r k1, ka_hand := Some pl\<rparr>"
    and e1: "ends_with content (s\<lparr>kr_k := k1, kr_src := kr_src s @ take (pl_n pl) (pl_p pl)\<rparr>)"
    and fits: "pl_n pl \<le> length (pl_p pl)" and res: "pl_err pl = None \<and> 0 < pl_n pl \<or> pl_err pl = Some EOF"
    by (rule produce_ends [OF assms(1) k(1,2)])
  define s1 where "s1 = s\<lparr>kr_k := k1, kr_src := kr_src s @ take (pl_n pl) (pl_p pl)\<rparr>"
  define s2 where "s2 = s1\<lparr>kr_k := k1\<lparr>ka_ch := [pl], ka_hand := None, ka_running := (pl_err pl = None)\<rparr>\<rparr>"
  define k3 where "k3 = (kr_k s2)\<lparr>ka_ch := [], ka_eof := (pl_err pl = Some EOF)\<rparr>"
  define p0 where "p0 = replicate ka_buffer CHR 0x00"
  define p3 where "p3 = (if pl_n pl > 0 then fst (go_copy p0 (take (pl_n pl) (pl_p pl))) else p0)"
  define s3 where "s3 = s2\<lparr>kr_k := k3, kr_out := kr_out s2 @ [Chunk (take (pl_n pl) p3)], kr_err := pl_err pl\<rparr>"
  have ch1: "ka_ch k1 = []" "\<not> ka_eof k1" "ka_packet k1 = packet" "ka_running k1" "ka_hand k1 = Some pl"
    using k k1(3) assms(2) by (metis keepAlive.select_convs keepAlive.simps newKeepAliveReader_def)+
  have st1: "ka_step ops s s1" unfolding s1_def by (rule ka_step.step_produce [OF k1(1,2)])
  have "ka_send (kr_k s1) = (k1\<lparr>ka_ch := [pl], ka_hand := None, ka_running := (pl_err pl = None)\<rparr>, Return ())"
    using ch1 by (simp add: s1_def ka_send_def ka_capacity_def)
  then have st2: "ka_step ops s1 s2" unfolding s2_def by (rule ka_step.step_send)
  have "ka_read ops (kr_k s2) Case_payload p0 = (k3, Return (p3, pl_n pl, pl_err pl))"
    using fits ch1 by (simp add: s2_def s1_def k3_def p3_def ka_read_def Let_def)
  then have st3: "ka_step ops s2 s3" unfolding s3_def by (rule ka_step.step_payload) (simp add: p0_def)
  have "ends_with content s3" by (rule step_ends [OF st3 step_ends [OF st2 step_ends [OF st1 assms(1)]]])
  moreover have "ka_reach ops s0 s \<longrightarrow> ka_reach ops s0 s3" using st1 st2 st3 by (blast intro: ka_more)
  moreover have "\<not> kr_gone s3" using assms(3) by (simp add: s3_def s2_def s1_def)
  moreover have "kr_err s3 = Some EOF \<or> kr_k s3 = newKeepAliveReader (ka_r k1) packet \<and> length (kr_src s) < length (kr_src s3)"
  proof (cases "pl_err pl = Some EOF")
    case False
    with res have "pl_err pl = None" "0 < pl_n pl" by simp_all
    with fits ch1 show ?thesis
      by (cases k1) (simp add: s3_def k3_def s2_def s1_def newKeepAliveReader_def)
  qed (simp add: s3_def)
  ultimately show ?thesis by blast
qed

lemma rounds:
  assumes "ends_with content s" and "kr_k s = newKeepAliveReader r packet" and "\<not> kr_gone s"
  shows "\<exists>t. (ka_reach ops s0 s \<longrightarrow> ka_reach ops s0 t) \<and> kr_err t = Some EOF \<and> \<not> kr_gone t"
  using assms
proof (induction "length content - length (kr_src s)" arbitrary: s r rule: less_induct)
  case less
  from round [OF less.prems, of s0] obtain t where t: "ka_reach ops s0 s \<longrightarrow> ka_reach ops s0 t" "ends_with content t"
    "\<not> kr_gone t" "kr_err t = Some EOF \<or> (\<exists>r'. kr_k t = newKeepAliveReader r' packet \<and> length (kr_src s) < length (kr_src t))"
    by blast
  show ?case
  proof (cases "kr_err t = Some EOF")
    case False
    with t(4) obtain r' where r': "kr_k t = newKeepAliveReader r' packet" "length (kr_src s) < length (kr_src t)" by blast
    have "length (kr_src t) \<le> length content" using t(2) by (auto simp: ends_with_def split: if_splits)
    with r'(2) have "length content - length (kr_src t) < length content - length (kr_src s)" by linarith
    from less.hyps [OF this t(2) r'(1) t(3)] t(1) show ?thesis by blast
  qed (use t in blast)
qed

lemma finite_ends:
  assumes "gives r content"
  shows "\<exists>t. ka_reach ops (ka_init r packet) t \<and> kr_err t = Some EOF \<and> \<not> kr_gone t"
proof -
  have "kr_k (ka_init r packet) = newKeepAliveReader r packet" "\<not> kr_gone (ka_init r packet)"
    by (simp_all add: ka_init_def)
  from rounds [OF init_ends [OF assms] this, of "ka_init r packet"] ka_start show ?thesis by blast
qed

end

section \<open>The broker's reader on a finished channel\<close>

definition broker_gives :: "('w \<Rightarrow> db) \<Rightarrow> 'w \<times> reader \<Rightarrow> bytes \<Rightarrow> bool" where
  "broker_gives db_of x rest \<longleftrightarrow> broker_ok db_of x
     \<and> chan_done (db_of (fst x)) (rd_channel (snd x)) \<and> \<not> rd_replayed (snd x) \<and> \<not> rd_closed (snd x)
     \<and> 0 \<le> rd_offset (snd x) \<and> int (length (chan_val (db_of (fst x)) (rd_channel (snd x)))) < 2 ^ 62
     \<and> rd_offset (snd x) < 2 ^ 62 \<and> rest = unread (db_of (fst x)) (snd x)"

context redis_up
begin

lemma finished_read:
  assumes g: "broker_gives db_of (w, r) rest" and p: "p \<noteq> []" "int (length p) < 2 ^ 62"
  shows "\<exists>w' r' p' n err. reader_read R w r p = (w', r', Return (p', n, err))
    \<and> (err = None \<and> 0 < n \<and> (\<exists>rest'. rest = take n p' @ rest' \<and> broker_gives db_of (w', r') rest')
       \<or> err = Some EOF \<and> rest = take n p')"
proof -
  from g have fin: "chan_done (db_of w) (rd_channel r)" and open_r: "\<not> rd_replayed r" "\<not> rd_closed r"
    and off: "0 \<le> rd_offset r" "rd_offset r < 2 ^ 62" and rest: "rest = unread (db_of w) r"
    and len: "int (length (chan_val (db_of w) (rd_channel r))) < 2 ^ 62"
    by (simp_all add: broker_gives_def)
  have rd: "readable r (length p)" using p off by (cases p) (simp_all add: readable_def)
  obtain w' r' p' n err where rp: "reader_replay R w r p = (w', r', Return (p', n, err))"
    using replay_returns by blast
  note r = replay_readable [OF rp open_r(1) rd, folded rest]
  have "n > 0 \<or> err \<noteq> None" using r(1,4) fin p(1) by (cases rest) auto
  then have read: "reader_read R w r p = (w', r', Return (p', n, err))"
    using open_r(2) rp by (auto simp: reader_read_def)
  show ?thesis
  proof (cases "length rest \<le> length p")
    case True
    with r(1,2,4) fin read show ?thesis by fastforce
  next
    case False
    with r(1,4) p have n: "n = length p" "0 < n" "err = None" by auto
    have u: "unread (db_of w') r' = drop n rest" "rd_channel r' = rd_channel r"
      using unread_same [OF r(6), of r' r n] r(5) off(1) rest by simp_all
    have "rd_offset r + int n \<le> int (length (chan_val (db_of w) (rd_channel r)))"
      using False n(1) off(1) by (simp add: rest unread_def)
    then have "broker_gives db_of (w', r') (drop n rest)"
      using fin open_r off len r(5) u False n chan_val_channels [OF r(6), of "rd_channel r"]
      by (simp add: broker_gives_def broker_ok_def sane_def is_i64_def)
    moreover have "rest = take n p' @ drop n rest" using r(2) n(1) by simp
    ultimately show ?thesis using read n by blast
  qed
qed

lemma finished_renew: "broker_gives db_of (w, r) rest \<Longrightarrow> broker_gives db_of (renewExpiry R w (Some r), r) rest"
  using chan_val_channels [OF renew_channels_of [of w r], of "rd_channel r"]
  by (simp add: broker_gives_def broker_ok_def sane_def unread_def)

end

sublocale redis_up \<subseteq> finite: finite_source "broker_io R" "broker_ok db_of" "broker_gives db_of"
proof
  fix x rest and p :: bytes assume g: "broker_gives db_of x rest"
  then show "broker_ok db_of x" by (simp add: broker_gives_def)
  show "broker_gives db_of (io_renew (broker_io R) x) rest"
    using g finished_renew by (cases x) simp
  assume p: "p \<noteq> []" "int (length p) < 2 ^ 62"
  show "\<exists>x' p' n err. io_read (broker_io R) x p = (x', Return (p', n, err))
      \<and> (err = None \<and> 0 < n \<and> (\<exists>rest'. rest = take n p' @ rest' \<and> broker_gives db_of x' rest')
         \<or> err = Some EOF \<and> rest = take n p')"
    using finished_read [OF _ p] g by (cases x) fastforce
qed

interpretation reffinite: finite_source "broker_io ref_redis" "broker_ok rw_db" "broker_gives rw_db"
  by (rule refred.finite.finite_source_axioms)

end
