(* ===== verification/Delivery.thy ===== *)
theory Delivery
  imports Streams FiniteSource
begin

text \<open>
  The whole way of a finished stream: what a \<open>POST\<close> has appended to its channel and finished, a \<open>GET\<close>
  reads back from its offset, through the broker's reader, the server's layers and the keepalive reader,
  to the last byte.
\<close>

section \<open>The server's layers over a finished channel\<close>

fun served_gives :: "('w \<Rightarrow> db) \<Rightarrow> ('w \<times> 'h) \<times> served \<Rightarrow> bytes \<Rightarrow> bool" where
  "served_gives db_of (wh, Sv_plain (Src_broker r)) rest = broker_gives db_of (fst wh, r) rest"
| "served_gives db_of x rest = False"

lemma served_gives_plain:
  assumes "served_gives db_of x rest"
  obtains w h r where "x = ((w, h), Sv_plain (Src_broker r))" and "broker_gives db_of (w, r) rest"
  using assms by (elim served_gives.elims(2)) (metis prod.collapse)

lemma served_finite:
  fixes cf :: "('w, 'h, 'u) config"
  assumes up: "redis_up (cf_redis cf) db_of inbox pats" and body: "body_contract cf"
  shows "finite_source (served_io cf) (served_ok db_of) (served_gives db_of)"
proof (intro finite_source.intro served_reader [OF up body] finite_source_axioms.intro)
  fix x :: "('w \<times> 'h) \<times> served" and rest p :: bytes assume "served_gives db_of x rest"
  then obtain w h r where x: "x = ((w, h), Sv_plain (Src_broker r))" and g: "broker_gives db_of (w, r) rest"
    by (rule served_gives_plain)
  show "served_ok db_of x" using g by (simp add: x broker_gives_def src_ok_def broker_ok_def)
  show "served_gives db_of (io_renew (served_io cf) x) rest"
    using redis_up.finished_renew [OF up g] by (simp add: x served_io_def)
  assume p: "p \<noteq> []" "int (length p) < 2 ^ 62"
  from redis_up.finished_read [OF up g p] obtain w' r' p' n err where
    "reader_read (cf_redis cf) w r p = (w', r', Return (p', n, err))"
    "err = None \<and> 0 < n \<and> (\<exists>rest'. rest = take n p' @ rest' \<and> broker_gives db_of (w', r') rest')
      \<or> err = Some EOF \<and> rest = take n p'" by blast
  then show "\<exists>x' p' n err. io_read (served_io cf) x p = (x', Return (p', n, err))
      \<and> (err = None \<and> 0 < n \<and> (\<exists>rest'. rest = take n p' @ rest' \<and> served_gives db_of x' rest')
         \<or> err = Some EOF \<and> rest = take n p')"
    by (intro exI [of _ "((w', h), Sv_plain (Src_broker r'))"] exI [of _ p'] exI [of _ n] exI [of _ err])
      (simp add: x served_io_def src_io_def)
qed

section \<open>A plain subscriber of a finished channel\<close>

text \<open>A subscription that is never refused.\<close>

definition psubscribe_up :: "'w redis \<Rightarrow> bool" where
  "psubscribe_up R \<longleftrightarrow> (\<forall>w p. snd (snd (r_psubscribe R w p)) = None)"

context redis_up
begin

lemma newReader_up:
  assumes "psubscribe_up R" and "db_of w (chan_id c) \<noteq> None"
  shows "\<exists>w' k. newReader R w c = (w', Inr (new_reader c k)) \<and> db_of w' = db_of w"
proof -
  obtain w1 where w1: "registrar_isRegistered R w c = (w1, True)" "db_of w1 = db_of w"
    using isRegistered_up [of w c] assms(2) by auto
  obtain w2 k where w2: "r_psubscribe R w1 (chan_wildcardId c) = (w2, k, None)"
    using assms(1) by (metis prod.collapse psubscribe_up_def)
  with psubscribe_law [OF w2] w1 show ?thesis
    by (intro exI [of _ w2] exI [of _ k]) (simp add: newReader_def)
qed

lemma noContent_frame: "db_of (fst (noContent R w (Some r) off)) = db_of w"
proof -
  obtain w1 fin where d: "readerDone R w (Some r) = (w1, fin)" by (rule prod.exhaust)
  obtain w2 rep where s: "r_do R w1 (STRLEN (chan_id (rd_channel r))) = (w2, rep, None)" using do_up by blast
  have "db_of w1 = db_of w" using done_db [of w r] d by simp
  moreover have "db_of w2 = db_of w1" using do_law [OF s] by (simp add: cmd_db.simps)
  ultimately show ?thesis by (simp add: noContent_def d s Let_def split: prod.split)
qed

end

lemma sub_finished:
  assumes up: "redis_up (cf_redis cf) db_of inbox pats" and "psubscribe_up (cf_redis cf)"
    and ch: "channels_of (db_of (sv_redis s)) (req_key r) = (Some v, True)" and "int (length v) < 2 ^ 62"
    and off: "0 \<le> req_offset r" "req_offset r < int (length v)"
    and "header_get (hr_headers r) ''Accept'' \<noteq> ''text/event-stream''"
  shows "\<exists>s' src. sub cf True r s = (s', Some (newKeepAliveReader src getNullByte))
    \<and> served_gives db_of src (drop (nat (req_offset r)) v)"
proof -
  let ?R = "cf_redis cf" and ?c = "req_key r" and ?o = "req_offset r"
  have v: "chan_val (db_of (sv_redis s)) ?c = v" "chan_done (db_of (sv_redis s)) ?c"
    "db_of (sv_redis s) (chan_id ?c) \<noteq> None"
    using ch by (auto simp: channels_of_def chan_val_def db_get_def split: option.splits)
  from redis_up.newReader_up [OF up assms(2) v(3)] obtain w1 k where
    n: "newReader ?R (sv_redis s) ?c = (w1, Inr (new_reader ?c k))" "db_of w1 = db_of (sv_redis s)" by blast
  define rd where "rd = (new_reader ?c k)\<lparr>rd_offset := ?o\<rparr>"
  have rd: "(if ?o > 0 then fst (reader_seek (new_reader ?c k) ?o 0) else new_reader ?c k) = rd"
    using off(1) by (auto simp: rd_def reader_seek_def new_reader_def Let_def)
  define s1 where "s1 = s\<lparr>sv_redis := w1\<rparr>"
  have st: "newStorageReader cf r s = (s1, Some (Src_broker rd), None)"
    using n(1) by (simp add: newStorageReader_def rd s1_def)
  have rd_simps: "rd_channel rd = ?c" "rd_offset rd = ?o" "\<not> rd_replayed rd" "\<not> rd_closed rd"
    by (simp_all add: rd_def new_reader_def)
  obtain w2 b where nc: "noContent ?R w1 (Some rd) ?o = (w2, b)" by (rule prod.exhaust)
  have "length (chan_val (db_of w1) (rd_channel rd)) < 2 ^ 63" using v(1) n(2) assms(4) by (simp add: rd_simps)
  from redis_up.noContent_db [OF up this, of ?o] nc off(2) v(1) n(2) have b: "\<not> b" by (simp add: rd_simps)
  have w2: "db_of w2 = db_of (sv_redis s)" using redis_up.noContent_frame [OF up, of w1 rd ?o] nc n(2) by simp
  have "server_newReader cf r s = (s1\<lparr>sv_redis := w2\<rparr>, Inr (Sv_plain (Src_broker rd), getNullByte))"
    using st nc b assms(7) by (simp add: server_newReader_def s1_def)
  then have "sub cf True r s = (s1\<lparr>sv_redis := w2\<rparr>,
      Some (newKeepAliveReader ((w2, sv_http s1), Sv_plain (Src_broker rd)) getNullByte))"
    by (simp add: sub_def)
  moreover have "broker_gives db_of (w2, rd) (drop (nat ?o) v)"
    using v w2 off assms(4) rd_simps
    by (simp add: broker_gives_def broker_ok_def sane_def is_i64_def unread_def)
  ultimately show ?thesis by fastforce
qed

section \<open>Properties\<close>

text \<open>
  C7. What a publisher has posted and finished is streamed to a later subscriber: a \<open>GET\<close> with an
  offset inside the channel gets, whatever the interleaving of the goroutine, the heartbeats and its own
  reads, always a prefix of the content from that offset, the whole of it when the stream ends while
  the client is there, and there is a run in which the stream ends so.
\<close>

theorem posted_is_streamed:
  assumes "redis_up (cf_redis cf) db_of inbox pats" and "psubscribe_up (cf_redis cf)" and "body_contract cf"
    and "''chunked'' \<in> set (hr_te rp)" and "db_of (sv_redis s) (chan_id (req_key rp)) \<noteq> None"
    and "hr_body rp = map (\<lambda>d. (d, None)) ds @ ending" and "\<forall>d \<in> set ds. d \<noteq> []"
    and "ending = [] \<or> ending = [([], Some e)]"
    and "content = chan_val (db_of (sv_redis s)) (req_key rp) @ concat ds" and "int (length content) < 2 ^ 62"
    and "sv_redis s1 = sv_redis (pub cf rp s)" and "req_key rg = req_key rp"
    and "header_get (hr_headers rg) ''Accept'' \<noteq> ''text/event-stream''"
    and "0 \<le> req_offset rg" and "req_offset rg < int (length content)"
  shows "\<exists>s2 k. sub cf True rg s1 = (s2, Some k)
    \<and> (\<forall>t. ka_reach (served_io cf)
          \<lparr>kr_k = k, kr_src = [], kr_out = [], kr_err = None, kr_gone = False\<rparr> t \<longrightarrow>
        prefix (pieces_data (kr_out t)) (drop (nat (req_offset rg)) content)
        \<and> (kr_err t \<noteq> None \<and> \<not> kr_gone t \<longrightarrow>
            kr_err t = Some EOF \<and> pieces_data (kr_out t) = drop (nat (req_offset rg)) content))
    \<and> (\<exists>t. ka_reach (served_io cf)
          \<lparr>kr_k = k, kr_src = [], kr_out = [], kr_err = None, kr_gone = False\<rparr> t
        \<and> kr_err t = Some EOF \<and> \<not> kr_gone t)"
proof -
  have "channels_of (db_of (sv_redis s1)) (req_key rg) = (Some content, True)"
    using redis_up.pub_db(1) [OF assms(1) refl assms(4-8)] by (simp only: assms(9,11,12) fun_upd_same)
  from sub_finished [OF assms(1,2) this assms(10,14,15,13)] obtain s2 src where
    sub: "sub cf True rg s1 = (s2, Some (newKeepAliveReader src getNullByte))"
    and g: "served_gives db_of src (drop (nat (req_offset rg)) content)" by blast
  note fin = served_finite [OF assms(1,3)]
  from sub finite_source.finite_run [OF fin g, of getNullByte] finite_source.finite_ends [OF fin g, of getNullByte]
  show ?thesis unfolding ka_init_def by blast
qed

theorem posted_is_streamed_witness:
  "\<exists>s2 k t. sub (demo_config [] False) True (demo_get [(''Range'', ''2-'')])
        (demo_serv (sv_redis (pub (demo_config [] False) (demo_pub EOF) (demo_serv (expiry_run ''k'' ''data'' 9 9)))))
      = (s2, Some k)
    \<and> ka_reach (served_io (demo_config [] False))
        \<lparr>kr_k = k, kr_src = [], kr_out = [], kr_err = None, kr_gone = False\<rparr> t
    \<and> kr_err t = Some EOF \<and> pieces_data (kr_out t) = ''taabc''"
proof -
  let ?cf = "demo_config [] False" and ?s = "demo_serv (expiry_run ''k'' ''data'' 9 9)"
  let ?rg = "demo_get [(''Range'', ''2-'')]"
  let ?s1 = "demo_serv (sv_redis (pub ?cf (demo_pub EOF) ?s))"
  have up: "redis_up (cf_redis ?cf) rw_db rw_inbox rw_pats"
    using refred.redis_up_axioms by (simp add: demo_config_def)
  have ps: "psubscribe_up (cf_redis ?cf)" by (simp add: psubscribe_up_def demo_config_def ref_redis_def)
  have c: "''dataabc'' = chan_val (rw_db (sv_redis ?s)) (req_key (demo_pub EOF)) @ concat [''ab'', ''c'']"
    using demo_pub_registered(2) by (simp add: demo_pub_body)
  have g: "sv_redis ?s1 = sv_redis (pub ?cf (demo_pub EOF) ?s)" by (simp add: demo_serv_def)
  have k: "req_key ?rg = req_key (demo_pub EOF)" by (simp add: demo_pub_body) (simp add: demo_get_def req_key_def)
  have a: "header_get (hr_headers ?rg) ''Accept'' \<noteq> ''text/event-stream''" by code_simp
  have o: "req_offset ?rg = 2" by code_simp
  have l: "int (length ''dataabc'') < 2 ^ 62" "0 \<le> req_offset ?rg" "req_offset ?rg < int (length ''dataabc'')"
    by (simp_all add: o)
  note st = posted_is_streamed [OF up ps demo_body_contract demo_pub_body(3) demo_pub_registered(1)
      demo_pub_body(1,2) disjI2 [OF refl] c l(1) g k a l(2,3)]
  have d: "drop (nat (req_offset ?rg)) ''dataabc'' = ''taabc''" by (simp add: o)
  from st [unfolded d] show ?thesis by blast
qed

end
