(* ===== verification/Strconv.thy ===== *)
theory Strconv
  imports Complex_Main GoLib
begin

text \<open>
  More of \<open>strconv\<close> (Go 1.4), as the command line flags use it: \<open>ParseUint\<close> and \<open>ParseInt\<close> with
  base 0, where the text says its base, for any width of the result, and the values of a
  \<open>float64\<close> with the conversions to \<open>int64\<close>. The decimal rounding of \<open>ParseFloat\<close> and the text of
  a \<open>float64\<close> are not defined here: they are arguments of what uses them.
\<close>

section \<open>ParseUint and ParseInt with base 0\<close>

definition alnum_val :: "char \<Rightarrow> nat option" where
  "alnum_val c =
     (let n = (of_char c :: nat)
      in if 48 \<le> n \<and> n \<le> 57 then Some (n - 48)
         else if 97 \<le> n \<and> n \<le> 122 then Some (n - 87)
         else if 65 \<le> n \<and> n \<le> 90 then Some (n - 55) else None)"

fun digits_in :: "nat \<Rightarrow> int \<Rightarrow> nat \<Rightarrow> string \<Rightarrow> nat \<times> go_error option" where
  "digits_in base maxVal acc [] = (acc, None)"
| "digits_in base maxVal acc (c # cs) =
     (case alnum_val c of None \<Rightarrow> (0, Some ErrSyntax)
      | Some v \<Rightarrow>
          (if base \<le> v then (0, Some ErrSyntax)
           else if maxVal < int (acc * base + v) then (nat max_u64, Some ErrNumRange)
           else digits_in base maxVal (acc * base + v) cs))"

definition parse_uint0 :: "nat \<Rightarrow> string \<Rightarrow> nat \<times> go_error option" where
  "parse_uint0 bits s =
     (case s of [] \<Rightarrow> (0, Some ErrSyntax)
      | c # cs \<Rightarrow>
         (let (base, digits) =
            (if c = CHR ''0'' \<and> cs \<noteq> [] \<and> (hd cs = CHR ''x'' \<or> hd cs = CHR ''X'') then (16, tl cs)
             else if c = CHR ''0'' then (8, s) else (10, s))
          in if digits = [] then (0, Some ErrSyntax) else digits_in base (2 ^ bits - 1) 0 digits))"

definition parse_int0 :: "nat \<Rightarrow> string \<Rightarrow> int \<times> go_error option" where
  "parse_int0 bits s =
     (case s of [] \<Rightarrow> (0, Some ErrSyntax)
      | c # cs \<Rightarrow>
         (let neg = (c = CHR ''-'');
              digits = (if c = CHR ''+'' \<or> c = CHR ''-'' then cs else s);
              (un, err) = parse_uint0 bits digits
          in if err \<noteq> None \<and> err \<noteq> Some ErrNumRange then (0, err)
             else if \<not> neg \<and> 2 ^ (bits - 1) \<le> int un then (2 ^ (bits - 1) - 1, Some ErrNumRange)
             else if neg \<and> 2 ^ (bits - 1) < int un then (- (2 ^ (bits - 1)), Some ErrNumRange)
             else (if neg then - int un else int un, None)))"

lemma alnum_val_digit_char [simp]: "d < 10 \<Longrightarrow> alnum_val (digit_char d) = Some d"
  by (simp add: alnum_val_def Let_def)

lemma digits_in_append:
  "digits_in b m a s = (n, None) \<Longrightarrow> digits_in b m a (s @ t) = digits_in b m n t"
  by (induction b m a s arbitrary: n rule: digits_in.induct) (auto split: if_splits option.splits)

lemma digits_in_nat_digits: "int n \<le> m \<Longrightarrow> digits_in 10 m 0 (nat_digits n) = (n, None)"
proof (induction n rule: nat_digits.induct)
  case (1 n)
  show ?case
  proof (cases "n < 10")
    case True
    with 1 show ?thesis by (subst nat_digits.simps) simp
  next
    case False
    have "int (n div 10) \<le> m" using "1.prems" zdiv_int [of n 10] by linarith
    with 1 False have "digits_in 10 m 0 (nat_digits (n div 10)) = (n div 10, None)" by blast
    from digits_in_append [OF this] False "1.prems" show ?thesis
      by (subst nat_digits.simps) simp
  qed
qed

lemma hd_nat_digits: "n \<noteq> 0 \<Longrightarrow> hd (nat_digits n) \<noteq> CHR ''0''"
proof (induction n rule: nat_digits.induct)
  case (1 n)
  show ?case
  proof (cases "n < 10")
    case True
    then have "(of_char (digit_char n) :: nat) \<noteq> of_char (CHR ''0'')" using "1.prems" by simp
    then have "digit_char n \<noteq> CHR ''0''" by (intro notI) (simp only:)
    with True show ?thesis by (subst nat_digits.simps) simp
  next
    case False
    with 1 show ?thesis by (subst nat_digits.simps) simp
  qed
qed

lemma parse_uint0_nat_digits:
  assumes "int n < 2 ^ bits" shows "parse_uint0 bits (nat_digits n) = (n, None)"
proof (cases "n = 0")
  case True
  have "nat_digits 0 = ''0''" by (subst nat_digits.simps) (simp add: digit_char_def char_of_def bit_0)
  with True show ?thesis by (simp add: parse_uint0_def alnum_val_def not_less)
next
  case False
  obtain c cs where d: "nat_digits n = c # cs" by (cases "nat_digits n") auto
  with hd_nat_digits [OF False] have "c \<noteq> CHR ''0''" by simp
  moreover have "digits_in 10 (2 ^ bits - 1) 0 (c # cs) = (n, None)"
    using digits_in_nat_digits [of n "2 ^ bits - 1"] assms d by simp
  ultimately show ?thesis by (simp add: parse_uint0_def d del: digits_in.simps)
qed

text \<open>What \<open>%v\<close> writes of an integer, \<open>ParseInt\<close> reads back at every width that holds it.\<close>

lemma parse_int0_itoa:
  assumes "0 < bits" and "- (2 ^ (bits - 1)) \<le> n" and "n < 2 ^ (bits - 1)"
  shows "parse_int0 bits (itoa n) = (n, None)"
proof -
  have w: "2 * 2 ^ (bits - 1) = (2 :: int) ^ bits" using assms(1) by (simp flip: power_Suc)
  have p: "(0 :: int) < 2 ^ (bits - 1)" by simp
  show ?thesis
  proof (cases "n < 0")
    case True
    from assms(2) w p True have "int (nat (- n)) < 2 ^ bits" by linarith
    from parse_uint0_nat_digits [OF this] True assms(2) show ?thesis
      by (simp add: parse_int0_def itoa_def)
  next
    case False
    obtain c cs where d: "nat_digits (nat n) = c # cs" by (cases "nat_digits (nat n)") auto
    then have c: "is_digit c" using nat_digits_digits [of c "nat n"] by simp
    from assms(3) w p False have "int (nat n) < 2 ^ bits" by linarith
    from parse_uint0_nat_digits [OF this] d have "parse_uint0 bits (c # cs) = (nat n, None)" by simp
    with False assms(3) c d show ?thesis
      by (simp add: parse_int0_def itoa_def is_digit_not_sign)
  qed
qed

section \<open>float64\<close>

text \<open>A \<open>float64\<close> is a rational number, an infinity with its sign, or not a number.\<close>

datatype float64 = Fin rat | Inf bool | NaN

definition f_positive :: "float64 \<Rightarrow> bool" where
  "f_positive x = (case x of Fin q \<Rightarrow> 0 < q | Inf neg \<Rightarrow> \<not> neg | NaN \<Rightarrow> False)"

text \<open>
  The conversion to \<open>int64\<close> drops the fraction; a value that does not fit, which the language
  leaves open, is the smallest \<open>int64\<close>, as on amd64.
\<close>

definition f_int64 :: "float64 \<Rightarrow> int" where
  "f_int64 x = (case x of
       Fin q \<Rightarrow> (let n = (if 0 \<le> q then \<lfloor>q\<rfloor> else \<lceil>q\<rceil>) in if is_i64 n then n else - (2 ^ 63))
     | _ \<Rightarrow> - (2 ^ 63))"

end
