(* ===== verification/PflagValues.thy ===== *)
theory PflagValues
  imports Strconv "HOL-Library.Word"
begin

text \<open>
  The types of the values of \<open>pflag\<close>'s flags: \<open>bool.go\<close>, \<open>string.go\<close>, \<open>int.go\<close>, \<open>int8.go\<close>, \<open>int32.go\<close>,
  \<open>int64.go\<close>, \<open>uint.go\<close>, \<open>uint8.go\<close>, \<open>uint16.go\<close>, \<open>uint32.go\<close>, \<open>uint64.go\<close>, \<open>float32.go\<close>, \<open>float64.go\<close>,
  \<open>duration.go\<close>, \<open>ip.go\<close> and \<open>ipmask.go\<close>. An integer is a word of its width (an \<open>int\<close> is an integer
  within the 64 bits), an address or a mask its bytes. \<open>Set\<close> converts what was parsed even when it
  reports an error, except for an address; \<open>ParseUint\<close> of Go 1.4 returns \<open>2^64 - 1\<close> for what is out of
  range, whatever the width, and the conversion cuts it off.
\<close>

text \<open>What the values use of \<open>strconv\<close>, \<open>fmt\<close>, \<open>time\<close> and \<open>net\<close> without a definition here.\<close>

record fconv =
  cv_parseFloat :: "string \<Rightarrow> float64 \<times> go_error option"
  cv_showFloat :: "float64 \<Rightarrow> string"
  cv_quote :: "string \<Rightarrow> string"
  cv_parseFloat32 :: "string \<Rightarrow> 32 word \<times> go_error option"  \<comment> \<open>the bits of a \<open>float32\<close>\<close>
  cv_showFloat32 :: "32 word \<Rightarrow> string"
  cv_parseDuration :: "string \<Rightarrow> int \<times> go_error option"       \<comment> \<open>in nanoseconds\<close>
  cv_showDuration :: "int \<Rightarrow> string"
  cv_parseIP :: "string \<Rightarrow> 8 word list option"               \<comment> \<open>16 bytes, also of an IPv4 address\<close>
  cv_showIP :: "8 word list \<Rightarrow> string"

section \<open>Values\<close>

subsection \<open>Truth values, texts and int\<close>

definition boolValue_Set :: "string \<Rightarrow> bool \<times> go_error option" where
  "boolValue_Set s = parse_bool s"

definition boolValue_String :: "bool \<Rightarrow> string" where
  "boolValue_String b = (if b then ''true'' else ''false'')"

definition boolValue_IsBoolFlag :: "bool \<Rightarrow> bool" where
  "boolValue_IsBoolFlag b = True"

definition stringValue_Set :: "string \<Rightarrow> string \<times> go_error option" where
  "stringValue_Set val = (val, None)"

definition stringValue_String :: "string \<Rightarrow> string" where
  "stringValue_String s = s"

definition intValue_Set :: "string \<Rightarrow> int \<times> go_error option" where
  "intValue_Set s = parse_int0 64 s"

definition intValue_String :: "int \<Rightarrow> string" where
  "intValue_String i = itoa i"

subsection \<open>Integers of a width\<close>

definition int8Value_Set :: "string \<Rightarrow> 8 word \<times> go_error option" where
  "int8Value_Set s = (let (v, err) = parse_int0 8 s in (word_of_int v, err))"

definition int8Value_String :: "8 word \<Rightarrow> string" where
  "int8Value_String i = itoa (sint i)"

definition int32Value_Set :: "string \<Rightarrow> 32 word \<times> go_error option" where
  "int32Value_Set s = (let (v, err) = parse_int0 32 s in (word_of_int v, err))"

definition int32Value_String :: "32 word \<Rightarrow> string" where
  "int32Value_String i = itoa (sint i)"

definition int64Value_Set :: "string \<Rightarrow> 64 word \<times> go_error option" where
  "int64Value_Set s = (let (v, err) = parse_int0 64 s in (word_of_int v, err))"

definition int64Value_String :: "64 word \<Rightarrow> string" where
  "int64Value_String i = itoa (sint i)"

definition uintValue_Set :: "string \<Rightarrow> 64 word \<times> go_error option" where
  "uintValue_Set s = (let (v, err) = parse_uint0 64 s in (word_of_nat v, err))"

definition uintValue_String :: "64 word \<Rightarrow> string" where
  "uintValue_String i = itoa (uint i)"

definition uint8Value_Set :: "string \<Rightarrow> 8 word \<times> go_error option" where
  "uint8Value_Set s = (let (v, err) = parse_uint0 8 s in (word_of_nat v, err))"

definition uint8Value_String :: "8 word \<Rightarrow> string" where
  "uint8Value_String i = itoa (uint i)"

definition uint16Value_Set :: "string \<Rightarrow> 16 word \<times> go_error option" where
  "uint16Value_Set s = (let (v, err) = parse_uint0 16 s in (word_of_nat v, err))"

definition uint16Value_String :: "16 word \<Rightarrow> string" where
  "uint16Value_String i = itoa (uint i)"

definition uint32Value_Set :: "string \<Rightarrow> 32 word \<times> go_error option" where
  "uint32Value_Set s = (let (v, err) = parse_uint0 32 s in (word_of_nat v, err))"

definition uint32Value_String :: "32 word \<Rightarrow> string" where
  "uint32Value_String i = itoa (uint i)"

definition uint64Value_Set :: "string \<Rightarrow> 64 word \<times> go_error option" where
  "uint64Value_Set s = (let (v, err) = parse_uint0 64 s in (word_of_nat v, err))"

definition uint64Value_String :: "64 word \<Rightarrow> string" where
  "uint64Value_String i = itoa (uint i)"

subsection \<open>Floating point, durations and addresses\<close>

definition float64Value_Set :: "fconv \<Rightarrow> string \<Rightarrow> float64 \<times> go_error option" where
  "float64Value_Set cv s = cv_parseFloat cv s"

definition float64Value_String :: "fconv \<Rightarrow> float64 \<Rightarrow> string" where
  "float64Value_String cv x = cv_showFloat cv x"

definition float32Value_Set :: "fconv \<Rightarrow> string \<Rightarrow> 32 word \<times> go_error option" where
  "float32Value_Set cv s = cv_parseFloat32 cv s"

definition float32Value_String :: "fconv \<Rightarrow> 32 word \<Rightarrow> string" where
  "float32Value_String cv x = cv_showFloat32 cv x"

definition durationValue_Set :: "fconv \<Rightarrow> string \<Rightarrow> int \<times> go_error option" where
  "durationValue_Set cv s = cv_parseDuration cv s"

definition durationValue_String :: "fconv \<Rightarrow> int \<Rightarrow> string" where
  "durationValue_String cv d = cv_showDuration cv d"

text \<open>What does not parse leaves an address or a mask as it was.\<close>

definition ipValue_Set :: "fconv \<Rightarrow> 8 word list \<Rightarrow> string \<Rightarrow> 8 word list \<times> go_error option" where
  "ipValue_Set cv i s =
     (case cv_parseIP cv s of None \<Rightarrow> (i, Some (ErrOther ''failed to parse IP''))
      | Some ip \<Rightarrow> (ip, None))"

definition ipValue_String :: "fconv \<Rightarrow> 8 word list \<Rightarrow> string" where
  "ipValue_String cv i = cv_showIP cv i"

definition parseIPv4Mask :: "fconv \<Rightarrow> string \<Rightarrow> 8 word list option" where
  "parseIPv4Mask cv s =
     (case cv_parseIP cv s of None \<Rightarrow> None | Some m \<Rightarrow> Some [m ! 12, m ! 13, m ! 14, m ! 15])"

definition ipMaskValue_Set :: "fconv \<Rightarrow> 8 word list \<Rightarrow> string \<Rightarrow> 8 word list \<times> go_error option" where
  "ipMaskValue_Set cv i s =
     (case parseIPv4Mask cv s of None \<Rightarrow> (i, Some (ErrOther ''failed to parse IP mask''))
      | Some ip \<Rightarrow> (ip, None))"

text \<open>\<open>net.IPMask.String\<close> writes the bytes in hexadecimal.\<close>

definition hex_digit_of :: "nat \<Rightarrow> char" where
  "hex_digit_of d = char_of (if d < 10 then 48 + d else 87 + d)"

definition ipMaskValue_String :: "8 word list \<Rightarrow> string" where
  "ipMaskValue_String i =
     (if i = [] then ''<nil>'' else concat (map (\<lambda>b. [hex_digit_of (unat b div 16), hex_digit_of (unat b mod 16)]) i))"

lemmas signed_defs = int8Value_Set_def int8Value_String_def int32Value_Set_def int32Value_String_def
  int64Value_Set_def int64Value_String_def

lemmas unsigned_defs = uintValue_Set_def uintValue_String_def uint8Value_Set_def uint8Value_String_def
  uint16Value_Set_def uint16Value_String_def uint32Value_Set_def uint32Value_String_def
  uint64Value_Set_def uint64Value_String_def

section \<open>Ranges\<close>

lemma digits_in_range:
  "digits_in base m acc s = (v, err) \<Longrightarrow> int acc \<le> m \<Longrightarrow>
   (if err = Some ErrNumRange then v = nat max_u64 else int v \<le> m)"
  by (induction base m acc s rule: digits_in.induct) (auto split: option.splits if_splits)

lemma parse_uint0_range:
  "parse_uint0 bits s = (v, err) \<Longrightarrow> if err = Some ErrNumRange then v = nat max_u64 else int v < 2 ^ bits"
proof -
  assume p: "parse_uint0 bits s = (v, err)"
  have "(\<exists>base ds. digits_in base (2 ^ bits - 1) 0 ds = (v, err)) \<or> v = 0 \<and> err = Some ErrSyntax"
    using p by (auto simp: parse_uint0_def Let_def simp del: digits_in.simps split: list.splits if_splits)
  moreover have "if err = Some ErrNumRange then v = nat max_u64 else int v \<le> 2 ^ bits - 1"
    if "digits_in base (2 ^ bits - 1) 0 ds = (v, err)" for base ds
    using digits_in_range [OF that] by simp
  ultimately show ?thesis by (auto simp: zle_diff1_eq)
qed

lemma power_bounds [simp]: "- int x < 2 ^ k" "- (2 ^ k) \<le> int x"
proof -
  have "(0 :: int) < 2 ^ k" by simp
  then show "- int x < 2 ^ k" "- (2 ^ k) \<le> int x" by linarith+
qed

lemma parse_int0_range:
  "0 < bits \<Longrightarrow> parse_int0 bits s = (v, err) \<Longrightarrow> - (2 ^ (bits - 1)) \<le> v \<and> v < 2 ^ (bits - 1)"
  by (auto simp: parse_int0_def Let_def split: list.splits prod.splits if_splits)

text \<open>\<open>2^64 - 1\<close> cut off to any of the widths is the largest value.\<close>

lemma max_u64_word: "LENGTH('a :: len) \<le> 64 \<Longrightarrow> (word_of_nat (nat max_u64) :: 'a word) = - 1"
proof -
  assume w: "LENGTH('a) \<le> 64"
  have "(word_of_nat (nat max_u64) :: 'a word) = word_of_int (mask 64)"
    by (simp add: max_u64_def mask_eq_exp_minus_1)
  also have "... = word_of_int (- 1)"
    using w by (simp only: word_of_int_eq_iff take_bit_of_mask take_bit_minus_one_eq_mask min_absorb1)
  finally show ?thesis by simp
qed

section \<open>Each width\<close>

lemma signed_set:
  fixes i :: "'a :: len word"
  shows "(case parse_int0 LENGTH('a) (itoa (sint i)) of (v, err) \<Rightarrow> (word_of_int v, err)) = (i, None)"
    and "parse_int0 LENGTH('a) s = (v, err) \<Longrightarrow> sint (word_of_int v :: 'a word) = v"
proof -
  have "parse_int0 LENGTH('a) (itoa (sint i)) = (sint i, None)"
    using sint_range_size [of i] by (intro parse_int0_itoa) (simp_all add: word_size)
  then show "(case parse_int0 LENGTH('a) (itoa (sint i)) of (v, err) \<Rightarrow> (word_of_int v, err)) = (i, None)" by simp
  assume "parse_int0 LENGTH('a) s = (v, err)"
  from parse_int0_range [OF _ this] show "sint (word_of_int v :: 'a word) = v"
    by (simp add: sint_sbintrunc' signed_take_bit_int_eq_self)
qed

lemma unsigned_set:
  fixes i :: "'a :: len word"
  shows "(case parse_uint0 LENGTH('a) (itoa (uint i)) of (v, err) \<Rightarrow> (word_of_nat v, err)) = (i, None)"
    and "LENGTH('a) \<le> 64 \<Longrightarrow> parse_uint0 LENGTH('a) s = (v, err) \<Longrightarrow>
      uint (word_of_nat v :: 'a word) = (if err = Some ErrNumRange then 2 ^ LENGTH('a) - 1 else int v)"
proof -
  have "int (nat (uint i)) < 2 ^ LENGTH('a)" by simp
  from parse_uint0_nat_digits [OF this]
  show "(case parse_uint0 LENGTH('a) (itoa (uint i)) of (v, err) \<Rightarrow> (word_of_nat v, err)) = (i, None)"
    by (simp add: itoa_def)
  assume "LENGTH('a) \<le> 64" "parse_uint0 LENGTH('a) s = (v, err)"
  moreover have "uint (word_of_nat v :: 'a word) = int v" if "int v < 2 ^ LENGTH('a)"
    using that by (simp add: unsigned_of_nat take_bit_nat_eq_self)
  moreover have "uint (- 1 :: 'a word) = 2 ^ LENGTH('a) - 1"
    by (simp add: unsigned_minus_1_eq_mask mask_eq_exp_minus_1)
  ultimately show "uint (word_of_nat v :: 'a word) = (if err = Some ErrNumRange then 2 ^ LENGTH('a) - 1 else int v)"
    using parse_uint0_range [of "LENGTH('a)" s v err] max_u64_word [where 'a = 'a] by (metis (full_types))
qed

lemma signed_flags:
  shows "int8Value_Set (int8Value_String a8) = (a8, None)"
    and "int32Value_Set (int32Value_String a32) = (a32, None)"
    and "int64Value_Set (int64Value_String a64) = (a64, None)"
    and "(sint (fst (int8Value_Set s)), snd (int8Value_Set s)) = parse_int0 8 s"
    and "(sint (fst (int32Value_Set s)), snd (int32Value_Set s)) = parse_int0 32 s"
    and "(sint (fst (int64Value_Set s)), snd (int64Value_Set s)) = parse_int0 64 s"
  using signed_set(1) [of a8] signed_set(1) [of a32] signed_set(1) [of a64]
    signed_set(2) [where 'a = 8, of s] signed_set(2) [where 'a = 32, of s] signed_set(2) [where 'a = 64, of s]
  by (simp_all add: signed_defs split: prod.splits)

lemma unsigned_flags:
  shows "uintValue_Set (uintValue_String b64) = (b64, None)"
    and "uint8Value_Set (uint8Value_String b8) = (b8, None)"
    and "uint16Value_Set (uint16Value_String b16) = (b16, None)"
    and "uint32Value_Set (uint32Value_String b32) = (b32, None)"
    and "uint64Value_Set (uint64Value_String b64) = (b64, None)"
    and "uint (fst (uintValue_Set s)) = (if snd (uintValue_Set s) = Some ErrNumRange then 2 ^ 64 - 1
      else int (fst (parse_uint0 64 s)))"
    and "uint (fst (uint8Value_Set s)) = (if snd (uint8Value_Set s) = Some ErrNumRange then 2 ^ 8 - 1
      else int (fst (parse_uint0 8 s)))"
    and "uint (fst (uint16Value_Set s)) = (if snd (uint16Value_Set s) = Some ErrNumRange then 2 ^ 16 - 1
      else int (fst (parse_uint0 16 s)))"
    and "uint (fst (uint32Value_Set s)) = (if snd (uint32Value_Set s) = Some ErrNumRange then 2 ^ 32 - 1
      else int (fst (parse_uint0 32 s)))"
    and "uint (fst (uint64Value_Set s)) = (if snd (uint64Value_Set s) = Some ErrNumRange then 2 ^ 64 - 1
      else int (fst (parse_uint0 64 s)))"
  using unsigned_set(1) [of b8] unsigned_set(1) [of b16] unsigned_set(1) [of b32] unsigned_set(1) [of b64]
    unsigned_set(2) [where 'a = 8 and s = s] unsigned_set(2) [where 'a = 16 and s = s]
    unsigned_set(2) [where 'a = 32 and s = s] unsigned_set(2) [where 'a = 64 and s = s]
  by (simp_all add: unsigned_defs split: prod.splits del: of_nat_eq_iff)

end
