(* ===== verification/Pflag.thy ===== *)
theory Pflag
  imports PflagValues "HOL-Library.AList" "HOL-Library.List_Lexorder" "HOL-Library.Char_ord"
begin

text \<open>
  The command line flags of \<open>busltee\<close>: the vendored package
  \<open>Godeps/_workspace/src/github.com/ogier/pflag\<close> (\<open>flag.go\<close>; the types of the values are in
  \<open>PflagValues\<close>, the methods that define a flag of each type in \<open>PflagTypes\<close>). A flag set is a record;
  the variables the flags are bound to live in its store \<open>fs_mem\<close>, since two flags may be bound to the
  same variable. The methods of a flag set are functions on the record; the functions of the package
  are the methods of the set with \<open>fs_cmdline\<close>.
\<close>

section \<open>Values\<close>

text \<open>The variable of a flag.\<close>

datatype fvalue =
    VBool bool
  | VInt int
  | VInt8 "8 word"
  | VInt32 "32 word"
  | VInt64 "64 word"
  | VUint "64 word"
  | VUint8 "8 word"
  | VUint16 "16 word"
  | VUint32 "32 word"
  | VUint64 "64 word"
  | VString string
  | VFloat32 "32 word"
  | VFloat float64
  | VDuration int
  | VIP "8 word list"
  | VIPMask "8 word list"

text \<open>The interface \<open>Value\<close>, and \<open>boolFlag\<close>, which \<open>bool\<close> alone implements.\<close>

fun value_Set :: "fconv \<Rightarrow> fvalue \<Rightarrow> string \<Rightarrow> fvalue \<times> go_error option" where
  "value_Set cv (VBool _) s = map_prod VBool id (boolValue_Set s)"
| "value_Set cv (VInt _) s = map_prod VInt id (intValue_Set s)"
| "value_Set cv (VInt8 _) s = map_prod VInt8 id (int8Value_Set s)"
| "value_Set cv (VInt32 _) s = map_prod VInt32 id (int32Value_Set s)"
| "value_Set cv (VInt64 _) s = map_prod VInt64 id (int64Value_Set s)"
| "value_Set cv (VUint _) s = map_prod VUint id (uintValue_Set s)"
| "value_Set cv (VUint8 _) s = map_prod VUint8 id (uint8Value_Set s)"
| "value_Set cv (VUint16 _) s = map_prod VUint16 id (uint16Value_Set s)"
| "value_Set cv (VUint32 _) s = map_prod VUint32 id (uint32Value_Set s)"
| "value_Set cv (VUint64 _) s = map_prod VUint64 id (uint64Value_Set s)"
| "value_Set cv (VString _) s = map_prod VString id (stringValue_Set s)"
| "value_Set cv (VFloat32 _) s = map_prod VFloat32 id (float32Value_Set cv s)"
| "value_Set cv (VFloat _) s = map_prod VFloat id (float64Value_Set cv s)"
| "value_Set cv (VDuration _) s = map_prod VDuration id (durationValue_Set cv s)"
| "value_Set cv (VIP i) s = map_prod VIP id (ipValue_Set cv i s)"
| "value_Set cv (VIPMask i) s = map_prod VIPMask id (ipMaskValue_Set cv i s)"

fun value_String :: "fconv \<Rightarrow> fvalue \<Rightarrow> string" where
  "value_String cv (VBool x) = boolValue_String x"
| "value_String cv (VInt x) = intValue_String x"
| "value_String cv (VInt8 x) = int8Value_String x"
| "value_String cv (VInt32 x) = int32Value_String x"
| "value_String cv (VInt64 x) = int64Value_String x"
| "value_String cv (VUint x) = uintValue_String x"
| "value_String cv (VUint8 x) = uint8Value_String x"
| "value_String cv (VUint16 x) = uint16Value_String x"
| "value_String cv (VUint32 x) = uint32Value_String x"
| "value_String cv (VUint64 x) = uint64Value_String x"
| "value_String cv (VString x) = stringValue_String x"
| "value_String cv (VFloat32 x) = float32Value_String cv x"
| "value_String cv (VFloat x) = float64Value_String cv x"
| "value_String cv (VDuration x) = durationValue_String cv x"
| "value_String cv (VIP x) = ipValue_String cv x"
| "value_String cv (VIPMask x) = ipMaskValue_String x"

fun is_bool_flag :: "fvalue \<Rightarrow> bool" where
  "is_bool_flag (VBool b) = boolValue_IsBoolFlag b"
| "is_bool_flag _ = False"

section \<open>Flags and flag sets\<close>

datatype errorHandling = ContinueOnError | ExitOnError | PanicOnError

text \<open>The errors of the parser: \<open>ErrHelp\<close> and one constructor per message of \<open>failf\<close>.\<close>

datatype flag_error =
    ErrHelp
  | BadFlagSyntax string               \<comment> \<open>bad flag syntax: \<open>%s\<close>\<close>
  | UnknownFlag string                 \<comment> \<open>unknown flag: \<open>--%s\<close>\<close>
  | FlagNeedsArgument string           \<comment> \<open>flag needs an argument: \<open>%s\<close>\<close>
  | UnknownShorthand char string       \<comment> \<open>unknown shorthand flag: \<open>%q in -%s\<close>\<close>
  | ShorthandNeedsArgument char string \<comment> \<open>flag needs an argument: \<open>%q in -%s\<close>\<close>
  | InvalidArgument string string go_error \<comment> \<open>invalid argument \<open>%q for %s: %v\<close>\<close>

record flag =
  fg_Name :: string
  fg_Shorthand :: string
  fg_Usage :: string
  fg_Value :: nat
  fg_DefValue :: string

text \<open>What a flag set writes to its output: messages and usage texts.\<close>

datatype notice =
    Message string
  | Failure flag_error
  | UsageOf            \<comment> \<open>the package's variable \<open>Usage\<close> or the set's own\<close>
  | DefaultUsage "string list"

record flagSet =
  fs_name :: string
  fs_parsed :: bool
  fs_actual :: "(string \<times> flag) list"
  fs_formal :: "(string \<times> flag) list"
  fs_shorthands :: "(char \<times> flag) list"
  fs_args :: "string list"
  fs_handling :: errorHandling
  fs_interspersed :: bool
  fs_cmdline :: bool           \<comment> \<open>whether the set is \<open>CommandLine\<close>\<close>
  fs_usage :: bool             \<comment> \<open>whether the set has a function \<open>Usage\<close> of its own\<close>
  fs_writer :: "nat option"    \<comment> \<open>the field \<open>output\<close>: a writer, or nil\<close>
  fs_output :: "(nat option \<times> notice) list"  \<comment> \<open>what has been written, and where\<close>
  fs_mem :: "nat \<Rightarrow> fvalue"
  fs_next :: nat               \<comment> \<open>the address of the next variable\<close>

definition newFlagSet :: "string \<Rightarrow> errorHandling \<Rightarrow> flagSet" where
  "newFlagSet name handling =
     \<lparr>fs_name = name, fs_parsed = False, fs_actual = [], fs_formal = [], fs_shorthands = [],
      fs_args = [], fs_handling = handling, fs_interspersed = True, fs_cmdline = False,
      fs_usage = False, fs_writer = None, fs_output = [], fs_mem = (\<lambda>_. VBool False), fs_next = 0\<rparr>"

definition commandLine :: "string \<Rightarrow> flagSet" where
  "commandLine arg0 = (newFlagSet arg0 ExitOnError)\<lparr>fs_cmdline := True\<rparr>"

definition fs_SetInterspersed :: "flagSet \<Rightarrow> bool \<Rightarrow> flagSet" where
  "fs_SetInterspersed f b = f\<lparr>fs_interspersed := b\<rparr>"

definition fs_Init :: "flagSet \<Rightarrow> string \<Rightarrow> errorHandling \<Rightarrow> flagSet" where
  "fs_Init f name handling = f\<lparr>fs_name := name, fs_handling := handling\<rparr>"

text \<open>
  \<open>sortFlags\<close> sorts the names of the flags and looks each up in the map it was given; an entry
  that is not under its flag's name would be a nil pointer.
\<close>

definition sortFlags :: "(string \<times> flag) list \<Rightarrow> flag option list" where
  "sortFlags flags = map (map_of flags) (sort (map (fg_Name \<circ> snd) flags))"

definition fs_VisitAll :: "flagSet \<Rightarrow> flag option list" where
  "fs_VisitAll f = sortFlags (fs_formal f)"

definition fs_Visit :: "flagSet \<Rightarrow> flag option list" where
  "fs_Visit f = sortFlags (fs_actual f)"

definition fs_Lookup :: "flagSet \<Rightarrow> string \<Rightarrow> flag option" where
  "fs_Lookup f name = map_of (fs_formal f) name"

text \<open>\<open>None\<close> is \<open>os.Stderr\<close>.\<close>

definition fs_out :: "flagSet \<Rightarrow> nat option" where
  "fs_out f = (case fs_writer f of None \<Rightarrow> None | Some w \<Rightarrow> Some w)"

definition fs_SetOutput :: "flagSet \<Rightarrow> nat option \<Rightarrow> flagSet" where
  "fs_SetOutput f w = f\<lparr>fs_writer := w\<rparr>"

definition fs_Args :: "flagSet \<Rightarrow> string list" where "fs_Args f = fs_args f"

definition fs_Parsed :: "flagSet \<Rightarrow> bool" where "fs_Parsed f = fs_parsed f"

definition fs_NFlag :: "flagSet \<Rightarrow> int" where "fs_NFlag f = int (length (fs_actual f))"

definition fs_Arg :: "flagSet \<Rightarrow> int \<Rightarrow> string" where
  "fs_Arg f i = (if i < 0 \<or> int (length (fs_args f)) \<le> i then [] else fs_args f ! nat i)"

definition fs_NArg :: "flagSet \<Rightarrow> int" where "fs_NArg f = int (length (fs_args f))"

definition fs_Set :: "fconv \<Rightarrow> flagSet \<Rightarrow> string \<Rightarrow> string \<Rightarrow> flagSet \<times> go_error option" where
  "fs_Set cv f name value =
     (case map_of (fs_formal f) name of
        None \<Rightarrow> (f, Some (ErrOther (''no such flag -'' @ name)))
      | Some fl \<Rightarrow>
          (let (v, err) = value_Set cv (fs_mem f (fg_Value fl)) value;
               f1 = f\<lparr>fs_mem := (fs_mem f)(fg_Value fl := v)\<rparr>
           in if err \<noteq> None then (f1, err)
              else (f1\<lparr>fs_actual := AList.update name fl (fs_actual f1)\<rparr>, None)))"

definition default_line :: "fconv \<Rightarrow> flagSet \<Rightarrow> flag \<Rightarrow> string" where
  "default_line cv f fl =
     (if fg_Shorthand fl \<noteq> [] then ''  -'' @ fg_Shorthand fl @ '', '' else ''      '') @ ''--'' @ fg_Name fl @ ''=''
     @ (case fs_mem f (fg_Value fl) of VString _ \<Rightarrow> cv_quote cv (fg_DefValue fl) | _ \<Rightarrow> fg_DefValue fl)
     @ '': '' @ fg_Usage fl @ [CHR 0x0A]"

definition fs_PrintDefaults :: "fconv \<Rightarrow> flagSet \<Rightarrow> string list" where
  "fs_PrintDefaults cv f = map (default_line cv f \<circ> the) (fs_VisitAll f)"

definition defaultUsage :: "fconv \<Rightarrow> flagSet \<Rightarrow> string list" where
  "defaultUsage cv f = (''Usage of '' @ fs_name f @ [CHR '':'', CHR 0x0A]) # fs_PrintDefaults cv f"

definition fs_Usage :: "fconv \<Rightarrow> flagSet \<Rightarrow> flagSet" where
  "fs_Usage cv f = f\<lparr>fs_output := fs_output f
     @ [(fs_out f, if fs_cmdline f then UsageOf
        else if \<not> fs_usage f then DefaultUsage (defaultUsage cv f) else UsageOf)]\<rparr>"

definition fs_failf :: "fconv \<Rightarrow> flagSet \<Rightarrow> flag_error \<Rightarrow> flagSet \<times> flag_error option" where
  "fs_failf cv f e = (fs_Usage cv (f\<lparr>fs_output := fs_output f @ [(fs_out f, Failure e)]\<rparr>), Some e)"

section \<open>Defining flags\<close>

text \<open>A flag that is already there makes \<open>VarP\<close> panic; the shorthand is checked last.\<close>

definition fs_VarP ::
  "fconv \<Rightarrow> flagSet \<Rightarrow> nat \<Rightarrow> string \<Rightarrow> string \<Rightarrow> string \<Rightarrow> flagSet go" where
  "fs_VarP cv f addr name shorthand usage =
     (let fl = \<lparr>fg_Name = name, fg_Shorthand = shorthand, fg_Usage = usage, fg_Value = addr,
                fg_DefValue = value_String cv (fs_mem f addr)\<rparr>
      in if map_of (fs_formal f) name \<noteq> None
           then Panic (fs_name f @ '' flag redefined: '' @ name)
         else let f1 = f\<lparr>fs_formal := AList.update name fl (fs_formal f)\<rparr>
           in if shorthand = [] then Return f1
              else if 1 < length shorthand then Panic ''shorthand is more than one character''
              else if map_of (fs_shorthands f1) (hd shorthand) \<noteq> None
                then Panic ''shorthand redefinition''
              else Return (f1\<lparr>fs_shorthands := AList.update (hd shorthand) fl (fs_shorthands f1)\<rparr>))"

definition fs_Var :: "fconv \<Rightarrow> flagSet \<Rightarrow> nat \<Rightarrow> string \<Rightarrow> string \<Rightarrow> flagSet go" where
  "fs_Var cv f addr name usage = fs_VarP cv f addr name [] usage"

section \<open>Parsing\<close>

definition fs_setFlag ::
  "fconv \<Rightarrow> flagSet \<Rightarrow> flag \<Rightarrow> string \<Rightarrow> string \<Rightarrow> flagSet \<times> flag_error option" where
  "fs_setFlag cv f fl value origArg =
     (let (v, err) = value_Set cv (fs_mem f (fg_Value fl)) value;
          f1 = f\<lparr>fs_mem := (fs_mem f)(fg_Value fl := v)\<rparr>
      in case err of
           Some e \<Rightarrow> fs_failf cv f1 (InvalidArgument value origArg e)
         | None \<Rightarrow> (f1\<lparr>fs_actual := AList.update (fg_Name fl) fl (fs_actual f1)\<rparr>, None))"

text \<open>
  The letters of one argument; the result has the arguments that are left, as the last letter
  may take one.
\<close>

fun shorthand_loop ::
  "fconv \<Rightarrow> flagSet \<Rightarrow> string \<Rightarrow> string \<Rightarrow> string list \<Rightarrow> flagSet \<times> string list \<times> flag_error option" where
  "shorthand_loop cv f s [] args = (f, args, None)"
| "shorthand_loop cv f s (c # cs) args =
     (case map_of (fs_shorthands f) c of
        None \<Rightarrow>
          (if c = CHR ''h'' then (fs_Usage cv f, args, Some ErrHelp)
           else let (f', e) = fs_failf cv f (UnknownShorthand c (tl s)) in (f', args, e))
      | Some fl \<Rightarrow>
          (if is_bool_flag (fs_mem f (fg_Value fl))
           then shorthand_loop cv (fst (fs_setFlag cv f fl ''true'' s)) s cs args
           else if cs \<noteq> [] then let (f', e) = fs_setFlag cv f fl cs s in (f', args, e)
           else case args of
             [] \<Rightarrow> let (f', e) = fs_failf cv f (ShorthandNeedsArgument c (tl s)) in (f', args, e)
           | a # as \<Rightarrow> let (f', e) = fs_setFlag cv f fl a s in (f', as, e)))"

definition long_flag :: "fconv \<Rightarrow> flagSet \<Rightarrow> string \<Rightarrow> flagSet \<times> flag_error option" where
  "long_flag cv f s =
     (let name = drop 2 s
      in if name = [] \<or> hd name = CHR ''-'' \<or> hd name = CHR ''='' then fs_failf cv f (BadFlagSyntax s)
         else let split = split2 CHR ''='' name; name = hd split
           in case map_of (fs_formal f) name of
                None \<Rightarrow> (if name = ''help'' then (fs_Usage cv f, Some ErrHelp)
                         else fs_failf cv f (UnknownFlag name))
              | Some fl \<Rightarrow>
                  (if length split = 1 then
                     (if \<not> is_bool_flag (fs_mem f (fg_Value fl)) then fs_failf cv f (FlagNeedsArgument s)
                      else (fst (fs_setFlag cv f fl ''true'' s), None))
                   else fs_setFlag cv f fl (split ! 1) s))"

lemma shorthand_loop_shrinks:
  "shorthand_loop cv f s cs args = (f', args', e) \<Longrightarrow> length args' \<le> length args"
  by (induction cv f s cs args rule: shorthand_loop.induct)
    (auto simp: Let_def split: if_splits option.splits list.splits prod.splits)

function fs_parseArgs :: "fconv \<Rightarrow> flagSet \<Rightarrow> string list \<Rightarrow> flagSet \<times> flag_error option" where
  "fs_parseArgs cv f [] = (f, None)"
| "fs_parseArgs cv f (s # args) =
     (if s = [] \<or> hd s \<noteq> CHR ''-'' \<or> length s = 1 then
        (if \<not> fs_interspersed f then (f\<lparr>fs_args := fs_args f @ s # args\<rparr>, None)
         else fs_parseArgs cv (f\<lparr>fs_args := fs_args f @ [s]\<rparr>) args)
      else if s ! 1 = CHR ''-'' then
        (if length s = 2 then (f\<lparr>fs_args := fs_args f @ args\<rparr>, None)
         else case long_flag cv f s of
           (f', None) \<Rightarrow> fs_parseArgs cv f' args
         | (f', Some e) \<Rightarrow> (f', Some e))
      else case shorthand_loop cv f s (tl s) args of
             (f', args', None) \<Rightarrow> fs_parseArgs cv f' args'
           | (f', args', Some e) \<Rightarrow> (f', Some e))"
  by pat_completeness auto
termination
  by (relation "measure (\<lambda>(cv, f, args). length args)")
    (auto simp: less_Suc_eq_le dest: shorthand_loop_shrinks [OF sym])

declare fs_parseArgs.simps(2) [simp del]

text \<open>What \<open>Parse\<close> does: it returns, the process exits or it panics.\<close>

datatype parsed = Parsed "flag_error option" | Exit int | ParsePanic flag_error

definition fs_Parse :: "fconv \<Rightarrow> flagSet \<Rightarrow> string list \<Rightarrow> flagSet \<times> parsed" where
  "fs_Parse cv f arguments =
     (let (f', err) = fs_parseArgs cv (f\<lparr>fs_parsed := True, fs_args := []\<rparr>) arguments
      in (f', case err of None \<Rightarrow> Parsed None
          | Some e \<Rightarrow> (case fs_handling f' of ContinueOnError \<Rightarrow> Parsed (Some e)
              | ExitOnError \<Rightarrow> Exit 2 | PanicOnError \<Rightarrow> ParsePanic e)))"

section \<open>Well-formed flag sets\<close>

text \<open>
  The maps are keyed by what their flags say, every shorthand and every flag that has been set is
  a defined flag, under its own name.
\<close>

definition fs_wf :: "flagSet \<Rightarrow> bool" where
  "fs_wf f \<longleftrightarrow> distinct (map fst (fs_formal f)) \<and> distinct (map fst (fs_actual f))
     \<and> (\<forall>(n, fl) \<in> set (fs_formal f). fg_Name fl = n)
     \<and> (\<forall>c fl. map_of (fs_shorthands f) c = Some fl \<longrightarrow>
          fg_Shorthand fl = [c] \<and> map_of (fs_formal f) (fg_Name fl) = Some fl)
     \<and> (\<forall>(n, fl) \<in> set (fs_actual f). map_of (fs_formal f) n = Some fl)"

text \<open>The type of a variable.\<close>

fun kind_of :: "fvalue \<Rightarrow> fvalue" where
  "kind_of (VBool _) = VBool False"
| "kind_of (VInt _) = VInt 0"
| "kind_of (VInt8 _) = VInt8 0"
| "kind_of (VInt32 _) = VInt32 0"
| "kind_of (VInt64 _) = VInt64 0"
| "kind_of (VUint _) = VUint 0"
| "kind_of (VUint8 _) = VUint8 0"
| "kind_of (VUint16 _) = VUint16 0"
| "kind_of (VUint32 _) = VUint32 0"
| "kind_of (VUint64 _) = VUint64 0"
| "kind_of (VString _) = VString []"
| "kind_of (VFloat32 _) = VFloat32 0"
| "kind_of (VFloat _) = VFloat NaN"
| "kind_of (VDuration _) = VDuration 0"
| "kind_of (VIP _) = VIP []"
| "kind_of (VIPMask _) = VIPMask []"

text \<open>What parsing may change: the variables of flags, within their types, and what was set.\<close>

definition flag_vars :: "flagSet \<Rightarrow> nat set" where
  "flag_vars f = (fg_Value \<circ> snd) ` set (fs_formal f)"

definition only_sets :: "flagSet \<Rightarrow> flagSet \<Rightarrow> bool" where
  "only_sets f f' \<longleftrightarrow> fs_formal f' = fs_formal f \<and> fs_shorthands f' = fs_shorthands f
     \<and> fs_interspersed f' = fs_interspersed f \<and> fs_handling f' = fs_handling f
     \<and> (\<forall>a. kind_of (fs_mem f' a) = kind_of (fs_mem f a))
     \<and> (\<forall>a. a \<notin> flag_vars f \<longrightarrow> fs_mem f' a = fs_mem f a)
     \<and> (fs_wf f \<longrightarrow> fs_wf f')"

lemma fs_wf_update [simp]:
  "fs_wf (f\<lparr>fs_output := x\<rparr>) = fs_wf f" "fs_wf (f\<lparr>fs_args := y\<rparr>) = fs_wf f"
  "fs_wf (f\<lparr>fs_mem := m\<rparr>) = fs_wf f" "fs_wf (f\<lparr>fs_parsed := b\<rparr>) = fs_wf f"
  by (simp_all add: fs_wf_def)

lemma only_sets_refl [simp]: "only_sets f f"
  by (simp add: only_sets_def)

lemma only_sets_trans: "only_sets f g \<Longrightarrow> only_sets g h \<Longrightarrow> only_sets f h"
  by (simp add: only_sets_def flag_vars_def)

lemma only_sets_output [simp]:
  "only_sets f (f\<lparr>fs_output := x\<rparr>)" "only_sets f (f\<lparr>fs_args := y\<rparr>)"
  by (simp_all add: only_sets_def)

lemma only_sets_usage [simp]: "only_sets f (fs_Usage cv f)"
  by (simp add: fs_Usage_def)

lemma only_sets_failf: "fs_failf cv f e = (f', err) \<Longrightarrow> only_sets f f'"
  unfolding fs_failf_def using only_sets_trans [OF only_sets_output(1) only_sets_usage] by blast

lemma failf_error: "fs_failf cv f e = (f', err) \<Longrightarrow> err = Some e"
  by (simp add: fs_failf_def)

lemma value_Set_kind: "value_Set cv v s = (v', err) \<Longrightarrow> kind_of v' = kind_of v"
  by (cases v) (auto simp: map_prod_def split: prod.splits)

lemma is_bool_kind: "kind_of v = kind_of w \<Longrightarrow> is_bool_flag v = is_bool_flag w"
  by (cases v; cases w) (auto simp: boolValue_IsBoolFlag_def)

lemma value_Set_result: "kind_of v = kind_of w \<Longrightarrow> snd (value_Set cv v s) = snd (value_Set cv w s)"
  by (cases v; cases w) (auto simp: ipValue_Set_def ipMaskValue_Set_def split: option.splits)

text \<open>A flag of the set, by its name or its letter.\<close>

definition defined :: "flagSet \<Rightarrow> flag \<Rightarrow> bool" where
  "defined f fl \<longleftrightarrow> map_of (fs_formal f) (fg_Name fl) = Some fl"

lemma defined_formal: "fs_wf f \<Longrightarrow> map_of (fs_formal f) n = Some fl \<Longrightarrow> defined f fl \<and> fg_Name fl = n"
  using map_of_SomeD [of "fs_formal f" n fl] by (fastforce simp: fs_wf_def defined_def)

lemma defined_shorthand: "fs_wf f \<Longrightarrow> map_of (fs_shorthands f) c = Some fl \<Longrightarrow> defined f fl"
  by (simp add: fs_wf_def defined_def)

lemma set_alist_update:
  "set (AList.update k v xs) \<subseteq> insert (k, v) (set xs)"
  by (induction xs) auto

lemma setFlag_only_sets:
  assumes "defined f fl" and "fs_setFlag cv f fl v s = (f', e)" shows "only_sets f f'"
proof -
  obtain w err where v: "value_Set cv (fs_mem f (fg_Value fl)) v = (w, err)"
    by (cases "value_Set cv (fs_mem f (fg_Value fl)) v")
  let ?g = "f\<lparr>fs_mem := (fs_mem f)(fg_Value fl := w)\<rparr>"
  have in_vars: "fg_Value fl \<in> flag_vars f"
    using assms(1) by (force simp: defined_def flag_vars_def dest: map_of_SomeD)
  have g: "only_sets f ?g"
    using in_vars value_Set_kind [OF v] by (auto simp: only_sets_def)
  show ?thesis
  proof (cases err)
    case (Some x)
    then have "fs_failf cv ?g (InvalidArgument v s x) = (f', e)"
      using assms(2) v by (simp add: fs_setFlag_def)
    with g only_sets_failf only_sets_trans show ?thesis by blast
  next
    case None
    then have f': "f' = ?g\<lparr>fs_actual := AList.update (fg_Name fl) fl (fs_actual f)\<rparr>"
      using assms(2) v by (simp add: fs_setFlag_def)
    have "only_sets ?g f'"
      using assms(1) set_alist_update [of "fg_Name fl" fl "fs_actual f"]
      unfolding f' only_sets_def fs_wf_def defined_def
      by (auto simp: distinct_update)
    with g only_sets_trans show ?thesis by blast
  qed
qed

lemma only_sets_wf: "only_sets f f' \<Longrightarrow> fs_wf f \<Longrightarrow> fs_wf f'"
  by (simp add: only_sets_def)

lemma shorthand_loop_only_sets:
  "fs_wf f \<Longrightarrow> shorthand_loop cv f s cs args = (f', args', e) \<Longrightarrow> only_sets f f'"
proof (induction cv f s cs args rule: shorthand_loop.induct)
  case (2 cv f s c cs args)
  show ?case
  proof (cases "map_of (fs_shorthands f) c")
    case None
    with "2.prems"(2) show ?thesis
      by (auto split: if_splits prod.splits dest: only_sets_failf)
  next
    case (Some fl)
    from defined_shorthand [OF "2.prems"(1) Some] have fl: "defined f fl" .
    show ?thesis
    proof (cases "is_bool_flag (fs_mem f (fg_Value fl))")
      case True
      obtain g e' where g: "fs_setFlag cv f fl ''true'' s = (g, e')"
        by (cases "fs_setFlag cv f fl ''true'' s")
      from setFlag_only_sets [OF fl g] have fg: "only_sets f g" .
      from "2.IH" [OF Some True] fg "2.prems" Some True g have "only_sets g f'"
        by (simp add: only_sets_wf)
      with fg show ?thesis by (rule only_sets_trans)
    next
      case False
      with "2.prems"(2) Some show ?thesis
        by (auto split: if_splits prod.splits list.splits
            dest: only_sets_failf setFlag_only_sets [OF fl])
    qed
  qed
qed simp

lemma long_flag_only_sets:
  assumes "fs_wf f" and "long_flag cv f s = (f', e)" shows "only_sets f f'"
proof (cases "map_of (fs_formal f) (hd (split2 CHR ''='' (drop 2 s)))")
  case None
  with assms(2) show ?thesis
    by (auto simp: long_flag_def Let_def split: if_splits dest: only_sets_failf)
next
  case (Some fl)
  with assms(1) have fl: "defined f fl" using defined_formal by blast
  from assms(2) Some have "(\<exists>x. fs_failf cv f x = (f', e)) \<or> (\<exists>v. f' = fst (fs_setFlag cv f fl v s))"
    by (simp add: long_flag_def Let_def split: if_splits) (metis fst_conv)+
  then show ?thesis
  proof
    assume "\<exists>v. f' = fst (fs_setFlag cv f fl v s)"
    then obtain v where "fs_setFlag cv f fl v s = (f', snd (fs_setFlag cv f fl v s))"
      by (metis prod.collapse)
    then show ?thesis by (rule setFlag_only_sets [OF fl])
  qed (blast dest: only_sets_failf)
qed

lemma parseArgs_only_sets:
  "fs_wf f \<Longrightarrow> fs_parseArgs cv f args = (f', e) \<Longrightarrow> only_sets f f'"
proof (induction cv f args rule: fs_parseArgs.induct)
  case (2 cv f s args)
  let ?pos = "s = [] \<or> hd s \<noteq> CHR ''-'' \<or> length s = 1"
  consider (pos) ?pos | (long) "\<not> ?pos" "s ! 1 = CHR ''-''" | (short) "\<not> ?pos" "s ! 1 \<noteq> CHR ''-''"
    by blast
  then show ?case
  proof cases
    case pos
    let ?g = "f\<lparr>fs_args := fs_args f @ [s]\<rparr>"
    from "2.IH"(1) [OF pos] "2.prems" pos have "only_sets f f'" if "fs_interspersed f"
      using that only_sets_trans [OF only_sets_output(2)] by (simp add: fs_parseArgs.simps(2))
    with "2.prems" pos show ?thesis by (auto simp: fs_parseArgs.simps(2) split: if_splits)
  next
    case long
    obtain g e' where g: "long_flag cv f s = (g, e')" by (cases "long_flag cv f s")
    from long_flag_only_sets [OF "2.prems"(1) g] have fg: "only_sets f g" .
    from "2.IH"(2) [OF long(1) long(2) _ g [symmetric]] fg "2.prems" have "only_sets f f'"
      if "length s \<noteq> 2" "e' = None"
      using that long g only_sets_trans [OF fg] only_sets_wf [OF fg]
      by (simp add: fs_parseArgs.simps(2))
    with "2.prems" long g fg show ?thesis
      by (auto simp: fs_parseArgs.simps(2) split: if_splits option.splits)
  next
    case short
    obtain g args' e' where g: "shorthand_loop cv f s (tl s) args = (g, args', e')"
      by (cases "shorthand_loop cv f s (tl s) args")
    from shorthand_loop_only_sets [OF "2.prems"(1) g] have fg: "only_sets f g" .
    from "2.IH"(3) [OF short g [symmetric]] fg "2.prems" have "only_sets f f'" if "e' = None"
      using that short g only_sets_trans [OF fg] only_sets_wf [OF fg]
      by (simp add: fs_parseArgs.simps(2))
    with "2.prems" short g fg show ?thesis
      by (auto simp: fs_parseArgs.simps(2) split: option.splits)
  qed
qed simp

lemma Parse_only_sets:
  assumes "fs_wf f" and "fs_Parse cv f args = (f', result)" shows "only_sets f f'"
proof -
  let ?f = "f\<lparr>fs_parsed := True, fs_args := []\<rparr>"
  obtain e where "fs_parseArgs cv ?f args = (f', e)"
    using assms(2) by (auto simp: fs_Parse_def Let_def split: prod.splits)
  with parseArgs_only_sets [of ?f] assms(1) have "only_sets ?f f'" by simp
  then show ?thesis by (simp add: only_sets_def flag_vars_def)
qed

text \<open>Defining a flag keeps the set well-formed when it does not panic.\<close>

lemma VarP_wf:
  assumes "fs_VarP cv f a name sh usage = Return f'" and "fs_wf f" shows "fs_wf f'"
proof -
  let ?fl = "\<lparr>fg_Name = name, fg_Shorthand = sh, fg_Usage = usage, fg_Value = a,
                fg_DefValue = value_String cv (fs_mem f a)\<rparr>"
  let ?g = "f\<lparr>fs_formal := AList.update name ?fl (fs_formal f)\<rparr>"
  from assms(1) have new: "map_of (fs_formal f) name = None"
    by (simp add: fs_VarP_def Let_def split: if_splits)
  have kept: "map_of (fs_formal f) n = Some fl \<Longrightarrow> map_of (fs_formal ?g) n = Some fl" for n fl
    using new by (cases "n = name") (simp_all add: update_conv')
  have "fg_Name fl = n" if "(n, fl) \<in> set (AList.update name ?fl (fs_formal f))" for n fl
    using that assms(2) set_alist_update [of name ?fl "fs_formal f"] by (auto simp: fs_wf_def)
  then have nm: "\<forall>(n, fl) \<in> set (fs_formal ?g). fg_Name fl = n" by auto
  have d: "distinct (map fst (fs_formal ?g))"
    using assms(2) by (simp add: fs_wf_def distinct_update)
  have sh: "map_of (fs_shorthands ?g) c = Some fl \<Longrightarrow>
      fg_Shorthand fl = [c] \<and> map_of (fs_formal ?g) (fg_Name fl) = Some fl" for c fl
    using assms(2) kept [of "fg_Name fl" fl] unfolding fs_wf_def by simp
  have "map_of (fs_formal ?g) n = Some fl" if "(n, fl) \<in> set (fs_actual f)" for n fl
    using assms(2) kept [of n fl] that unfolding fs_wf_def by blast
  then have ac: "\<forall>(n, fl) \<in> set (fs_actual ?g). map_of (fs_formal ?g) n = Some fl" by auto
  have da: "distinct (map fst (fs_actual ?g))" using assms(2) by (simp add: fs_wf_def)
  have g: "fs_wf ?g"
    unfolding fs_wf_def using d da nm sh ac by blast
  from assms(1) new have "f' = ?g \<or> (\<exists>c. sh = [c]
      \<and> f' = ?g\<lparr>fs_shorthands := AList.update c ?fl (fs_shorthands f)\<rparr>)"
    by (cases sh) (auto simp: fs_VarP_def Let_def split: if_splits)
  then show ?thesis
  proof
    assume "\<exists>c. sh = [c] \<and> f' = ?g\<lparr>fs_shorthands := AList.update c ?fl (fs_shorthands f)\<rparr>"
    then obtain c where c: "sh = [c]"
      and f': "f' = ?g\<lparr>fs_shorthands := AList.update c ?fl (fs_shorthands f)\<rparr>" by blast
    from g show ?thesis unfolding f' fs_wf_def by (auto simp: update_conv' c)
  qed (use g in simp)
qed

text \<open>The flags a well-formed set visits are its flags, sorted by their names.\<close>

lemma sortFlags_some:
  assumes "\<forall>(n, fl) \<in> set flags. fg_Name fl = n" and "distinct (map fst flags)"
  shows "\<exists>fls. sortFlags flags = map Some fls \<and> map fg_Name fls = sort (map fst flags)"
proof -
  have names: "map (fg_Name \<circ> snd) flags = map fst flags"
    using assms(1) by auto
  let ?fls = "map (the \<circ> map_of flags) (sort (map fst flags))"
  have dom: "n \<in> set (map fst flags) \<Longrightarrow> \<exists>fl. map_of flags n = Some fl \<and> fg_Name fl = n" for n
    using assms(1) map_of_is_SomeI [OF assms(2)] by fastforce
  have "sortFlags flags = map Some ?fls"
    unfolding sortFlags_def names using dom by fastforce
  moreover have "fg_Name (the (map_of flags n)) = n" if "n \<in> set (sort (map fst flags))" for n
    using dom [of n] that by auto
  then have "map fg_Name ?fls = sort (map fst flags)"
    unfolding map_map o_def by (rule map_idI)
  ultimately show ?thesis by blast
qed

end
