(* ===== verification/PflagParse.thy ===== *)
theory PflagParse
  imports Pflag
begin

text \<open>
  What \<open>FlagSet.Parse\<close> accepts: command lines as lists of items, their text, and the assignments
  they stand for. The parser reads the text of every list of items back as exactly its
  assignments, in order, and its positional arguments; whatever it is given, it changes no
  variable but those of the flags and no type.
\<close>

section \<open>Command lines\<close>

text \<open>
  An item is an argument that is no flag, a long flag without and with a value, a group of
  boolean letters, and such a group before a letter whose value follows in the same argument or
  in the next.
\<close>

datatype item =
    Positional string
  | Long string
  | LongEq string string
  | Letters string
  | LettersWith string char string
  | LettersThen string char string

fun render :: "item \<Rightarrow> string list" where
  "render (Positional s) = [s]"
| "render (Long n) = [''--'' @ n]"
| "render (LongEq n v) = [''--'' @ n @ ''='' @ v]"
| "render (Letters cs) = [''-'' @ cs]"
| "render (LettersWith cs c v) = [''-'' @ cs @ c # v]"
| "render (LettersThen cs c v) = [''-'' @ cs @ [c], v]"

fun positional :: "item \<Rightarrow> string list" where
  "positional (Positional s) = [s]"
| "positional _ = []"

definition letters_true :: "flagSet \<Rightarrow> string \<Rightarrow> (flag \<times> string) list" where
  "letters_true f cs = map (\<lambda>c. (the (map_of (fs_shorthands f) c), ''true'')) cs"

fun sets :: "flagSet \<Rightarrow> item \<Rightarrow> (flag \<times> string) list" where
  "sets f (Positional s) = []"
| "sets f (Long n) = [(the (map_of (fs_formal f) n), ''true'')]"
| "sets f (LongEq n v) = [(the (map_of (fs_formal f) n), v)]"
| "sets f (Letters cs) = letters_true f cs"
| "sets f (LettersWith cs c v) = letters_true f cs @ [(the (map_of (fs_shorthands f) c), v)]"
| "sets f (LettersThen cs c v) = letters_true f cs @ [(the (map_of (fs_shorthands f) c), v)]"

text \<open>Which items mean something: their flags are defined, and their values fit the types.\<close>

definition bool_var :: "flagSet \<Rightarrow> flag option \<Rightarrow> bool" where
  "bool_var f fo = (case fo of None \<Rightarrow> False | Some fl \<Rightarrow> is_bool_flag (fs_mem f (fg_Value fl)))"

definition takes :: "fconv \<Rightarrow> flagSet \<Rightarrow> flag option \<Rightarrow> string \<Rightarrow> bool" where
  "takes cv f fo v =
     (case fo of None \<Rightarrow> False
      | Some fl \<Rightarrow> snd (value_Set cv (fs_mem f (fg_Value fl)) v) = None)"

definition long_name :: "string \<Rightarrow> bool" where
  "long_name n \<longleftrightarrow> n \<noteq> [] \<and> hd n \<noteq> CHR ''-'' \<and> CHR ''='' \<notin> set n"

fun item_ok :: "fconv \<Rightarrow> flagSet \<Rightarrow> item \<Rightarrow> bool" where
  "item_ok cv f (Positional s) = (s = [] \<or> hd s \<noteq> CHR ''-'' \<or> length s = 1)"
| "item_ok cv f (Long n) = (long_name n \<and> bool_var f (map_of (fs_formal f) n))"
| "item_ok cv f (LongEq n v) = (long_name n \<and> takes cv f (map_of (fs_formal f) n) v)"
| "item_ok cv f (Letters cs) =
     (cs \<noteq> [] \<and> hd cs \<noteq> CHR ''-'' \<and> list_all (\<lambda>c. bool_var f (map_of (fs_shorthands f) c)) cs)"
| "item_ok cv f (LettersWith cs c v) =
     (hd (cs @ [c]) \<noteq> CHR ''-'' \<and> list_all (\<lambda>c. bool_var f (map_of (fs_shorthands f) c)) cs
      \<and> \<not> bool_var f (map_of (fs_shorthands f) c) \<and> takes cv f (map_of (fs_shorthands f) c) v \<and> v \<noteq> [])"
| "item_ok cv f (LettersThen cs c v) =
     (hd (cs @ [c]) \<noteq> CHR ''-'' \<and> list_all (\<lambda>c. bool_var f (map_of (fs_shorthands f) c)) cs
      \<and> \<not> bool_var f (map_of (fs_shorthands f) c) \<and> takes cv f (map_of (fs_shorthands f) c) v)"

text \<open>One assignment.\<close>

definition assign :: "fconv \<Rightarrow> flagSet \<Rightarrow> flag \<times> string \<Rightarrow> flagSet" where
  "assign cv f a =
     f\<lparr>fs_mem := (fs_mem f)(fg_Value (fst a) := fst (value_Set cv (fs_mem f (fg_Value (fst a))) (snd a))),
       fs_actual := AList.update (fg_Name (fst a)) (fst a) (fs_actual f)\<rparr>"

section \<open>What stays the same\<close>

definition same_flags :: "flagSet \<Rightarrow> flagSet \<Rightarrow> bool" where
  "same_flags f f' \<longleftrightarrow> fs_formal f' = fs_formal f \<and> fs_shorthands f' = fs_shorthands f
     \<and> fs_interspersed f' = fs_interspersed f \<and> (\<forall>a. kind_of (fs_mem f' a) = kind_of (fs_mem f a))"

lemma same_flags_refl [simp]: "same_flags f f"
  by (simp add: same_flags_def)

lemma same_flags_trans: "same_flags f g \<Longrightarrow> same_flags g h \<Longrightarrow> same_flags f h"
  by (simp add: same_flags_def)

lemma same_flags_args [simp]: "same_flags f (g\<lparr>fs_args := x\<rparr>) = same_flags f g"
  by (simp add: same_flags_def)

lemma same_flags_assign [simp]: "same_flags f (assign cv f a)"
  using value_Set_kind [OF surjective_pairing] by (simp add: same_flags_def assign_def)

lemma same_flags_assigns: "same_flags f (foldl (assign cv) f as)"
  by (induction as arbitrary: f) (auto intro: same_flags_trans [OF same_flags_assign])

lemma bool_var_same: "same_flags f g \<Longrightarrow> bool_var g fo = bool_var f fo"
  by (cases fo) (auto simp: bool_var_def same_flags_def intro!: is_bool_kind)

lemma takes_same: "same_flags f g \<Longrightarrow> takes cv g fo v = takes cv f fo v"
  using value_Set_result [of "fs_mem g a" "fs_mem f a" cv v for a]
  by (cases fo) (simp_all add: takes_def same_flags_def)

lemma item_ok_same:
  assumes "same_flags f g" shows "item_ok cv g it = item_ok cv f it"
  using assms bool_var_same [OF assms] takes_same [OF assms]
  by (cases it) (simp_all add: same_flags_def)

lemma sets_same: "same_flags f g \<Longrightarrow> sets g it = sets f it"
  by (cases it) (simp_all add: same_flags_def letters_true_def)

lemma assign_args: "assign cv (f\<lparr>fs_args := x\<rparr>) a = (assign cv f a)\<lparr>fs_args := x\<rparr>"
  by (simp add: assign_def)

lemma assigns_args: "foldl (assign cv) (f\<lparr>fs_args := x\<rparr>) as = (foldl (assign cv) f as)\<lparr>fs_args := x\<rparr>"
  by (induction as arbitrary: f) (simp_all add: assign_args)

lemma args_assign [simp]: "fs_args (assign cv f a) = fs_args f"
  by (simp add: assign_def)

lemma args_assigns [simp]: "fs_args (foldl (assign cv) f as) = fs_args f"
  by (induction as arbitrary: f) (simp_all add: assign_def)

section \<open>One item at a time\<close>

lemma setFlag_takes:
  "takes cv f (Some fl) v \<Longrightarrow> fs_setFlag cv f fl v s = (assign cv f (fl, v), None)"
  by (auto simp: takes_def fs_setFlag_def assign_def split: prod.splits)

lemma bool_takes_true: "bool_var f (Some fl) \<Longrightarrow> takes cv f (Some fl) ''true''"
  by (cases "fs_mem f (fg_Value fl)")
    (simp_all add: bool_var_def takes_def boolValue_Set_def parse_bool_def)

lemma shorthand_loop_letters:
  assumes "list_all (\<lambda>c. bool_var f (map_of (fs_shorthands f) c)) cs"
  shows "shorthand_loop cv f s (cs @ ds) args
    = shorthand_loop cv (foldl (assign cv) f (letters_true f cs)) s ds args"
  using assms
proof (induction cs arbitrary: f)
  case (Cons c cs)
  then obtain fl where fl: "map_of (fs_shorthands f) c = Some fl" and b: "bool_var f (Some fl)"
    by (cases "map_of (fs_shorthands f) c") (auto simp: bool_var_def)
  let ?g = "assign cv f (fl, ''true'')"
  have same: "same_flags f ?g" by simp
  then have sh: "fs_shorthands ?g = fs_shorthands f" by (simp add: same_flags_def)
  have "list_all (\<lambda>c. bool_var ?g (map_of (fs_shorthands ?g) c)) cs"
    using Cons.prems by (simp add: sh bool_var_same [OF same])
  from Cons.IH [OF this] fl b show ?case
    by (simp add: setFlag_takes [OF bool_takes_true] letters_true_def sh bool_var_def)
qed (simp add: letters_true_def)

lemma split2_long: "long_name n \<Longrightarrow> split2 CHR ''='' n = [n]" "long_name n \<Longrightarrow> split2 CHR ''='' (n @ CHR ''='' # v) = [n, v]"
  by (simp_all add: long_name_def split2_none split2_append)

lemma long_name_hd: "long_name n \<Longrightarrow> n \<noteq> [] \<and> hd (n @ t) \<noteq> CHR ''-'' \<and> hd (n @ t) \<noteq> CHR ''=''"
  by (cases n) (auto simp: long_name_def)

lemma parse_item:
  assumes ok: "item_ok cv f it" and "fs_interspersed f"
  shows "fs_parseArgs cv f (render it @ args)
    = fs_parseArgs cv ((foldl (assign cv) f (sets f it))\<lparr>fs_args := fs_args f @ positional it\<rparr>) args"
    (is "_ = fs_parseArgs cv ?g args")
proof -
  have keep: "h\<lparr>fs_args := fs_args f\<rparr> = h" if "fs_args h = fs_args f" for h
    using that by simp
  have long: "fs_parseArgs cv f ((''--'' @ n) # args) = fs_parseArgs cv h args"
    if "long_flag cv f (''--'' @ n) = (h, None)" "n \<noteq> []" for n h
    using that by (simp add: fs_parseArgs.simps(2))
  have short: "fs_parseArgs cv f ((''-'' @ cs) # args) = fs_parseArgs cv h args'"
    if "shorthand_loop cv f (''-'' @ cs) cs args = (h, args', None)" "cs \<noteq> []" "hd cs \<noteq> CHR ''-''"
    for cs h args args'
    using that by (cases cs) (simp_all add: fs_parseArgs.simps(2))
  note loop = shorthand_loop_letters [where cv = cv and f = f]
  have after: "map_of (fs_shorthands (foldl (assign cv) f as)) c = Some fl"
    "\<not> is_bool_flag (fs_mem (foldl (assign cv) f as) (fg_Value fl))"
    "fs_setFlag cv (foldl (assign cv) f as) fl v s = (assign cv (foldl (assign cv) f as) (fl, v), None)"
    if "map_of (fs_shorthands f) c = Some fl" "\<not> bool_var f (Some fl)" "takes cv f (Some fl) v"
    for as c fl v s
    using that same_flags_assigns [of f cv as] takes_same [OF same_flags_assigns [of f cv as]]
      bool_var_same [OF same_flags_assigns [of f cv as], of "Some fl"]
    by (simp_all add: setFlag_takes bool_var_def) (simp add: same_flags_def)
  show ?thesis
  proof (cases it)
    case (Positional s)
    with assms show ?thesis by (auto simp: fs_parseArgs.simps(2))
  next
    case (Long n)
    with ok obtain fl where fl: "map_of (fs_formal f) n = Some fl" "bool_var f (Some fl)"
      and n: "long_name n" by (cases "map_of (fs_formal f) n") (auto simp: bool_var_def)
    have "long_flag cv f (''--'' @ n) = (assign cv f (fl, ''true''), None)"
      using fl long_name_hd [OF n, of "[]"]
      by (simp add: long_flag_def Let_def split2_long [OF n] setFlag_takes [OF bool_takes_true] bool_var_def)
    from long [OF this] Long fl long_name_hd [OF n, of "[]"] show ?thesis
      by (simp add: assign_def)
  next
    case (LongEq n v)
    with ok obtain fl where fl: "map_of (fs_formal f) n = Some fl" "takes cv f (Some fl) v"
      and n: "long_name n" by (cases "map_of (fs_formal f) n") (auto simp: takes_def)
    have "long_flag cv f (''--'' @ n @ ''='' @ v) = (assign cv f (fl, v), None)"
      using fl long_name_hd [OF n, of "[]"]
      by (simp add: long_flag_def Let_def split2_long [OF n] setFlag_takes)
    from long [OF this] LongEq fl long_name_hd [OF n, of "[]"] show ?thesis
      by (simp add: assign_def)
  next
    case (Letters cs)
    with ok have "shorthand_loop cv f (''-'' @ cs) cs args
        = (foldl (assign cv) f (letters_true f cs), args, None)"
      using loop [of cs "''-'' @ cs" "[]" args] by simp
    from short [OF this] ok Letters show ?thesis by (simp add: keep)
  next
    case (LettersWith cs c v)
    let ?h = "foldl (assign cv) f (letters_true f cs)"
    from ok LettersWith obtain fl where fl: "map_of (fs_shorthands f) c = Some fl" "\<not> bool_var f (Some fl)"
      "takes cv f (Some fl) v" by (cases "map_of (fs_shorthands f) c") (auto simp: takes_def)
    have "shorthand_loop cv f (''-'' @ cs @ c # v) (cs @ c # v) args
        = (assign cv ?h (fl, v), args, None)"
      using ok LettersWith by (simp add: loop after [OF fl])
    from short [OF this] ok LettersWith fl show ?thesis
      by (cases cs) (simp_all add: keep)
  next
    case (LettersThen cs c v)
    let ?h = "foldl (assign cv) f (letters_true f cs)"
    from ok LettersThen obtain fl where fl: "map_of (fs_shorthands f) c = Some fl" "\<not> bool_var f (Some fl)"
      "takes cv f (Some fl) v" by (cases "map_of (fs_shorthands f) c") (auto simp: takes_def)
    have "shorthand_loop cv f (''-'' @ cs @ [c]) (cs @ [c]) (v # args)
        = (assign cv ?h (fl, v), args, None)"
      using ok LettersThen by (simp add: loop after [OF fl])
    from short [OF this] ok LettersThen fl show ?thesis
      by (cases cs) (simp_all add: keep)
  qed
qed

section \<open>Properties\<close>

lemma parse_items:
  assumes "\<forall>it \<in> set items. item_ok cv f it" and "fs_interspersed f"
  shows "fs_parseArgs cv f (concat (map render items) @ args)
    = fs_parseArgs cv ((foldl (assign cv) f (concat (map (sets f) items)))
        \<lparr>fs_args := fs_args f @ concat (map positional items)\<rparr>) args"
  using assms
proof (induction items arbitrary: f)
  case (Cons it items)
  let ?g = "(foldl (assign cv) f (sets f it))\<lparr>fs_args := fs_args f @ positional it\<rparr>"
  have same: "same_flags f ?g" by (simp add: same_flags_assigns)
  then have "fs_interspersed ?g" using Cons.prems(2) by (simp add: same_flags_def)
  with Cons.IH [of ?g] Cons.prems item_ok_same [OF same] sets_same [OF same]
    parse_item [of cv f it "concat (map render items) @ args"]
  show ?case by (simp add: assigns_args)
qed simp

text \<open>
  C29. \<open>Parse\<close> reads the text of a command line back: for every list of items whose flags are
  defined and whose values fit the flags' types, flags and arguments in any order, followed by
  \<open>--\<close> and any arguments, it makes exactly the items' assignments, in their order, leaves the
  positional items and what follows the \<open>--\<close> as the arguments, and reports no error. Nothing
  behind the \<open>--\<close> is taken for a flag.
\<close>

theorem parse_reads_items:
  assumes "fs_interspersed f" and "\<forall>it \<in> set items. item_ok cv f it"
  shows "fs_Parse cv f (concat (map render items) @ ''--'' # rest)
    = ((foldl (assign cv) (f\<lparr>fs_parsed := True\<rparr>) (concat (map (sets f) items)))
         \<lparr>fs_args := concat (map positional items) @ rest\<rparr>, Parsed None)"
proof -
  let ?f = "f\<lparr>fs_parsed := True, fs_args := []\<rparr>"
  have same: "same_flags f ?f" by (simp add: same_flags_def)
  then have "\<forall>it \<in> set items. item_ok cv ?f it" and "fs_interspersed ?f"
    using assms item_ok_same [OF same] by (simp_all add: same_flags_def)
  from parse_items [OF this, of "''--'' # rest"] show ?thesis
    unfolding sets_same [OF same, THEN ext]
    by (simp add: fs_Parse_def fs_parseArgs.simps(2) assigns_args)
qed

text \<open>
  C30. Parsing is type safe: whatever the arguments, and whether or not it ends in an error, the
  flags that are defined stay the same, every variable keeps its type, no variable but those
  bound to a flag changes, the set stays well-formed, and \<open>Visit\<close> meets no nil pointer.
\<close>

theorem parse_well_typed:
  assumes "fs_wf f" and "fs_Parse cv f args = (f', result)"
  shows "fs_formal f' = fs_formal f \<and> fs_shorthands f' = fs_shorthands f
    \<and> (\<forall>a. kind_of (fs_mem f' a) = kind_of (fs_mem f a))
    \<and> (\<forall>a. fs_mem f' a \<noteq> fs_mem f a \<longrightarrow> a \<in> flag_vars f)
    \<and> fs_wf f' \<and> None \<notin> set (fs_Visit f')"
proof -
  have o: "only_sets f f'" by (rule Parse_only_sets [OF assms])
  then have w: "fs_wf f'" using assms(1) by (simp add: only_sets_def)
  have "\<forall>(n, fl) \<in> set (fs_actual f'). fg_Name fl = n"
    using w by (fastforce simp: fs_wf_def dest: map_of_SomeD)
  with w obtain fls where "fs_Visit f' = map Some fls"
    using sortFlags_some [of "fs_actual f'"] by (auto simp: fs_Visit_def fs_wf_def)
  then have "None \<notin> set (fs_Visit f')" by auto
  with o w show ?thesis by (auto simp: only_sets_def flag_vars_def)
qed

end
