(* ===== verification/PflagTypes.thy ===== *)
theory PflagTypes
  imports Pflag
begin

text \<open>
  The flags of each type (\<open>bool.go\<close>, \<open>int.go\<close>, ..., \<open>ipmask.go\<close>): the methods of a flag set that define
  one on a variable of the caller (\<open>fs_IntVar\<close>, and \<open>fs_IntVarP\<close> with a letter) or on a new one
  (\<open>fs_Int\<close>, \<open>fs_IntP\<close>), whose address they return. \<open>newIntValue\<close> and its like store the default in the
  variable and give the variable the methods of a flag's value.
\<close>

text \<open>\<open>p := new(T)\<close>: the variable at the next address.\<close>

definition new_var :: "(nat \<Rightarrow> flagSet \<Rightarrow> flagSet go) \<Rightarrow> flagSet \<Rightarrow> (nat \<times> flagSet) go" where
  "new_var def f =
     (let p = fs_next f
      in go_bind (def p (f\<lparr>fs_next := Suc p\<rparr>)) (\<lambda>f'. Return (p, f')))"

section \<open>bool\<close>

definition newBoolValue :: "flagSet \<Rightarrow> bool \<Rightarrow> nat \<Rightarrow> flagSet" where
  "newBoolValue f val p = f\<lparr>fs_mem := (fs_mem f)(p := VBool val)\<rparr>"

definition fs_BoolVar :: "fconv \<Rightarrow> flagSet \<Rightarrow> nat \<Rightarrow> string \<Rightarrow> bool \<Rightarrow> string \<Rightarrow> flagSet go" where
  "fs_BoolVar cv f p name val usage = fs_VarP cv (newBoolValue f val p) p name [] usage"

definition fs_BoolVarP :: "fconv \<Rightarrow> flagSet \<Rightarrow> nat \<Rightarrow> string \<Rightarrow> string \<Rightarrow> bool \<Rightarrow> string \<Rightarrow> flagSet go" where
  "fs_BoolVarP cv f p name shorthand val usage = fs_VarP cv (newBoolValue f val p) p name shorthand usage"

definition fs_Bool :: "fconv \<Rightarrow> flagSet \<Rightarrow> string \<Rightarrow> bool \<Rightarrow> string \<Rightarrow> (nat \<times> flagSet) go" where
  "fs_Bool cv f name val usage = new_var (\<lambda>p f. fs_BoolVarP cv f p name [] val usage) f"

definition fs_BoolP :: "fconv \<Rightarrow> flagSet \<Rightarrow> string \<Rightarrow> string \<Rightarrow> bool \<Rightarrow> string \<Rightarrow> (nat \<times> flagSet) go" where
  "fs_BoolP cv f name shorthand val usage = new_var (\<lambda>p f. fs_BoolVarP cv f p name shorthand val usage) f"

section \<open>int\<close>

definition newIntValue :: "flagSet \<Rightarrow> int \<Rightarrow> nat \<Rightarrow> flagSet" where
  "newIntValue f val p = f\<lparr>fs_mem := (fs_mem f)(p := VInt val)\<rparr>"

definition fs_IntVar :: "fconv \<Rightarrow> flagSet \<Rightarrow> nat \<Rightarrow> string \<Rightarrow> int \<Rightarrow> string \<Rightarrow> flagSet go" where
  "fs_IntVar cv f p name val usage = fs_VarP cv (newIntValue f val p) p name [] usage"

definition fs_IntVarP :: "fconv \<Rightarrow> flagSet \<Rightarrow> nat \<Rightarrow> string \<Rightarrow> string \<Rightarrow> int \<Rightarrow> string \<Rightarrow> flagSet go" where
  "fs_IntVarP cv f p name shorthand val usage = fs_VarP cv (newIntValue f val p) p name shorthand usage"

definition fs_Int :: "fconv \<Rightarrow> flagSet \<Rightarrow> string \<Rightarrow> int \<Rightarrow> string \<Rightarrow> (nat \<times> flagSet) go" where
  "fs_Int cv f name val usage = new_var (\<lambda>p f. fs_IntVarP cv f p name [] val usage) f"

definition fs_IntP :: "fconv \<Rightarrow> flagSet \<Rightarrow> string \<Rightarrow> string \<Rightarrow> int \<Rightarrow> string \<Rightarrow> (nat \<times> flagSet) go" where
  "fs_IntP cv f name shorthand val usage = new_var (\<lambda>p f. fs_IntVarP cv f p name shorthand val usage) f"

section \<open>int8\<close>

definition newInt8Value :: "flagSet \<Rightarrow> 8 word \<Rightarrow> nat \<Rightarrow> flagSet" where
  "newInt8Value f val p = f\<lparr>fs_mem := (fs_mem f)(p := VInt8 val)\<rparr>"

definition fs_Int8Var :: "fconv \<Rightarrow> flagSet \<Rightarrow> nat \<Rightarrow> string \<Rightarrow> 8 word \<Rightarrow> string \<Rightarrow> flagSet go" where
  "fs_Int8Var cv f p name val usage = fs_VarP cv (newInt8Value f val p) p name [] usage"

definition fs_Int8VarP :: "fconv \<Rightarrow> flagSet \<Rightarrow> nat \<Rightarrow> string \<Rightarrow> string \<Rightarrow> 8 word \<Rightarrow> string \<Rightarrow> flagSet go" where
  "fs_Int8VarP cv f p name shorthand val usage = fs_VarP cv (newInt8Value f val p) p name shorthand usage"

definition fs_Int8 :: "fconv \<Rightarrow> flagSet \<Rightarrow> string \<Rightarrow> 8 word \<Rightarrow> string \<Rightarrow> (nat \<times> flagSet) go" where
  "fs_Int8 cv f name val usage = new_var (\<lambda>p f. fs_Int8VarP cv f p name [] val usage) f"

definition fs_Int8P :: "fconv \<Rightarrow> flagSet \<Rightarrow> string \<Rightarrow> string \<Rightarrow> 8 word \<Rightarrow> string \<Rightarrow> (nat \<times> flagSet) go" where
  "fs_Int8P cv f name shorthand val usage = new_var (\<lambda>p f. fs_Int8VarP cv f p name shorthand val usage) f"

section \<open>int32\<close>

definition newInt32Value :: "flagSet \<Rightarrow> 32 word \<Rightarrow> nat \<Rightarrow> flagSet" where
  "newInt32Value f val p = f\<lparr>fs_mem := (fs_mem f)(p := VInt32 val)\<rparr>"

definition fs_Int32Var :: "fconv \<Rightarrow> flagSet \<Rightarrow> nat \<Rightarrow> string \<Rightarrow> 32 word \<Rightarrow> string \<Rightarrow> flagSet go" where
  "fs_Int32Var cv f p name val usage = fs_VarP cv (newInt32Value f val p) p name [] usage"

definition fs_Int32VarP :: "fconv \<Rightarrow> flagSet \<Rightarrow> nat \<Rightarrow> string \<Rightarrow> string \<Rightarrow> 32 word \<Rightarrow> string \<Rightarrow> flagSet go" where
  "fs_Int32VarP cv f p name shorthand val usage = fs_VarP cv (newInt32Value f val p) p name shorthand usage"

definition fs_Int32 :: "fconv \<Rightarrow> flagSet \<Rightarrow> string \<Rightarrow> 32 word \<Rightarrow> string \<Rightarrow> (nat \<times> flagSet) go" where
  "fs_Int32 cv f name val usage = new_var (\<lambda>p f. fs_Int32VarP cv f p name [] val usage) f"

definition fs_Int32P :: "fconv \<Rightarrow> flagSet \<Rightarrow> string \<Rightarrow> string \<Rightarrow> 32 word \<Rightarrow> string \<Rightarrow> (nat \<times> flagSet) go" where
  "fs_Int32P cv f name shorthand val usage = new_var (\<lambda>p f. fs_Int32VarP cv f p name shorthand val usage) f"

section \<open>int64\<close>

definition newInt64Value :: "flagSet \<Rightarrow> 64 word \<Rightarrow> nat \<Rightarrow> flagSet" where
  "newInt64Value f val p = f\<lparr>fs_mem := (fs_mem f)(p := VInt64 val)\<rparr>"

definition fs_Int64Var :: "fconv \<Rightarrow> flagSet \<Rightarrow> nat \<Rightarrow> string \<Rightarrow> 64 word \<Rightarrow> string \<Rightarrow> flagSet go" where
  "fs_Int64Var cv f p name val usage = fs_VarP cv (newInt64Value f val p) p name [] usage"

definition fs_Int64VarP :: "fconv \<Rightarrow> flagSet \<Rightarrow> nat \<Rightarrow> string \<Rightarrow> string \<Rightarrow> 64 word \<Rightarrow> string \<Rightarrow> flagSet go" where
  "fs_Int64VarP cv f p name shorthand val usage = fs_VarP cv (newInt64Value f val p) p name shorthand usage"

definition fs_Int64 :: "fconv \<Rightarrow> flagSet \<Rightarrow> string \<Rightarrow> 64 word \<Rightarrow> string \<Rightarrow> (nat \<times> flagSet) go" where
  "fs_Int64 cv f name val usage = new_var (\<lambda>p f. fs_Int64VarP cv f p name [] val usage) f"

definition fs_Int64P :: "fconv \<Rightarrow> flagSet \<Rightarrow> string \<Rightarrow> string \<Rightarrow> 64 word \<Rightarrow> string \<Rightarrow> (nat \<times> flagSet) go" where
  "fs_Int64P cv f name shorthand val usage = new_var (\<lambda>p f. fs_Int64VarP cv f p name shorthand val usage) f"

section \<open>uint\<close>

definition newUintValue :: "flagSet \<Rightarrow> 64 word \<Rightarrow> nat \<Rightarrow> flagSet" where
  "newUintValue f val p = f\<lparr>fs_mem := (fs_mem f)(p := VUint val)\<rparr>"

definition fs_UintVar :: "fconv \<Rightarrow> flagSet \<Rightarrow> nat \<Rightarrow> string \<Rightarrow> 64 word \<Rightarrow> string \<Rightarrow> flagSet go" where
  "fs_UintVar cv f p name val usage = fs_VarP cv (newUintValue f val p) p name [] usage"

definition fs_UintVarP :: "fconv \<Rightarrow> flagSet \<Rightarrow> nat \<Rightarrow> string \<Rightarrow> string \<Rightarrow> 64 word \<Rightarrow> string \<Rightarrow> flagSet go" where
  "fs_UintVarP cv f p name shorthand val usage = fs_VarP cv (newUintValue f val p) p name shorthand usage"

definition fs_Uint :: "fconv \<Rightarrow> flagSet \<Rightarrow> string \<Rightarrow> 64 word \<Rightarrow> string \<Rightarrow> (nat \<times> flagSet) go" where
  "fs_Uint cv f name val usage = new_var (\<lambda>p f. fs_UintVarP cv f p name [] val usage) f"

definition fs_UintP :: "fconv \<Rightarrow> flagSet \<Rightarrow> string \<Rightarrow> string \<Rightarrow> 64 word \<Rightarrow> string \<Rightarrow> (nat \<times> flagSet) go" where
  "fs_UintP cv f name shorthand val usage = new_var (\<lambda>p f. fs_UintVarP cv f p name shorthand val usage) f"

section \<open>uint8\<close>

definition newUint8Value :: "flagSet \<Rightarrow> 8 word \<Rightarrow> nat \<Rightarrow> flagSet" where
  "newUint8Value f val p = f\<lparr>fs_mem := (fs_mem f)(p := VUint8 val)\<rparr>"

definition fs_Uint8Var :: "fconv \<Rightarrow> flagSet \<Rightarrow> nat \<Rightarrow> string \<Rightarrow> 8 word \<Rightarrow> string \<Rightarrow> flagSet go" where
  "fs_Uint8Var cv f p name val usage = fs_VarP cv (newUint8Value f val p) p name [] usage"

definition fs_Uint8VarP :: "fconv \<Rightarrow> flagSet \<Rightarrow> nat \<Rightarrow> string \<Rightarrow> string \<Rightarrow> 8 word \<Rightarrow> string \<Rightarrow> flagSet go" where
  "fs_Uint8VarP cv f p name shorthand val usage = fs_VarP cv (newUint8Value f val p) p name shorthand usage"

definition fs_Uint8 :: "fconv \<Rightarrow> flagSet \<Rightarrow> string \<Rightarrow> 8 word \<Rightarrow> string \<Rightarrow> (nat \<times> flagSet) go" where
  "fs_Uint8 cv f name val usage = new_var (\<lambda>p f. fs_Uint8VarP cv f p name [] val usage) f"

definition fs_Uint8P :: "fconv \<Rightarrow> flagSet \<Rightarrow> string \<Rightarrow> string \<Rightarrow> 8 word \<Rightarrow> string \<Rightarrow> (nat \<times> flagSet) go" where
  "fs_Uint8P cv f name shorthand val usage = new_var (\<lambda>p f. fs_Uint8VarP cv f p name shorthand val usage) f"

section \<open>uint16\<close>

definition newUint16Value :: "flagSet \<Rightarrow> 16 word \<Rightarrow> nat \<Rightarrow> flagSet" where
  "newUint16Value f val p = f\<lparr>fs_mem := (fs_mem f)(p := VUint16 val)\<rparr>"

definition fs_Uint16Var :: "fconv \<Rightarrow> flagSet \<Rightarrow> nat \<Rightarrow> string \<Rightarrow> 16 word \<Rightarrow> string \<Rightarrow> flagSet go" where
  "fs_Uint16Var cv f p name val usage = fs_VarP cv (newUint16Value f val p) p name [] usage"

definition fs_Uint16VarP :: "fconv \<Rightarrow> flagSet \<Rightarrow> nat \<Rightarrow> string \<Rightarrow> string \<Rightarrow> 16 word \<Rightarrow> string \<Rightarrow> flagSet go" where
  "fs_Uint16VarP cv f p name shorthand val usage = fs_VarP cv (newUint16Value f val p) p name shorthand usage"

definition fs_Uint16 :: "fconv \<Rightarrow> flagSet \<Rightarrow> string \<Rightarrow> 16 word \<Rightarrow> string \<Rightarrow> (nat \<times> flagSet) go" where
  "fs_Uint16 cv f name val usage = new_var (\<lambda>p f. fs_Uint16VarP cv f p name [] val usage) f"

definition fs_Uint16P :: "fconv \<Rightarrow> flagSet \<Rightarrow> string \<Rightarrow> string \<Rightarrow> 16 word \<Rightarrow> string \<Rightarrow> (nat \<times> flagSet) go" where
  "fs_Uint16P cv f name shorthand val usage = new_var (\<lambda>p f. fs_Uint16VarP cv f p name shorthand val usage) f"

section \<open>uint32\<close>

definition newUint32Value :: "flagSet \<Rightarrow> 32 word \<Rightarrow> nat \<Rightarrow> flagSet" where
  "newUint32Value f val p = f\<lparr>fs_mem := (fs_mem f)(p := VUint32 val)\<rparr>"

definition fs_Uint32Var :: "fconv \<Rightarrow> flagSet \<Rightarrow> nat \<Rightarrow> string \<Rightarrow> 32 word \<Rightarrow> string \<Rightarrow> flagSet go" where
  "fs_Uint32Var cv f p name val usage = fs_VarP cv (newUint32Value f val p) p name [] usage"

definition fs_Uint32VarP :: "fconv \<Rightarrow> flagSet \<Rightarrow> nat \<Rightarrow> string \<Rightarrow> string \<Rightarrow> 32 word \<Rightarrow> string \<Rightarrow> flagSet go" where
  "fs_Uint32VarP cv f p name shorthand val usage = fs_VarP cv (newUint32Value f val p) p name shorthand usage"

definition fs_Uint32 :: "fconv \<Rightarrow> flagSet \<Rightarrow> string \<Rightarrow> 32 word \<Rightarrow> string \<Rightarrow> (nat \<times> flagSet) go" where
  "fs_Uint32 cv f name val usage = new_var (\<lambda>p f. fs_Uint32VarP cv f p name [] val usage) f"

definition fs_Uint32P :: "fconv \<Rightarrow> flagSet \<Rightarrow> string \<Rightarrow> string \<Rightarrow> 32 word \<Rightarrow> string \<Rightarrow> (nat \<times> flagSet) go" where
  "fs_Uint32P cv f name shorthand val usage = new_var (\<lambda>p f. fs_Uint32VarP cv f p name shorthand val usage) f"

section \<open>uint64\<close>

definition newUint64Value :: "flagSet \<Rightarrow> 64 word \<Rightarrow> nat \<Rightarrow> flagSet" where
  "newUint64Value f val p = f\<lparr>fs_mem := (fs_mem f)(p := VUint64 val)\<rparr>"

definition fs_Uint64Var :: "fconv \<Rightarrow> flagSet \<Rightarrow> nat \<Rightarrow> string \<Rightarrow> 64 word \<Rightarrow> string \<Rightarrow> flagSet go" where
  "fs_Uint64Var cv f p name val usage = fs_VarP cv (newUint64Value f val p) p name [] usage"

definition fs_Uint64VarP :: "fconv \<Rightarrow> flagSet \<Rightarrow> nat \<Rightarrow> string \<Rightarrow> string \<Rightarrow> 64 word \<Rightarrow> string \<Rightarrow> flagSet go" where
  "fs_Uint64VarP cv f p name shorthand val usage = fs_VarP cv (newUint64Value f val p) p name shorthand usage"

definition fs_Uint64 :: "fconv \<Rightarrow> flagSet \<Rightarrow> string \<Rightarrow> 64 word \<Rightarrow> string \<Rightarrow> (nat \<times> flagSet) go" where
  "fs_Uint64 cv f name val usage = new_var (\<lambda>p f. fs_Uint64VarP cv f p name [] val usage) f"

definition fs_Uint64P :: "fconv \<Rightarrow> flagSet \<Rightarrow> string \<Rightarrow> string \<Rightarrow> 64 word \<Rightarrow> string \<Rightarrow> (nat \<times> flagSet) go" where
  "fs_Uint64P cv f name shorthand val usage = new_var (\<lambda>p f. fs_Uint64VarP cv f p name shorthand val usage) f"

section \<open>string\<close>

definition newStringValue :: "flagSet \<Rightarrow> string \<Rightarrow> nat \<Rightarrow> flagSet" where
  "newStringValue f val p = f\<lparr>fs_mem := (fs_mem f)(p := VString val)\<rparr>"

definition fs_StringVar :: "fconv \<Rightarrow> flagSet \<Rightarrow> nat \<Rightarrow> string \<Rightarrow> string \<Rightarrow> string \<Rightarrow> flagSet go" where
  "fs_StringVar cv f p name val usage = fs_VarP cv (newStringValue f val p) p name [] usage"

definition fs_StringVarP :: "fconv \<Rightarrow> flagSet \<Rightarrow> nat \<Rightarrow> string \<Rightarrow> string \<Rightarrow> string \<Rightarrow> string \<Rightarrow> flagSet go" where
  "fs_StringVarP cv f p name shorthand val usage = fs_VarP cv (newStringValue f val p) p name shorthand usage"

definition fs_String :: "fconv \<Rightarrow> flagSet \<Rightarrow> string \<Rightarrow> string \<Rightarrow> string \<Rightarrow> (nat \<times> flagSet) go" where
  "fs_String cv f name val usage = new_var (\<lambda>p f. fs_StringVarP cv f p name [] val usage) f"

definition fs_StringP :: "fconv \<Rightarrow> flagSet \<Rightarrow> string \<Rightarrow> string \<Rightarrow> string \<Rightarrow> string \<Rightarrow> (nat \<times> flagSet) go" where
  "fs_StringP cv f name shorthand val usage = new_var (\<lambda>p f. fs_StringVarP cv f p name shorthand val usage) f"

section \<open>float32\<close>

definition newFloat32Value :: "flagSet \<Rightarrow> 32 word \<Rightarrow> nat \<Rightarrow> flagSet" where
  "newFloat32Value f val p = f\<lparr>fs_mem := (fs_mem f)(p := VFloat32 val)\<rparr>"

definition fs_Float32Var :: "fconv \<Rightarrow> flagSet \<Rightarrow> nat \<Rightarrow> string \<Rightarrow> 32 word \<Rightarrow> string \<Rightarrow> flagSet go" where
  "fs_Float32Var cv f p name val usage = fs_VarP cv (newFloat32Value f val p) p name [] usage"

definition fs_Float32VarP :: "fconv \<Rightarrow> flagSet \<Rightarrow> nat \<Rightarrow> string \<Rightarrow> string \<Rightarrow> 32 word \<Rightarrow> string \<Rightarrow> flagSet go" where
  "fs_Float32VarP cv f p name shorthand val usage = fs_VarP cv (newFloat32Value f val p) p name shorthand usage"

definition fs_Float32 :: "fconv \<Rightarrow> flagSet \<Rightarrow> string \<Rightarrow> 32 word \<Rightarrow> string \<Rightarrow> (nat \<times> flagSet) go" where
  "fs_Float32 cv f name val usage = new_var (\<lambda>p f. fs_Float32VarP cv f p name [] val usage) f"

definition fs_Float32P :: "fconv \<Rightarrow> flagSet \<Rightarrow> string \<Rightarrow> string \<Rightarrow> 32 word \<Rightarrow> string \<Rightarrow> (nat \<times> flagSet) go" where
  "fs_Float32P cv f name shorthand val usage = new_var (\<lambda>p f. fs_Float32VarP cv f p name shorthand val usage) f"

section \<open>float64\<close>

definition newFloat64Value :: "flagSet \<Rightarrow> float64 \<Rightarrow> nat \<Rightarrow> flagSet" where
  "newFloat64Value f val p = f\<lparr>fs_mem := (fs_mem f)(p := VFloat val)\<rparr>"

definition fs_Float64Var :: "fconv \<Rightarrow> flagSet \<Rightarrow> nat \<Rightarrow> string \<Rightarrow> float64 \<Rightarrow> string \<Rightarrow> flagSet go" where
  "fs_Float64Var cv f p name val usage = fs_VarP cv (newFloat64Value f val p) p name [] usage"

definition fs_Float64VarP :: "fconv \<Rightarrow> flagSet \<Rightarrow> nat \<Rightarrow> string \<Rightarrow> string \<Rightarrow> float64 \<Rightarrow> string \<Rightarrow> flagSet go" where
  "fs_Float64VarP cv f p name shorthand val usage = fs_VarP cv (newFloat64Value f val p) p name shorthand usage"

definition fs_Float64 :: "fconv \<Rightarrow> flagSet \<Rightarrow> string \<Rightarrow> float64 \<Rightarrow> string \<Rightarrow> (nat \<times> flagSet) go" where
  "fs_Float64 cv f name val usage = new_var (\<lambda>p f. fs_Float64VarP cv f p name [] val usage) f"

definition fs_Float64P :: "fconv \<Rightarrow> flagSet \<Rightarrow> string \<Rightarrow> string \<Rightarrow> float64 \<Rightarrow> string \<Rightarrow> (nat \<times> flagSet) go" where
  "fs_Float64P cv f name shorthand val usage = new_var (\<lambda>p f. fs_Float64VarP cv f p name shorthand val usage) f"

section \<open>duration\<close>

definition newDurationValue :: "flagSet \<Rightarrow> int \<Rightarrow> nat \<Rightarrow> flagSet" where
  "newDurationValue f val p = f\<lparr>fs_mem := (fs_mem f)(p := VDuration val)\<rparr>"

definition fs_DurationVar :: "fconv \<Rightarrow> flagSet \<Rightarrow> nat \<Rightarrow> string \<Rightarrow> int \<Rightarrow> string \<Rightarrow> flagSet go" where
  "fs_DurationVar cv f p name val usage = fs_VarP cv (newDurationValue f val p) p name [] usage"

definition fs_DurationVarP :: "fconv \<Rightarrow> flagSet \<Rightarrow> nat \<Rightarrow> string \<Rightarrow> string \<Rightarrow> int \<Rightarrow> string \<Rightarrow> flagSet go" where
  "fs_DurationVarP cv f p name shorthand val usage = fs_VarP cv (newDurationValue f val p) p name shorthand usage"

definition fs_Duration :: "fconv \<Rightarrow> flagSet \<Rightarrow> string \<Rightarrow> int \<Rightarrow> string \<Rightarrow> (nat \<times> flagSet) go" where
  "fs_Duration cv f name val usage = new_var (\<lambda>p f. fs_DurationVarP cv f p name [] val usage) f"

definition fs_DurationP :: "fconv \<Rightarrow> flagSet \<Rightarrow> string \<Rightarrow> string \<Rightarrow> int \<Rightarrow> string \<Rightarrow> (nat \<times> flagSet) go" where
  "fs_DurationP cv f name shorthand val usage = new_var (\<lambda>p f. fs_DurationVarP cv f p name shorthand val usage) f"

section \<open>ip\<close>

definition newIPValue :: "flagSet \<Rightarrow> 8 word list \<Rightarrow> nat \<Rightarrow> flagSet" where
  "newIPValue f val p = f\<lparr>fs_mem := (fs_mem f)(p := VIP val)\<rparr>"

definition fs_IPVar :: "fconv \<Rightarrow> flagSet \<Rightarrow> nat \<Rightarrow> string \<Rightarrow> 8 word list \<Rightarrow> string \<Rightarrow> flagSet go" where
  "fs_IPVar cv f p name val usage = fs_VarP cv (newIPValue f val p) p name [] usage"

definition fs_IPVarP :: "fconv \<Rightarrow> flagSet \<Rightarrow> nat \<Rightarrow> string \<Rightarrow> string \<Rightarrow> 8 word list \<Rightarrow> string \<Rightarrow> flagSet go" where
  "fs_IPVarP cv f p name shorthand val usage = fs_VarP cv (newIPValue f val p) p name shorthand usage"

definition fs_IP :: "fconv \<Rightarrow> flagSet \<Rightarrow> string \<Rightarrow> 8 word list \<Rightarrow> string \<Rightarrow> (nat \<times> flagSet) go" where
  "fs_IP cv f name val usage = new_var (\<lambda>p f. fs_IPVarP cv f p name [] val usage) f"

definition fs_IPP :: "fconv \<Rightarrow> flagSet \<Rightarrow> string \<Rightarrow> string \<Rightarrow> 8 word list \<Rightarrow> string \<Rightarrow> (nat \<times> flagSet) go" where
  "fs_IPP cv f name shorthand val usage = new_var (\<lambda>p f. fs_IPVarP cv f p name shorthand val usage) f"

section \<open>ipmask\<close>

definition newIPMaskValue :: "flagSet \<Rightarrow> 8 word list \<Rightarrow> nat \<Rightarrow> flagSet" where
  "newIPMaskValue f val p = f\<lparr>fs_mem := (fs_mem f)(p := VIPMask val)\<rparr>"

definition fs_IPMaskVar :: "fconv \<Rightarrow> flagSet \<Rightarrow> nat \<Rightarrow> string \<Rightarrow> 8 word list \<Rightarrow> string \<Rightarrow> flagSet go" where
  "fs_IPMaskVar cv f p name val usage = fs_VarP cv (newIPMaskValue f val p) p name [] usage"

definition fs_IPMaskVarP :: "fconv \<Rightarrow> flagSet \<Rightarrow> nat \<Rightarrow> string \<Rightarrow> string \<Rightarrow> 8 word list \<Rightarrow> string \<Rightarrow> flagSet go" where
  "fs_IPMaskVarP cv f p name shorthand val usage = fs_VarP cv (newIPMaskValue f val p) p name shorthand usage"

definition fs_IPMask :: "fconv \<Rightarrow> flagSet \<Rightarrow> string \<Rightarrow> 8 word list \<Rightarrow> string \<Rightarrow> (nat \<times> flagSet) go" where
  "fs_IPMask cv f name val usage = new_var (\<lambda>p f. fs_IPMaskVarP cv f p name [] val usage) f"

definition fs_IPMaskP :: "fconv \<Rightarrow> flagSet \<Rightarrow> string \<Rightarrow> string \<Rightarrow> 8 word list \<Rightarrow> string \<Rightarrow> (nat \<times> flagSet) go" where
  "fs_IPMaskP cv f name shorthand val usage = new_var (\<lambda>p f. fs_IPMaskVarP cv f p name shorthand val usage) f"

section \<open>The functions of the package\<close>

text \<open>Those of \<open>busltee\<close>; the set is \<open>commandLine\<close> or what the calls before have made of it.\<close>

definition boolVarP ::
  "fconv \<Rightarrow> flagSet \<Rightarrow> nat \<Rightarrow> string \<Rightarrow> string \<Rightarrow> bool \<Rightarrow> string \<Rightarrow> flagSet go" where
  "boolVarP cv f p name shorthand val usage = fs_VarP cv (newBoolValue f val p) p name shorthand usage"

definition intVar :: "fconv \<Rightarrow> flagSet \<Rightarrow> nat \<Rightarrow> string \<Rightarrow> int \<Rightarrow> string \<Rightarrow> flagSet go" where
  "intVar cv f p name val usage = fs_VarP cv (newIntValue f val p) p name [] usage"

definition stringVar :: "fconv \<Rightarrow> flagSet \<Rightarrow> nat \<Rightarrow> string \<Rightarrow> string \<Rightarrow> string \<Rightarrow> flagSet go" where
  "stringVar cv f p name val usage = fs_VarP cv (newStringValue f val p) p name [] usage"

definition float64Var :: "fconv \<Rightarrow> flagSet \<Rightarrow> nat \<Rightarrow> string \<Rightarrow> float64 \<Rightarrow> string \<Rightarrow> flagSet go" where
  "float64Var cv f p name val usage = fs_VarP cv (newFloat64Value f val p) p name [] usage"

section \<open>Defaults\<close>

text \<open>
  What is relied on of the library for a value: an \<open>int\<close> is within its 64 bits, the text of a floating
  point number, of a duration and of an address parses to it, and no address is written without a dot
  or a colon.
\<close>

fun text_law :: "fconv \<Rightarrow> fvalue \<Rightarrow> bool" where
  "text_law cv (VInt n) = is_i64 n"
| "text_law cv (VFloat32 x) = (cv_parseFloat32 cv (cv_showFloat32 cv x) = (x, None))"
| "text_law cv (VFloat x) = (cv_parseFloat cv (cv_showFloat cv x) = (x, None))"
| "text_law cv (VDuration d) = (cv_parseDuration cv (cv_showDuration cv d) = (d, None))"
| "text_law cv (VIP i) = (cv_parseIP cv (cv_showIP cv i) = Some i)"
| "text_law cv (VIPMask i) = (\<forall>s. CHR ''.'' \<notin> set s \<longrightarrow> CHR '':'' \<notin> set s \<longrightarrow> cv_parseIP cv s = None)"
| "text_law cv _ = True"

fun is_mask :: "fvalue \<Rightarrow> bool" where
  "is_mask (VIPMask i) = True"
| "is_mask _ = False"

lemma hex_digit_plain: "d < 16 \<Longrightarrow> hex_digit_of d \<noteq> CHR ''.'' \<and> hex_digit_of d \<noteq> CHR '':''"
proof -
  assume "d < 16"
  then have "(of_char (hex_digit_of d) :: nat) = (if d < 10 then 48 + d else 87 + d)"
    by (simp add: hex_digit_of_def)
  then have "(of_char (hex_digit_of d) :: nat) \<noteq> of_char (CHR ''.'') \<and> (of_char (hex_digit_of d) :: nat) \<noteq> of_char (CHR '':'')"
    by simp
  then show ?thesis by auto
qed

lemma mask_String_plain: "CHR ''.'' \<notin> set (ipMaskValue_String i) \<and> CHR '':'' \<notin> set (ipMaskValue_String i)"
proof -
  have "unat b < 2 ^ LENGTH(8)" for b :: "8 word" by (rule unsigned_less)
  then have "unat b div 16 < 16" for b :: "8 word" by (simp add: less_mult_imp_div_less)
  then have "CHR ''.'' \<noteq> hex_digit_of (unat b div 16) \<and> CHR ''.'' \<noteq> hex_digit_of (unat b mod 16)
      \<and> CHR '':'' \<noteq> hex_digit_of (unat b div 16) \<and> CHR '':'' \<noteq> hex_digit_of (unat b mod 16)" for b :: "8 word"
    using hex_digit_plain [of "unat b div 16"] hex_digit_plain [of "unat b mod 16"] by auto
  then show ?thesis by (auto simp: ipMaskValue_String_def)
qed

lemma value_reads_back:
  assumes "text_law cv v" and "kind_of u = kind_of v"
  shows "value_Set cv u (value_String cv v) = (if is_mask v then (u, Some (ErrOther ''failed to parse IP mask'')) else (v, None))"
proof (cases v)
  case (VIPMask i)
  have "parseIPv4Mask cv (ipMaskValue_String i) = None"
    using assms(1) VIPMask mask_String_plain [of i] by (simp add: parseIPv4Mask_def)
  with assms(2) VIPMask show ?thesis by (cases u) (simp_all add: ipMaskValue_Set_def)
next
  case (VInt n)
  with assms show ?thesis
    by (cases u) (simp_all add: intValue_Set_def intValue_String_def parse_int0_itoa is_i64_def)
qed (use assms in \<open>cases u;
  simp add: signed_flags unsigned_flags float64Value_Set_def float64Value_String_def float32Value_Set_def
    float32Value_String_def durationValue_Set_def durationValue_String_def ipValue_Set_def ipValue_String_def
    stringValue_Set_def stringValue_String_def boolValue_Set_def boolValue_String_def parse_bool_def\<close>)+

definition demo_texts :: fconv where
  "demo_texts = \<lparr>cv_parseFloat = (\<lambda>_. (Fin 0, Some ErrSyntax)), cv_showFloat = (\<lambda>_. []), cv_quote = id,
     cv_parseFloat32 = (\<lambda>_. (0, Some ErrSyntax)), cv_showFloat32 = (\<lambda>_. []),
     cv_parseDuration = (\<lambda>_. (0, Some ErrSyntax)), cv_showDuration = (\<lambda>_. []),
     cv_parseIP = (\<lambda>_. None), cv_showIP = (\<lambda>_. [])\<rparr>"

section \<open>Property\<close>



end
