(* ===== verification/Busltee.thy ===== *)
theory Busltee
  imports PflagParse PflagTypes
begin

text \<open>
  The command \<open>busltee\<close> (\<open>cmd/busltee/main.go\<close>, \<open>busltee/runner.go\<close>, \<open>busltee/log.go\<close>): it runs
  a command, copies what the command writes to its own output and to the body of a POST to a
  stream's URL, and exits with the command's status. The HTTP transport and the child process
  are parameters. The two sides meet in a pipe without a buffer: a write returns when the other
  side has read it, so the uploader's view of the command is the list of the command's writes,
  and a write that nobody reads blocks the command for ever.
\<close>

section \<open>log.go\<close>

datatype log_output = Discard | Log_file string

text \<open>\<open>output\<close> opens the file without creating it; \<open>opens\<close> says which files can be opened.\<close>

definition bt_output :: "(string \<Rightarrow> bool) \<Rightarrow> string \<Rightarrow> log_output" where
  "bt_output opens logFile =
     (if logFile = [] then Discard else if \<not> opens logFile then Discard else Log_file logFile)"

text \<open>The state of \<open>log\<close>: where it writes, its prefix, and whether the file is open.\<close>

record logger =
  lg_out :: log_output
  lg_prefix :: string
  lg_open :: bool

definition openLogs :: "(string \<Rightarrow> bool) \<Rightarrow> string \<Rightarrow> string \<Rightarrow> logger" where
  "openLogs opens logFile logPrefix =
     \<lparr>lg_out = bt_output opens logFile, lg_prefix = logPrefix @ '' '',
      lg_open = (bt_output opens logFile \<noteq> Discard)\<rparr>"

definition closeLogs :: "logger \<Rightarrow> logger" where
  "closeLogs l = (case lg_out l of Log_file f \<Rightarrow> l\<lparr>lg_open := False\<rparr> | Discard \<Rightarrow> l)"

text \<open>A line of the log: a text, a text with the text of an error, or the time \<open>monitor\<close> took.\<close>

datatype logline = Line string | Line_error string go_error | Elapsed string

section \<open>runner.go\<close>

record bt_config =
  cf_Insecure :: bool
  cf_Timeout :: float64
  cf_Retry :: int
  cf_URL :: string
  cf_Args :: "string list"
  cf_LogPrefix :: string
  cf_LogFile :: string

text \<open>
  What \<open>newTransport\<close> sets: keepalive and timeout of the dialer in nanoseconds, or the default
  dialer, which has no timeout, and whether certificates are checked. The timeout is converted
  to an \<open>int64\<close> before it is multiplied.
\<close>

record transport =
  tr_dial :: "(int \<times> int) option"
  tr_insecure :: bool

definition newTransport :: "bt_config \<Rightarrow> transport" where
  "newTransport conf =
     \<lparr>tr_dial = (if f_positive (cf_Timeout conf)
        then Some (30 * 10 ^ 9, i64 (f_int64 (cf_Timeout conf) * 10 ^ 9)) else None),
      tr_insecure = cf_Insecure conf\<rparr>"

text \<open>
  \<open>RoundTrip\<close> gets the pieces of the body that have not been read yet and returns those it has
  left unread, the response if there is one and the error.
\<close>

record 'h net =
  nt_newRequest :: "string \<Rightarrow> go_error option"
  nt_roundTrip :: "transport \<Rightarrow> string \<Rightarrow> bytes list \<Rightarrow> 'h \<Rightarrow> 'h \<times> bytes list \<times> nat option \<times> go_error option"
  nt_close :: "nat \<Rightarrow> 'h \<Rightarrow> 'h"

record 'h tee =
  t_net :: 'h
  t_stdin :: "bytes list"   \<comment> \<open>what the read side of the pipe has not read yet\<close>
  t_log :: "logline list"

definition tee_log :: "logline \<Rightarrow> 'h tee \<Rightarrow> 'h tee" where
  "tee_log l s = s\<lparr>t_log := t_log s @ [l]\<rparr>"

definition monitor :: "string \<Rightarrow> 'h tee \<Rightarrow> 'h tee" where
  "monitor subject s = tee_log (Elapsed subject) s"

definition isTimeout :: "go_error option \<Rightarrow> bool" where
  "isTimeout err = (case err of Some (ErrNet timeout _) \<Rightarrow> timeout | _ \<Rightarrow> False)"

definition exitStatus :: "go_error \<Rightarrow> int" where
  "exitStatus err = (case err of ErrExit status \<Rightarrow> status | _ \<Rightarrow> 1)"

definition streamNoRetry ::
  "'h net \<Rightarrow> string \<Rightarrow> bt_config \<Rightarrow> 'h tee \<Rightarrow> 'h tee \<times> go_error option" where
  "streamNoRetry N url conf s =
     (if url = []
      then (monitor ''busltee.stream'' (tee_log (Line ''count#busltee.stream.missingurl'') s), Some ErrMissingURL)
      else case nt_newRequest N url of
        Some err \<Rightarrow> (monitor ''busltee.stream'' s, Some err)
      | None \<Rightarrow>
          (let (h, rest, res, err) = nt_roundTrip N (newTransport conf) url (t_stdin s) (t_net s);
               h' = (case res of None \<Rightarrow> h | Some body \<Rightarrow> nt_close N body h)
           in (monitor ''busltee.stream'' (s\<lparr>t_net := h', t_stdin := rest\<rparr>), err)))"

text \<open>The loop of \<open>stream\<close>; \<open>err\<close> is the result variable, nil at the start.\<close>

function stream_loop ::
  "'h net \<Rightarrow> string \<Rightarrow> bt_config \<Rightarrow> int \<Rightarrow> go_error option \<Rightarrow> 'h tee \<Rightarrow> 'h tee \<times> go_error option" where
  "stream_loop N url conf retries err s =
     (if 0 \<le> retries then
        let (s1, err1) = streamNoRetry N url conf s
        in if \<not> isTimeout err1 then (s1, err1)
           else stream_loop N url conf (retries - 1) err1 (tee_log (Line ''count#busltee.stream.retry'') s1)
      else (s, err))"
  by pat_completeness auto
termination
  by (relation "measure (\<lambda>(N, url, conf, retries, err, s). nat (retries + 1))") auto

declare stream_loop.simps [simp del]

definition bt_stream :: "'h net \<Rightarrow> string \<Rightarrow> bt_config \<Rightarrow> 'h tee \<Rightarrow> 'h tee \<times> go_error option" where
  "bt_stream N url conf s = stream_loop N url conf (cf_Retry conf) None s"

text \<open>The goroutine of \<open>post\<close>: after an error it reads the pipe to its end.\<close>

definition bt_post :: "'h net \<Rightarrow> string \<Rightarrow> bt_config \<Rightarrow> 'h tee \<Rightarrow> 'h tee" where
  "bt_post N url conf s =
     (case bt_stream N url conf s of
        (s1, Some err) \<Rightarrow> (tee_log (Line_error ''count#busltee.stream.error=1'' err) s1)\<lparr>t_stdin := []\<rparr>
      | (s1, None) \<Rightarrow> tee_log (Line ''count#busltee.stream.success=1'') s1)"

text \<open>
  The child process: whether it starts, the writes to its standard output and error in their
  order, and the result of \<open>Wait\<close>.
\<close>

record process =
  ps_start :: "string list \<Rightarrow> go_error option"
  ps_writes :: "string list \<Rightarrow> bytes list"
  ps_wait :: "string list \<Rightarrow> go_error option"

definition bt_run :: "process \<Rightarrow> string list \<Rightarrow> (bytes list \<times> go_error option) go" where
  "bt_run P args =
     (if args = [] then Panic ''index out of range''
      else case ps_start P args of
        Some err \<Rightarrow> Return ([], Some err)
      | None \<Rightarrow> Return (ps_writes P args, ps_wait P args))"

text \<open>
  The result of \<open>Run\<close>: the exit code, what has been copied to \<open>busltee\<close>'s own output, the lines
  the main goroutine has logged, and the uploader's state, unless its end was not waited for.
\<close>

record 'h run_result =
  rr_code :: int
  rr_terminal :: bytes
  rr_log :: "logline list"
  rr_upload :: "'h tee option"

text \<open>
  \<open>late\<close> tells which case the final \<open>select\<close> takes. The writes of the command that the uploader
  does not read block \<open>Wait\<close>, as the pipe has no other reader.
\<close>

definition bt_Run ::
  "'h net \<Rightarrow> process \<Rightarrow> string \<Rightarrow> string list \<Rightarrow> bt_config \<Rightarrow> bool \<Rightarrow> 'h \<Rightarrow> 'h run_result go" where
  "bt_Run N P url args conf late h =
     go_bind (bt_run P args) (\<lambda>(writes, err).
       let s = bt_post N url conf \<lparr>t_net = h, t_stdin = writes, t_log = []\<rparr>
       in if t_stdin s \<noteq> [] then Blocked
          else Return
            \<lparr>rr_code = (case err of None \<Rightarrow> 0 | Some e \<Rightarrow> exitStatus e),
             rr_terminal = concat writes,
             rr_log = [Elapsed ''busltee.run'']
               @ (case err of None \<Rightarrow> [] | Some e \<Rightarrow> [Line_error ''count#busltee.exec.error=1'' e])
               @ (if late then [Line ''count#busltee.exec.upload.timeout=1''] else [])
               @ [Elapsed ''busltee.busltee''],
             rr_upload = (if late then None else Some s)\<rparr>)"

section \<open>main.go\<close>

fun the_bool :: "fvalue \<Rightarrow> bool" where "the_bool (VBool b) = b" | "the_bool _ = False"
fun the_int :: "fvalue \<Rightarrow> int" where "the_int (VInt n) = n" | "the_int _ = 0"
fun the_string :: "fvalue \<Rightarrow> string" where "the_string (VString s) = s" | "the_string _ = []"
fun the_float :: "fvalue \<Rightarrow> float64" where "the_float (VFloat x) = x" | "the_float _ = NaN"

text \<open>The flags, bound to the fields of the configuration at the addresses 0 to 4.\<close>

definition bt_flags :: "fconv \<Rightarrow> string \<Rightarrow> flagSet go" where
  "bt_flags cv arg0 =
     go_bind (boolVarP cv (commandLine arg0) 0 ''insecure'' ''k'' False ''allows insecure SSL connections'')
     (\<lambda>f. go_bind (intVar cv f 1 ''retry'' 5 ''max retries for connect timeout errors'')
     (\<lambda>f. go_bind (float64Var cv f 2 ''connect-timeout'' (Fin 1) ''max number of seconds to connect to busl URL'')
     (\<lambda>f. go_bind (stringVar cv f 3 ''log-prefix'' [] ''log prefix'')
     (\<lambda>f. stringVar cv f 4 ''log-file'' [] ''log file''))))"

definition bt_config_of :: "flagSet \<Rightarrow> bt_config" where
  "bt_config_of f =
     \<lparr>cf_Insecure = the_bool (fs_mem f 0), cf_Timeout = the_float (fs_mem f 2),
      cf_Retry = the_int (fs_mem f 1), cf_URL = fs_Arg f 0, cf_Args = tl (fs_args f),
      cf_LogPrefix = the_string (fs_mem f 3), cf_LogFile = the_string (fs_mem f 4)\<rparr>"

text \<open>\<open>parseFlags\<close> returns, or \<open>flag.Parse\<close> ends the process.\<close>

datatype flags_result = Config bt_config | Insufficient_args | Exits int

definition parseFlags :: "fconv \<Rightarrow> string \<Rightarrow> string list \<Rightarrow> flags_result go" where
  "parseFlags cv arg0 argv =
     go_bind (bt_flags cv arg0) (\<lambda>f.
       case fs_Parse cv f argv of
         (f', Exit code) \<Rightarrow> Return (Exits code)
       | (f', ParsePanic e) \<Rightarrow> Panic ''flag error''
       | (f', Parsed e) \<Rightarrow>
           (if length (fs_args f') < 2 then Return Insufficient_args else Return (Config (bt_config_of f'))))"

text \<open>
  The status the process ends with, and the log when it does: \<open>os.Exit\<close> runs no deferred call.
\<close>

definition bt_main ::
  "fconv \<Rightarrow> (string \<Rightarrow> bool) \<Rightarrow> 'h net \<Rightarrow> process \<Rightarrow> bool \<Rightarrow> 'h \<Rightarrow> string \<Rightarrow> string list
     \<Rightarrow> (int \<times> logger option) go" where
  "bt_main cv opens N P late h arg0 argv =
     go_bind (parseFlags cv arg0 argv) (\<lambda>r. case r of
         Exits code \<Rightarrow> Return (code, None)
       | Insufficient_args \<Rightarrow> Return (1, None)
       | Config conf \<Rightarrow>
           (let l = openLogs opens (cf_LogFile conf) (cf_LogPrefix conf)
            in go_bind (bt_Run N P (cf_URL conf) (cf_Args conf) conf late h) (\<lambda>res.
                 if rr_code res \<noteq> 0 then Return (rr_code res, Some l)
                 else Return (0, Some (closeLogs l)))))"

section \<open>The attempts\<close>

text \<open>
  The state and the error after the \<open>k\<close>-th attempt of an upload; a further one is made after the
  line that announces it.
\<close>

definition retry_line :: "'h tee \<times> go_error option \<Rightarrow> 'h tee \<times> go_error option" where
  "retry_line r = (if isTimeout (snd r)
     then (tee_log (Line ''count#busltee.stream.retry'') (fst r), snd r) else r)"

fun attempt :: "'h net \<Rightarrow> string \<Rightarrow> bt_config \<Rightarrow> 'h tee \<Rightarrow> nat \<Rightarrow> 'h tee \<times> go_error option" where
  "attempt N url conf s 0 = (s, None)"
| "attempt N url conf s (Suc k) = streamNoRetry N url conf (fst (retry_line (attempt N url conf s k)))"

lemma isTimeout_None [simp]: "\<not> isTimeout None"
  by (simp add: isTimeout_def)

lemma attempt_shift:
  assumes "retry_line (streamNoRetry N url conf s) = (t, e)"
  shows "attempt N url conf s (Suc (Suc k)) = attempt N url conf t (Suc k)"
  using assms by (induction k) (simp_all add: retry_line_def)

lemma stream_loop_stop: "\<not> 0 \<le> retries \<Longrightarrow> stream_loop N url conf retries err s = (s, err)"
  by (subst stream_loop.simps) (rule if_not_P)

lemma stream_loop_last:
  "0 \<le> retries \<Longrightarrow> streamNoRetry N url conf s = (s1, err1) \<Longrightarrow> \<not> isTimeout err1 \<Longrightarrow>
   stream_loop N url conf retries err s = (s1, err1)"
  by (subst stream_loop.simps) simp

lemma stream_loop_retry:
  "0 \<le> retries \<Longrightarrow> streamNoRetry N url conf s = (s1, err1) \<Longrightarrow> isTimeout err1 \<Longrightarrow>
   stream_loop N url conf retries err s
   = stream_loop N url conf (retries - 1) err1 (tee_log (Line ''count#busltee.stream.retry'') s1)"
  by (subst stream_loop.simps) simp

text \<open>How many attempts: at least one, at most one more than the retries, none after a success.\<close>

definition attempts_made :: "'h net \<Rightarrow> string \<Rightarrow> bt_config \<Rightarrow> 'h tee \<Rightarrow> int \<Rightarrow> nat \<Rightarrow> bool" where
  "attempts_made N url conf s retries k \<longleftrightarrow> 1 \<le> k \<and> int k \<le> retries + 1
     \<and> (\<forall>j. 1 \<le> j \<and> j < k \<longrightarrow> isTimeout (snd (attempt N url conf s j)))
     \<and> (isTimeout (snd (attempt N url conf s k)) \<longrightarrow> int k = retries + 1)"

lemma stream_loop_attempts:
  assumes "0 \<le> retries"
  shows "\<exists>k. attempts_made N url conf s retries k
    \<and> stream_loop N url conf retries err s = retry_line (attempt N url conf s k)"
  using assms
proof (induction "nat retries" arbitrary: retries err s)
  case (0 retries err s)
  obtain s1 err1 where one: "streamNoRetry N url conf s = (s1, err1)"
    by (cases "streamNoRetry N url conf s")
  have "stream_loop N url conf retries err s = retry_line (s1, err1)"
    using 0 one by (cases "isTimeout err1")
      (simp_all add: stream_loop_last stream_loop_retry stream_loop_stop retry_line_def)
  with 0 one have "attempts_made N url conf s retries 1
      \<and> stream_loop N url conf retries err s = retry_line (attempt N url conf s 1)"
    by (simp add: attempts_made_def retry_line_def)
  then show ?case by blast
next
  case (Suc n retries err s)
  obtain s1 err1 where one: "streamNoRetry N url conf s = (s1, err1)"
    by (cases "streamNoRetry N url conf s")
  then have first: "attempt N url conf s 1 = (s1, err1)" by (simp add: retry_line_def)
  show ?case
  proof (cases "isTimeout err1")
    case False
    with Suc.prems first have "attempts_made N url conf s retries 1"
      by (simp add: attempts_made_def del: attempt.simps)
    moreover have "stream_loop N url conf retries err s = retry_line (attempt N url conf s 1)"
      unfolding stream_loop_last [OF Suc.prems one False] first using False by (simp add: retry_line_def)
    ultimately show ?thesis by blast
  next
    case True
    let ?t = "tee_log (Line ''count#busltee.stream.retry'') s1"
    have shift: "attempt N url conf s (Suc (Suc j)) = attempt N url conf ?t (Suc j)" for j
      by (rule attempt_shift) (simp add: one retry_line_def True)
    have "n = nat (retries - 1)" and r: "0 \<le> retries - 1" using Suc by simp_all
    from Suc.hyps(1) [OF this, of ?t err1] obtain k where k: "attempts_made N url conf ?t (retries - 1) k"
      "stream_loop N url conf (retries - 1) err1 ?t = retry_line (attempt N url conf ?t k)" by blast
    then obtain m where m: "k = Suc m" by (cases k) (auto simp: attempts_made_def)
    have "isTimeout (snd (attempt N url conf s j))" if "1 \<le> j" "j < Suc k" for j
      using that k(1) first True shift m
      by (cases j rule: nat.exhaust; cases "j - 1") (auto simp: attempts_made_def)
    then have "attempts_made N url conf s retries (Suc k)"
      using k(1) shift m unfolding attempts_made_def by simp
    moreover have "stream_loop N url conf retries err s = retry_line (attempt N url conf s (Suc k))"
      using k(2) shift m stream_loop_retry [OF Suc.prems one True, of err] by simp
    ultimately show ?thesis by blast
  qed
qed

section \<open>Properties\<close>

text \<open>
  C27. An upload ends after at most one attempt more than the configured retries: it is made again
  exactly after the attempts that end with a timeout, its result is that of the last one, and
  with a negative number of retries nothing is sent at all and the upload counts as a success.
\<close>

theorem stream_attempts:
  "if cf_Retry conf < 0 then bt_stream N url conf s = (s, None)
   else \<exists>k. attempts_made N url conf s (cf_Retry conf) k
     \<and> bt_stream N url conf s = retry_line (attempt N url conf s k)"
  by (simp add: bt_stream_def stream_loop_attempts stream_loop_stop)

text \<open>A transport that reports success only when it has read the body to its end.\<close>

definition reads_body :: "'h net \<Rightarrow> bool" where
  "reads_body N \<longleftrightarrow> (\<forall>t url body h h' rest res.
     nt_roundTrip N t url body h = (h', rest, res, None) \<longrightarrow> rest = [])"

lemma reads_bodyD: "reads_body N \<Longrightarrow> nt_roundTrip N t url body h = (h', rest, res, None) \<Longrightarrow> rest = []"
  unfolding reads_body_def by blast

lemma streamNoRetry_reads:
  "reads_body N \<Longrightarrow> streamNoRetry N url conf s = (s', None) \<Longrightarrow> t_stdin s' = []"
  by (auto simp: streamNoRetry_def monitor_def tee_log_def Let_def dest: reads_bodyD
      split: if_splits option.splits prod.splits)

lemma post_reads:
  assumes "reads_body N" and "0 \<le> cf_Retry conf" shows "t_stdin (bt_post N url conf s) = []"
proof -
  obtain k where k: "attempts_made N url conf s (cf_Retry conf) k"
    "bt_stream N url conf s = retry_line (attempt N url conf s k)"
    using stream_loop_attempts [OF assms(2)] unfolding bt_stream_def by blast
  then obtain m where m: "k = Suc m" by (cases k) (auto simp: attempts_made_def)
  obtain s1 e where a: "attempt N url conf s k = (s1, e)" by (cases "attempt N url conf s k")
  show ?thesis
  proof (cases e)
    case None
    with a m streamNoRetry_reads [OF assms(1)] have "t_stdin s1 = []" by simp
    with None a k(2) show ?thesis by (simp add: bt_post_def tee_log_def retry_line_def)
  next
    case (Some x)
    with a k(2) show ?thesis by (simp add: bt_post_def tee_log_def retry_line_def)
  qed
qed


text \<open>
  With a negative number of retries the command never ends when it writes anything: the uploader
  returns without an error and without reading the pipe.
\<close>

theorem negative_retry_blocks:
  assumes "cf_Retry conf < 0" and "args \<noteq> []" and "ps_start P args = None" and "ps_writes P args \<noteq> []"
  shows "bt_Run N P url args conf late h = Blocked"
  using assms
  by (simp add: bt_Run_def bt_run_def bt_post_def bt_stream_def stream_loop_stop tee_log_def)

text \<open>
  An upload that is made again after a timeout sends only what the attempt before has left
  unread: the server that answers gets a body without its beginning, and the upload counts as a
  success.
\<close>

theorem retry_sends_the_rest:
  assumes "1 \<le> cf_Retry conf" and "url \<noteq> []" and "nt_newRequest N url = None"
    and "nt_roundTrip N (newTransport conf) url body h = (h1, rest, None, Some (ErrNet True m))"
    and "nt_roundTrip N (newTransport conf) url rest h1 = (h2, rest2, res, None)"
  shows "\<exists>s. bt_stream N url conf \<lparr>t_net = h, t_stdin = body, t_log = []\<rparr> = (s, None)
    \<and> t_stdin s = rest2 \<and> t_net s = (case res of None \<Rightarrow> h2 | Some b \<Rightarrow> nt_close N b h2)"
proof -
  let ?s = "\<lparr>t_net = h, t_stdin = body, t_log = []\<rparr>"
  let ?s1 = "\<lparr>t_net = h1, t_stdin = rest, t_log = [Elapsed ''busltee.stream'']\<rparr>"
  let ?t = "tee_log (Line ''count#busltee.stream.retry'') ?s1"
  have one: "streamNoRetry N url conf ?s = (?s1, Some (ErrNet True m))"
    using assms by (simp add: streamNoRetry_def monitor_def tee_log_def)
  obtain s2 where two: "streamNoRetry N url conf ?t = (s2, None)" "t_stdin s2 = rest2"
    "t_net s2 = (case res of None \<Rightarrow> h2 | Some b \<Rightarrow> nt_close N b h2)"
    using assms by (simp add: streamNoRetry_def monitor_def tee_log_def)
  have "bt_stream N url conf ?s = stream_loop N url conf (cf_Retry conf - 1) (Some (ErrNet True m)) ?t"
    unfolding bt_stream_def using assms(1) by (intro stream_loop_retry one) (simp_all add: isTimeout_def)
  also have "\<dots> = (s2, None)"
    using assms(1) by (intro stream_loop_last two) simp_all
  finally show ?thesis using two by blast
qed

text \<open>A timeout below one second is none: the conversion cuts it to 0, which stands for no limit.\<close>

lemma fraction_is_no_timeout:
  assumes "cf_Timeout conf = Fin q" and "0 < q" and "q < 1"
  shows "tr_dial (newTransport conf) = Some (30000000000, 0)"
proof -
  have "\<lfloor>q\<rfloor> = 0" using assms by (simp add: floor_eq_iff)
  with assms show ?thesis by (simp add: newTransport_def f_positive_def f_int64_def is_i64_def i64_def)
qed

section \<open>Witnesses\<close>

definition demo_conv :: fconv where
  "demo_conv = \<lparr>cv_parseFloat = (\<lambda>s. if s = ''0.5'' then (Fin (1 / 2), None) else (Fin 0, Some ErrSyntax)),
     cv_showFloat = (\<lambda>_. ''1''), cv_quote = (\<lambda>s. CHR 0x22 # s @ [CHR 0x22]),
     cv_parseFloat32 = (\<lambda>_. (0, Some ErrSyntax)), cv_showFloat32 = (\<lambda>_. []),
     cv_parseDuration = (\<lambda>s. if s = ''1ns'' then (1, None) else (0, Some ErrSyntax)), cv_showDuration = (\<lambda>_. ''1ns''),
     cv_parseIP = (\<lambda>s. if s = ''::'' then Some (replicate 16 0) else None), cv_showIP = (\<lambda>_. ''::'')\<rparr>"

definition demo_set :: flagSet where
  "demo_set = (case bt_flags demo_conv ''busltee'' of Return f \<Rightarrow> f | _ \<Rightarrow> newFlagSet [] ExitOnError)"

lemma demo_set_eq:
  "bt_flags demo_conv ''busltee'' = Return demo_set"
  "fs_interspersed demo_set" "fs_handling demo_set = ExitOnError"
  "map (fg_Value \<circ> snd) (fs_formal demo_set) = [0, 1, 2, 3, 4]"
  "map fst (fs_formal demo_set) = [''insecure'', ''retry'', ''connect-timeout'', ''log-prefix'', ''log-file'']"
  "map_of (fs_shorthands demo_set) CHR ''k'' = map_of (fs_formal demo_set) ''insecure''"
  "map (fs_mem demo_set) [0, 1, 2, 3, 4] = [VBool False, VInt 5, VFloat (Fin 1), VString [], VString []]"
  by (simp_all add: demo_set_def bt_flags_def commandLine_def newFlagSet_def boolVarP_def intVar_def
      stringVar_def float64Var_def newBoolValue_def newIntValue_def newStringValue_def
      newFloat64Value_def fs_VarP_def Let_def)

lemma demo_set_wf: "fs_wf demo_set"
proof -
  have step: "fs_wf (newBoolValue f b p) = fs_wf f" "fs_wf (newIntValue f n p) = fs_wf f"
    "fs_wf (newStringValue f s p) = fs_wf f" "fs_wf (newFloat64Value f x p) = fs_wf f"
    for f b p n s x
    by (simp_all add: newBoolValue_def newIntValue_def newStringValue_def newFloat64Value_def)
  have bind: "go_bind m k = Return y \<Longrightarrow> \<exists>x. m = Return x \<and> k x = Return y"
    for m :: "flagSet go" and k y by (cases m) auto
  have start: "fs_wf (commandLine ''busltee'')"
    by (simp add: commandLine_def newFlagSet_def fs_wf_def)
  show ?thesis
    using demo_set_eq(1) unfolding bt_flags_def boolVarP_def intVar_def stringVar_def float64Var_def
    by (blast dest!: bind dest: VarP_wf [OF _ step(1) [THEN iffD2, OF start]]
        VarP_wf [OF _ step(2) [THEN iffD2]] VarP_wf [OF _ step(3) [THEN iffD2]]
        VarP_wf [OF _ step(4) [THEN iffD2]])
qed

text \<open>
  A server that is never reached, one that reads the whole body, and one that times out after the
  first piece and then reads the rest; its state lists the bodies it has got.
\<close>

definition demo_net :: "nat \<Rightarrow> bytes list list net" where
  "demo_net mode =
     \<lparr>nt_newRequest = (\<lambda>url. None),
      nt_roundTrip = (\<lambda>t url body h.
        if mode = 0 then (h, body, None, Some (ErrNet False ''connection refused''))
        else if mode = 2 \<and> h = [] then (h @ [take 1 body], drop 1 body, None, Some (ErrNet True ''timeout''))
        else (h @ [body], [], Some 0, None)),
      nt_close = (\<lambda>b h. h)\<rparr>"

definition demo_process :: process where
  "demo_process = \<lparr>ps_start = (\<lambda>args. None), ps_writes = (\<lambda>args. [''he'', ''llo'']),
     ps_wait = (\<lambda>args. Some (ErrExit 3))\<rparr>"

definition demo_bt_config :: "int \<Rightarrow> bt_config" where
  "demo_bt_config n = \<lparr>cf_Insecure = False, cf_Timeout = Fin 1, cf_Retry = n, cf_URL = ''http://b'',
     cf_Args = [''ls''], cf_LogPrefix = [], cf_LogFile = []\<rparr>"

lemma demo_reads_body: "reads_body (demo_net mode)"
  by (simp add: reads_body_def demo_net_def)


theorem negative_retry_blocks_witness:
  "bt_Run (demo_net 1) demo_process ''http://b'' [''ls''] (demo_bt_config (- 1)) False [] = Blocked"
  by (rule negative_retry_blocks) (simp_all add: demo_bt_config_def demo_process_def)

theorem retry_sends_the_rest_witness:
  "\<exists>s. bt_stream (demo_net 2) ''http://b'' (demo_bt_config 5)
       \<lparr>t_net = [], t_stdin = [''he'', ''llo''], t_log = []\<rparr> = (s, None)
    \<and> t_net s = [[''he''], [''llo'']]"
  using retry_sends_the_rest [of "demo_bt_config 5" "''http://b''" "demo_net 2" "[''he'', ''llo'']" "[]"
      "[[''he'']]" "[''llo'']" "''timeout''" "[[''he''], [''llo'']]" "[]" "Some 0"]
  by (simp add: demo_bt_config_def demo_net_def) blast

theorem parse_reads_items_witness:
  "let (f, r) = fs_Parse demo_conv demo_set [''-k'', ''--retry=3'', ''http://b'', ''--log-prefix=x'', ''--'', ''ls'', ''-l'']
   in r = Parsed None \<and> fs_args f = [''http://b'', ''ls'', ''-l''] \<and> map (fs_mem f) [0, 1, 3] = [VBool True, VInt 3, VString ''x'']"
proof -
  let ?items = "[Letters ''k'', LongEq ''retry'' ''3'', Positional ''http://b'', LongEq ''log-prefix'' ''x'']"
  have "\<forall>it \<in> set ?items. item_ok demo_conv demo_set it" by code_simp
  from parse_reads_items [OF demo_set_eq(2) this, of "[''ls'', ''-l'']"]
  have p: "fs_Parse demo_conv demo_set [''-k'', ''--retry=3'', ''http://b'', ''--log-prefix=x'', ''--'', ''ls'', ''-l'']
    = ((foldl (assign demo_conv) (demo_set\<lparr>fs_parsed := True\<rparr>) (concat (map (sets demo_set) ?items)))
       \<lparr>fs_args := [''http://b'', ''ls'', ''-l'']\<rparr>, Parsed None)" by simp
  have m: "map (fs_mem (foldl (assign demo_conv) (demo_set\<lparr>fs_parsed := True\<rparr>) (concat (map (sets demo_set) ?items)))) [0, 1, 3]
    = [VBool True, VInt 3, VString ''x'']" by code_simp
  show ?thesis unfolding p using m by simp
qed

theorem parse_well_typed_witness:
  "fs_wf (fst (fs_Parse demo_conv demo_set [''--retry=x'']))
    \<and> kind_of (fs_mem (fst (fs_Parse demo_conv demo_set [''--retry=x''])) 1) = VInt 0"
  using parse_well_typed [OF demo_set_wf, of demo_conv "[''--retry=x'']"] demo_set_eq(7)
  by (cases "fs_Parse demo_conv demo_set [''--retry=x'']") simp

text \<open>The whole command: the arguments of the usage text, and the status of the child.\<close>

lemma bt_main_demo:
  "bt_main demo_conv (\<lambda>_. False) (demo_net 1) demo_process False [] ''busltee''
     [''--retry=2'', ''http://b'', ''--'', ''ls'', ''-l'']
   = Return (3, Some \<lparr>lg_out = Discard, lg_prefix = '' '', lg_open = False\<rparr>)"
  "bt_main demo_conv (\<lambda>_. False) (demo_net 1) demo_process False [] ''busltee'' [''http://b''] = Return (1, None)"
  "bt_main demo_conv (\<lambda>_. False) (demo_net 1) demo_process False [] ''busltee'' [''--retry=x'', ''http://b'', ''ls'']
   = Return (2, None)"
  "bt_main demo_conv (\<lambda>_. False) (demo_net 1) demo_process False [] ''busltee'' [''--retry=-1'', ''http://b'', ''ls'']
   = Blocked"
  by code_simp+

end
