(* ===== verification/Redigo.thy ===== *)
theory Redigo
  imports Reply Strconv
begin

text \<open>
  The connection of the vendored Redis client
  (\<open>Godeps/_workspace/src/github.com/garyburd/redigo/redis/conn.go\<close>): the writer of commands, the
  reader of replies and the calls \<open>Send\<close>, \<open>Flush\<close>, \<open>Receive\<close> and \<open>Do\<close>. Below it are a
  \<open>bufio.Writer\<close> and a \<open>bufio.Reader\<close> with their buffers of 4096 bytes over a network connection,
  whose input arrives in segments of any size; the theorems hold for every segmentation.
\<close>

section \<open>The connection\<close>

record rconn =
  cn_pending :: int
  cn_err :: "go_error option"
  cn_rbuf :: bytes               \<comment> \<open>what the \<open>bufio.Reader\<close> holds\<close>
  cn_in :: "bytes list"          \<comment> \<open>what the next reads of the network return\<close>
  cn_end :: go_error             \<comment> \<open>the error of a read after them\<close>
  cn_wbuf :: bytes               \<comment> \<open>what the \<open>bufio.Writer\<close> holds\<close>
  cn_bwerr :: "go_error option"  \<comment> \<open>its first error\<close>
  cn_sent :: bytes               \<comment> \<open>what has been written to the network\<close>
  cn_neterr :: "go_error option" \<comment> \<open>the error of a write to the network\<close>
  cn_closeErr :: "go_error option"
  cn_closed :: bool
  cn_readTimeout :: int
  cn_writeTimeout :: int
  cn_now :: int
  cn_readDeadline :: "int option"
  cn_writeDeadline :: "int option"

text \<open>A fresh connection: \<open>Dial\<close> of an \<open>xDialer\<close>, and \<open>NewConn\<close>.\<close>

definition newConn :: "bytes list \<Rightarrow> go_error \<Rightarrow> int \<Rightarrow> int \<Rightarrow> rconn" where
  "newConn segs e readTimeout writeTimeout =
     \<lparr>cn_pending = 0, cn_err = None, cn_rbuf = [], cn_in = segs, cn_end = e, cn_wbuf = [],
      cn_bwerr = None, cn_sent = [], cn_neterr = None, cn_closeErr = None, cn_closed = False,
      cn_readTimeout = readTimeout, cn_writeTimeout = writeTimeout, cn_now = 0,
      cn_readDeadline = None, cn_writeDeadline = None\<rparr>"

text \<open>\<open>dial\<close> is \<open>NetDial\<close>, or \<open>net.Dial\<close> where that is nil.\<close>

definition xDialer_Dial ::
  "(string \<Rightarrow> string \<Rightarrow> go_error + bytes list \<times> go_error) \<Rightarrow> int \<Rightarrow> int \<Rightarrow> string \<Rightarrow> string \<Rightarrow> go_error + rconn" where
  "xDialer_Dial dial readTimeout writeTimeout network address =
     (case dial network address of Inl e \<Rightarrow> Inl e
      | Inr (segs, e) \<Rightarrow> Inr (newConn segs e readTimeout writeTimeout))"

definition redis_Dial ::
  "(string \<Rightarrow> string \<Rightarrow> go_error + bytes list \<times> go_error) \<Rightarrow> string \<Rightarrow> string \<Rightarrow> go_error + rconn" where
  "redis_Dial dial network address = xDialer_Dial dial 0 0 network address"

definition net_Close :: "rconn \<Rightarrow> rconn \<times> go_error option" where
  "net_Close c =
     (let e = ErrOther ''use of closed network connection''
      in (c\<lparr>cn_closed := True, cn_in := [], cn_end := e, cn_neterr := Some e\<rparr>, cn_closeErr c))"

definition conn_Close :: "rconn \<Rightarrow> rconn \<times> go_error option" where
  "conn_Close c =
     (case cn_err c of Some e \<Rightarrow> (c, Some e)
      | None \<Rightarrow> net_Close (c\<lparr>cn_err := Some (ErrOther ''redigo: closed'')\<rparr>))"

definition conn_fatal :: "rconn \<Rightarrow> go_error \<Rightarrow> rconn" where
  "conn_fatal c e = (case cn_err c of Some _ \<Rightarrow> c | None \<Rightarrow> fst (net_Close (c\<lparr>cn_err := Some e\<rparr>)))"

definition conn_Err :: "rconn \<Rightarrow> go_error option" where "conn_Err c = cn_err c"

section \<open>bufio\<close>

definition bufio_size :: nat where "bufio_size = 4096"

definition bw_Flush :: "rconn \<Rightarrow> rconn \<times> go_error option" where
  "bw_Flush c =
     (if cn_bwerr c \<noteq> None then (c, cn_bwerr c)
      else if cn_wbuf c = [] then (c, None)
      else case cn_neterr c of
        None \<Rightarrow> (c\<lparr>cn_sent := cn_sent c @ cn_wbuf c, cn_wbuf := []\<rparr>, None)
      | Some e \<Rightarrow> (c\<lparr>cn_bwerr := Some e\<rparr>, Some e))"

text \<open>
  \<open>Write\<close>, and with \<open>direct\<close> false \<open>WriteString\<close>, which has no way round the buffer. What does
  not fit goes to the network; an error is reported by every later call.
\<close>

function bw_write :: "bool \<Rightarrow> bytes \<Rightarrow> rconn \<Rightarrow> rconn \<times> go_error option" where
  "bw_write direct p c =
     (if cn_bwerr c \<noteq> None then (c, cn_bwerr c)
      else if length p \<le> bufio_size - length (cn_wbuf c)
        then (c\<lparr>cn_wbuf := cn_wbuf c @ p\<rparr>, None)
      else if direct \<and> cn_wbuf c = [] then
        (case cn_neterr c of
           None \<Rightarrow> (c\<lparr>cn_sent := cn_sent c @ p\<rparr>, None)
         | Some e \<Rightarrow> (c\<lparr>cn_bwerr := Some e\<rparr>, Some e))
      else
        (let n = bufio_size - length (cn_wbuf c)
         in bw_write direct (drop n p) (fst (bw_Flush (c\<lparr>cn_wbuf := cn_wbuf c @ take n p\<rparr>)))))"
  by pat_completeness auto
termination
  by (relation "measure (\<lambda>(d, p, c). if cn_bwerr c = None then 1 + 2 * length p + length (take 1 (cn_wbuf c)) else 0)")
    (auto simp: bw_Flush_def bufio_size_def split: option.splits)

declare bw_write.simps [simp del]

text \<open>
  One read of the network into a buffer with room for \<open>k\<close> bytes; it waits until there are some.
\<close>

fun net_read :: "nat \<Rightarrow> bytes list \<Rightarrow> (bytes \<times> bytes list) option" where
  "net_read k [] = None"
| "net_read k ([] # segs) = net_read k segs"
| "net_read k ((b # s) # segs) = Some (take k (b # s), drop k (b # s) # segs)"

lemma net_read_some:
  "net_read k segs = Some (s, segs') \<Longrightarrow>
   concat segs = s @ concat segs' \<and> length s \<le> k \<and> (0 < k \<longrightarrow> s \<noteq> [])"
  by (induction k segs rule: net_read.induct) auto

lemma net_read_none: "net_read k segs = None \<longleftrightarrow> concat segs = []"
  by (induction k segs rule: net_read.induct) auto

text \<open>
  \<open>ReadSlice\<close> up to a line feed: the line, or the error of a line longer than the buffer, or the
  error of the network.
\<close>

datatype slice = Slice bytes | Buffer_full | Slice_error go_error

function br_readSlice :: "rconn \<Rightarrow> rconn \<times> slice" where
  "br_readSlice c =
     (case dropWhile (\<lambda>x. x \<noteq> CHR 0x0A) (cn_rbuf c) of
        _ # rest \<Rightarrow> (c\<lparr>cn_rbuf := rest\<rparr>, Slice (takeWhile (\<lambda>x. x \<noteq> CHR 0x0A) (cn_rbuf c) @ [CHR 0x0A]))
      | [] \<Rightarrow>
          (if bufio_size \<le> length (cn_rbuf c) then (c\<lparr>cn_rbuf := []\<rparr>, Buffer_full)
           else case net_read (bufio_size - length (cn_rbuf c)) (cn_in c) of
             None \<Rightarrow> (c\<lparr>cn_rbuf := []\<rparr>, Slice_error (cn_end c))
           | Some (s, segs) \<Rightarrow> br_readSlice (c\<lparr>cn_rbuf := cn_rbuf c @ s, cn_in := segs\<rparr>)))"
  by pat_completeness auto
termination
proof (relation "measure (\<lambda>c. length (concat (cn_in c)))", goal_cases)
  case (2 c x s segs)
  then have "0 < bufio_size - length (cn_rbuf c)" by simp
  with 2 net_read_some [of "bufio_size - length (cn_rbuf c)" "cn_in c" s segs]
  have "concat (cn_in c) = s @ concat segs" "s \<noteq> []" by simp_all
  then show ?case by simp
qed simp

declare br_readSlice.simps [simp del]

text \<open>\<open>Read\<close> of the buffered reader, and \<open>io.ReadFull\<close> of \<open>n\<close> bytes.\<close>

definition br_read :: "nat \<Rightarrow> rconn \<Rightarrow> (rconn \<times> bytes) option" where
  "br_read k c =
     (if cn_rbuf c = [] then
        if bufio_size \<le> k then
          (case net_read k (cn_in c) of None \<Rightarrow> None | Some (s, segs) \<Rightarrow> Some (c\<lparr>cn_in := segs\<rparr>, s))
        else (case net_read bufio_size (cn_in c) of None \<Rightarrow> None
          | Some (s, segs) \<Rightarrow> Some (c\<lparr>cn_rbuf := drop k s, cn_in := segs\<rparr>, take k s))
      else Some (c\<lparr>cn_rbuf := drop k (cn_rbuf c)\<rparr>, take k (cn_rbuf c)))"

text \<open>All that has arrived or will arrive.\<close>

definition input :: "rconn \<Rightarrow> bytes" where
  "input c = cn_rbuf c @ concat (cn_in c)"

text \<open>Reading takes a prefix of the input away and changes nothing else.\<close>

definition consumed :: "rconn \<Rightarrow> bytes \<Rightarrow> rconn \<Rightarrow> bool" where
  "consumed c x c' \<longleftrightarrow> input c = x @ input c' \<and> c' = c\<lparr>cn_rbuf := cn_rbuf c', cn_in := cn_in c'\<rparr>"

lemma consumed_refl [simp]: "consumed c [] c"
  by (simp add: consumed_def)

lemma consumed_trans: "consumed c x c' \<Longrightarrow> consumed c' y c'' \<Longrightarrow> consumed c (x @ y) c''"
  unfolding consumed_def by (cases c; cases c'; cases c'') simp

lemma consumed_buf: "cn_rbuf c = x @ b \<Longrightarrow> consumed c x (c\<lparr>cn_rbuf := b\<rparr>)"
  unfolding consumed_def input_def by (cases c) simp

lemma consumed_fill:
  "cn_rbuf c @ concat (cn_in c) = x @ b @ concat i \<Longrightarrow> consumed c x (c\<lparr>cn_rbuf := b, cn_in := i\<rparr>)"
  unfolding consumed_def input_def by (cases c) simp

lemma consumed_input: "consumed c x c' \<Longrightarrow> input c = x @ input c'"
  by (simp add: consumed_def)

lemma consumed_end: "consumed c x c' \<Longrightarrow> cn_end c' = cn_end c"
  unfolding consumed_def by (cases c; cases c') simp

lemma br_read_some:
  assumes "br_read k c = Some (c', s)"
  shows "consumed c s c'" and "length s \<le> k" and "0 < k \<Longrightarrow> s \<noteq> []"
proof -
  consider (buf) "cn_rbuf c \<noteq> []" "c' = c\<lparr>cn_rbuf := drop k (cn_rbuf c)\<rparr>" "s = take k (cn_rbuf c)"
    | (direct) segs where "cn_rbuf c = []" "net_read k (cn_in c) = Some (s, segs)" "c' = c\<lparr>cn_in := segs\<rparr>"
    | (fill) t segs where "cn_rbuf c = []" "net_read bufio_size (cn_in c) = Some (t, segs)"
        "c' = c\<lparr>cn_rbuf := drop k t, cn_in := segs\<rparr>" "s = take k t"
    using assms by (auto simp: br_read_def split: if_splits option.splits)
  then have "consumed c s c' \<and> length s \<le> k \<and> (0 < k \<longrightarrow> s \<noteq> [])"
  proof cases
    case buf
    then show ?thesis by (auto intro: consumed_buf)
  next
    case direct
    then have "c' = c\<lparr>cn_rbuf := [], cn_in := segs\<rparr>" by (cases c) simp
    with direct net_read_some [OF direct(2)] show ?thesis by (auto intro: consumed_fill)
  next
    case fill
    with net_read_some [OF fill(2)] show ?thesis
      by (auto intro: consumed_fill simp: bufio_size_def)
  qed
  then show "consumed c s c'" and "length s \<le> k" and "0 < k \<Longrightarrow> s \<noteq> []" by blast+
qed

lemma br_read_none: "br_read k c = None \<longleftrightarrow> input c = []"
  unfolding br_read_def input_def
  using net_read_none [of k "cn_in c"] net_read_none [of bufio_size "cn_in c"]
  by (auto split: option.splits simp del: concat_eq_Nil_conv)

function read_full :: "nat \<Rightarrow> rconn \<Rightarrow> rconn \<times> bytes \<times> go_error option" where
  "read_full n c =
     (if n = 0 then (c, [], None)
      else case br_read n c of
        None \<Rightarrow> (c, [], Some (cn_end c))
      | Some (c', s) \<Rightarrow>
          (case read_full (n - length s) c' of
             (c'', t, None) \<Rightarrow> (c'', s @ t, None)
           | (c'', t, Some e) \<Rightarrow> (c'', s @ t, Some (if e = EOF then ErrUnexpectedEOF else e))))"
  by pat_completeness auto
termination
  by (relation "measure fst") (auto dest: br_read_some(3))

declare read_full.simps [simp del]

text \<open>Whatever the segments, \<open>ReadFull\<close> takes the next \<open>n\<close> bytes of the input when they are there.\<close>

lemma read_full_input:
  "n \<le> length (input c) \<Longrightarrow> \<exists>c'. read_full n c = (c', take n (input c), None) \<and> consumed c (take n (input c)) c'"
proof (induction n c rule: read_full.induct)
  case (1 n c)
  show ?case
  proof (cases "n = 0")
    case True
    then show ?thesis by (simp add: read_full.simps)
  next
    case False
    with "1.prems" have "br_read n c \<noteq> None" by (auto simp: br_read_none)
    then obtain c1 s where b: "br_read n c = Some (c1, s)" by auto
    note r = br_read_some [OF b]
    from consumed_input [OF r(1)] have i: "input c = s @ input c1" .
    with "1.prems" r(2) have "n - length s \<le> length (input c1)" by simp
    from "1.IH" [OF False b refl this] obtain c2 where
      c2: "read_full (n - length s) c1 = (c2, take (n - length s) (input c1), None)"
        "consumed c1 (take (n - length s) (input c1)) c2" by blast
    have "take n (input c) = s @ take (n - length s) (input c1)" using i r(2) by simp
    with False b c2 consumed_trans [OF r(1) c2(2)] show ?thesis
      by (simp add: read_full.simps [of n c])
  qed
qed

text \<open>And \<open>ReadSlice\<close> takes the next line when it fits the buffer.\<close>

lemma readSlice_line:
  assumes "input c = l @ CHR 0x0A # t" and "CHR 0x0A \<notin> set l" and "length l < bufio_size"
  shows "\<exists>c'. br_readSlice c = (c', Slice (l @ [CHR 0x0A])) \<and> consumed c (l @ [CHR 0x0A]) c'"
  using assms
proof (induction c rule: br_readSlice.induct)
  case (1 c)
  show ?case
  proof (cases "CHR 0x0A \<in> set (cn_rbuf c)")
    case True
    then obtain u v where uv: "cn_rbuf c = u @ CHR 0x0A # v" "CHR 0x0A \<notin> set u"
      by (metis split_list_first)
    have "takeWhile (\<lambda>x. x \<noteq> CHR 0x0A) (input c) = u"
      using uv(1) upto_free(1) [OF uv(2), of "CHR 0x0A # v @ concat (cn_in c)"] by (simp add: input_def)
    moreover have "takeWhile (\<lambda>x. x \<noteq> CHR 0x0A) (input c) = l"
      using "1.prems"(1) upto_free(1) [OF "1.prems"(2), of "CHR 0x0A # t"] by simp
    ultimately have "u = l" by simp
    with uv upto_free [OF uv(2), of "CHR 0x0A # v"] show ?thesis
      by (subst br_readSlice.simps) (auto intro!: consumed_buf)
  next
    case False
    then have d: "dropWhile (\<lambda>x. x \<noteq> CHR 0x0A) (cn_rbuf c) = []"
      by (auto simp: dropWhile_eq_Nil_conv)
    have pre: "length (cn_rbuf c) \<le> length l"
    proof (rule ccontr)
      assume neg: "\<not> length (cn_rbuf c) \<le> length l"
      then have "CHR 0x0A = (cn_rbuf c @ concat (cn_in c)) ! length l"
        using "1.prems"(1) by (simp add: input_def)
      also have "\<dots> = cn_rbuf c ! length l" using neg by (simp add: nth_append)
      finally show False using False neg by (metis not_le nth_mem)
    qed
    have "length (cn_rbuf c) + length (concat (cn_in c)) = length l + Suc (length t)"
      using arg_cong [OF "1.prems"(1), of length] by (simp add: input_def)
    with pre have "concat (cn_in c) \<noteq> []" by (intro notI) (simp only: list.size)
    then obtain s segs where n: "net_read (bufio_size - length (cn_rbuf c)) (cn_in c) = Some (s, segs)"
      using net_read_none by (cases "net_read (bufio_size - length (cn_rbuf c)) (cn_in c)") auto
    let ?c1 = "c\<lparr>cn_rbuf := cn_rbuf c @ s, cn_in := segs\<rparr>"
    have notfull: "\<not> bufio_size \<le> length (cn_rbuf c)" using pre "1.prems"(3) by simp
    have same: "consumed c [] ?c1"
      using net_read_some [OF n] by (intro consumed_fill) simp
    with consumed_input [OF same] "1.prems"(1) have "input ?c1 = l @ CHR 0x0A # t" by simp
    from "1.IH" [OF d notfull n refl this "1.prems"(2,3)] obtain c' where
      "br_readSlice ?c1 = (c', Slice (l @ [CHR 0x0A]))" "consumed ?c1 (l @ [CHR 0x0A]) c'" by blast
    with consumed_trans [OF same this(2)] show ?thesis
      by (subst br_readSlice.simps) (simp add: d n notfull)
  qed
qed

section \<open>Replies\<close>

definition protocolError :: "string \<Rightarrow> go_error" where
  "protocolError pe =
     ErrOther (''redigo: '' @ pe @ '' (possible server error or unsupported concurrent read by application)'')"

definition readLine :: "rconn \<Rightarrow> rconn \<times> (go_error + bytes)" where
  "readLine c =
     (case br_readSlice c of
        (c', Buffer_full) \<Rightarrow> (c', Inl (protocolError ''long response line''))
      | (c', Slice_error e) \<Rightarrow> (c', Inl e)
      | (c', Slice p) \<Rightarrow>
          (let i = int (length p) - 2
           in if i < 0 \<or> p ! nat i \<noteq> CHR 0x0D then (c', Inl (protocolError ''bad response line terminator''))
              else (c', Inr (take (nat i) p))))"

text \<open>The loop of \<open>parseLen\<close> and \<open>parseInt\<close>; the arithmetic wraps around.\<close>

fun digits_i64 :: "int \<Rightarrow> bytes \<Rightarrow> int option" where
  "digits_i64 n [] = Some n"
| "digits_i64 n (b # p) =
     (let n1 = i64 (n * 10)
      in if \<not> is_digit b then None else digits_i64 (i64 (n1 + int (digit_val b))) p)"

definition parseLen :: "bytes \<Rightarrow> int \<times> go_error option" where
  "parseLen p =
     (if p = [] then (-1, Some (protocolError ''malformed length''))
      else if p = ''-1'' then (-1, None)
      else case digits_i64 0 p of
        None \<Rightarrow> (-1, Some (protocolError ''illegal bytes in length''))
      | Some n \<Rightarrow> (n, None))"

definition parseInt :: "bytes \<Rightarrow> go_error + reply" where
  "parseInt p =
     (if p = [] then Inl (protocolError ''malformed integer'')
      else let negate = (hd p = CHR ''-''); q = (if negate then tl p else p)
        in if q = [] then Inl (protocolError ''malformed integer'')
           else case digits_i64 0 q of
             None \<Rightarrow> Inl (protocolError ''illegal bytes in length'')
           | Some n \<Rightarrow> Inr (RInt (if negate then i64 (- n) else n)))"

text \<open>The elements of an array, each read by \<open>f\<close>, until one fails.\<close>

fun read_elems :: "(rconn \<Rightarrow> rconn \<times> (go_error + reply)) \<Rightarrow> nat \<Rightarrow> rconn \<Rightarrow> rconn \<times> (go_error + reply list)" where
  "read_elems f 0 c = (c, Inr [])"
| "read_elems f (Suc n) c =
     (case f c of
        (c', Inl e) \<Rightarrow> (c', Inl e)
      | (c', Inr r) \<Rightarrow>
          (case read_elems f n c' of
             (c'', Inl e) \<Rightarrow> (c'', Inl e)
           | (c'', Inr rs) \<Rightarrow> (c'', Inr (r # rs))))"

definition read_bulk :: "int \<Rightarrow> rconn \<Rightarrow> rconn \<times> (go_error + reply)" where
  "read_bulk n c =
     (case read_full (nat n) c of
        (c1, p, Some e) \<Rightarrow> (c1, Inl e)
      | (c1, p, None) \<Rightarrow>
          (case readLine c1 of
             (c2, Inl e) \<Rightarrow> (c2, Inl e)
           | (c2, Inr line) \<Rightarrow>
               (if line \<noteq> [] then (c2, Inl (protocolError ''bad bulk string format'')) else (c2, Inr (RBulk p)))))"

text \<open>
  One reply. The elements of an array are read by the same function; \<open>fuel\<close> bounds how deep
  arrays may be nested, and an input cannot nest them deeper than it has bytes.
\<close>

fun reply_fuel :: "nat \<Rightarrow> rconn \<Rightarrow> rconn \<times> (go_error + reply)" where
  "reply_fuel 0 c = (c, Inl (ErrOther ''out of fuel''))"
| "reply_fuel (Suc fuel) c =
     (case readLine c of
        (c1, Inl e) \<Rightarrow> (c1, Inl e)
      | (c1, Inr []) \<Rightarrow> (c1, Inl (protocolError ''short response line''))
      | (c1, Inr (x # line)) \<Rightarrow>
          (if x = CHR ''+'' then (c1, Inr (RStatus line))
           else if x = CHR ''-'' then (c1, Inr (RError line))
           else if x = CHR '':'' then (c1, parseInt line)
           else if x = CHR ''$'' then
             (case parseLen line of
                (n, Some e) \<Rightarrow> (c1, Inl e)
              | (n, None) \<Rightarrow> (if n < 0 then (c1, Inr RNil) else read_bulk n c1))
           else if x = CHR ''*'' then
             (case parseLen line of
                (n, Some e) \<Rightarrow> (c1, Inl e)
              | (n, None) \<Rightarrow>
                  (if n < 0 then (c1, Inr RNil)
                   else case read_elems (reply_fuel fuel) (nat n) c1 of
                     (c2, Inl e) \<Rightarrow> (c2, Inl e)
                   | (c2, Inr rs) \<Rightarrow> (c2, Inr (RArray rs))))
           else (c1, Inl (protocolError ''unexpected response line''))))"

definition readReply :: "rconn \<Rightarrow> rconn \<times> (go_error + reply)" where
  "readReply c = reply_fuel (Suc (length (input c))) c"

section \<open>Commands\<close>

text \<open>The dynamic types of an argument; the last is the text \<open>fmt.Fprint\<close> writes of any other.\<close>

datatype arg =
    AStr string | ABytes bytes | AInt int | AInt64 int | AFloat float64 | ABool bool | ANil | AOther string

text \<open>\<open>writeLen\<close> fills its scratch space from the end.\<close>

fun len_digits :: "nat \<Rightarrow> string \<Rightarrow> string" where
  "len_digits n acc =
     (let acc' = digit_char (n mod 10) # acc in if n div 10 = 0 then acc' else len_digits (n div 10) acc')"

declare len_digits.simps [simp del]

definition writeLen :: "char \<Rightarrow> nat \<Rightarrow> rconn \<Rightarrow> rconn \<times> go_error option" where
  "writeLen prefix n c = bw_write True (prefix # len_digits n [CHR 0x0D, CHR 0x0A]) c"

definition writeString :: "string \<Rightarrow> rconn \<Rightarrow> rconn \<times> go_error option" where
  "writeString s c =
     (let (c1, _) = writeLen CHR ''$'' (length s) c; (c2, _) = bw_write False s c1
      in bw_write False [CHR 0x0D, CHR 0x0A] c2)"

definition writeBytes :: "bytes \<Rightarrow> rconn \<Rightarrow> rconn \<times> go_error option" where
  "writeBytes p c =
     (let (c1, _) = writeLen CHR ''$'' (length p) c; (c2, _) = bw_write True p c1
      in bw_write False [CHR 0x0D, CHR 0x0A] c2)"

definition writeInt64 :: "int \<Rightarrow> rconn \<Rightarrow> rconn \<times> go_error option" where
  "writeInt64 n c = writeBytes (itoa n) c"

text \<open>\<open>show\<close> stands for \<open>strconv.AppendFloat\<close> with the format \<open>g\<close>.\<close>

definition writeFloat64 :: "(float64 \<Rightarrow> string) \<Rightarrow> float64 \<Rightarrow> rconn \<Rightarrow> rconn \<times> go_error option" where
  "writeFloat64 show x c = writeBytes (show x) c"

fun writeArg :: "(float64 \<Rightarrow> string) \<Rightarrow> arg \<Rightarrow> rconn \<Rightarrow> rconn \<times> go_error option" where
  "writeArg show (AStr s) c = writeString s c"
| "writeArg show (ABytes p) c = writeBytes p c"
| "writeArg show (AInt n) c = writeInt64 n c"
| "writeArg show (AInt64 n) c = writeInt64 n c"
| "writeArg show (AFloat x) c = writeFloat64 show x c"
| "writeArg show (ABool b) c = (if b then writeString ''1'' c else writeString ''0'' c)"
| "writeArg show ANil c = writeString [] c"
| "writeArg show (AOther t) c = writeBytes t c"

fun writeArgs ::
  "(float64 \<Rightarrow> string) \<Rightarrow> arg list \<Rightarrow> rconn \<times> go_error option \<Rightarrow> rconn \<times> go_error option" where
  "writeArgs show [] r = r"
| "writeArgs show (a # as) (c, err) =
     (if err \<noteq> None then (c, err) else writeArgs show as (writeArg show a c))"

definition writeCommand ::
  "(float64 \<Rightarrow> string) \<Rightarrow> string \<Rightarrow> arg list \<Rightarrow> rconn \<Rightarrow> rconn \<times> go_error option" where
  "writeCommand show cmd args c =
     (let (c1, _) = writeLen CHR ''*'' (1 + length args) c
      in writeArgs show args (writeString cmd c1))"

section \<open>The calls\<close>

definition setWriteDeadline :: "rconn \<Rightarrow> rconn" where
  "setWriteDeadline c =
     (if cn_writeTimeout c \<noteq> 0 then c\<lparr>cn_writeDeadline := Some (cn_now c + cn_writeTimeout c)\<rparr> else c)"

definition setReadDeadline :: "rconn \<Rightarrow> rconn" where
  "setReadDeadline c =
     (if cn_readTimeout c \<noteq> 0 then c\<lparr>cn_readDeadline := Some (cn_now c + cn_readTimeout c)\<rparr> else c)"

definition conn_Send ::
  "(float64 \<Rightarrow> string) \<Rightarrow> string \<Rightarrow> arg list \<Rightarrow> rconn \<Rightarrow> rconn \<times> go_error option" where
  "conn_Send show cmd args c =
     (case writeCommand show cmd args (setWriteDeadline (c\<lparr>cn_pending := i64 (cn_pending c + 1)\<rparr>)) of
        (c1, Some e) \<Rightarrow> (conn_fatal c1 e, Some e)
      | (c1, None) \<Rightarrow> (c1, None))"

definition conn_Flush :: "rconn \<Rightarrow> rconn \<times> go_error option" where
  "conn_Flush c =
     (case bw_Flush (setWriteDeadline c) of
        (c1, Some e) \<Rightarrow> (conn_fatal c1 e, Some e)
      | (c1, None) \<Rightarrow> (c1, None))"

definition conn_Receive :: "rconn \<Rightarrow> rconn \<times> reply \<times> go_error option" where
  "conn_Receive c =
     (case readReply (setReadDeadline c) of
        (c1, Inl e) \<Rightarrow> (conn_fatal c1 e, RNil, Some e)
      | (c1, Inr r) \<Rightarrow>
          (let c2 = (if 0 < cn_pending c1 then c1\<lparr>cn_pending := cn_pending c1 - 1\<rparr> else c1)
           in case r of RError m \<Rightarrow> (c2, RNil, Some (RedisErr m)) | _ \<Rightarrow> (c2, r, None)))"

text \<open>
  The replies to the commands sent before and to this one; the result is the last, the error the
  first.
\<close>

fun do_replies :: "nat \<Rightarrow> reply \<Rightarrow> go_error option \<Rightarrow> rconn \<Rightarrow> rconn \<times> reply \<times> go_error option" where
  "do_replies 0 reply err c = (c, reply, err)"
| "do_replies (Suc n) reply err c =
     (case readReply c of
        (c1, Inl e) \<Rightarrow> (conn_fatal c1 e, RNil, Some e)
      | (c1, Inr r) \<Rightarrow>
          do_replies n r (case r of RError m \<Rightarrow> if err = None then Some (RedisErr m) else err | _ \<Rightarrow> err) c1)"

definition conn_Do ::
  "(float64 \<Rightarrow> string) \<Rightarrow> string \<Rightarrow> arg list \<Rightarrow> rconn \<Rightarrow> rconn \<times> reply \<times> go_error option" where
  "conn_Do show cmd args c =
     (let pending = cn_pending c; c0 = c\<lparr>cn_pending := 0\<rparr>
      in if cmd = [] \<and> pending = 0 then (c0, RNil, None)
         else let c1 = setWriteDeadline c0;
                  c2 = (if cmd \<noteq> [] then fst (writeCommand show cmd args c1) else c1)
           in case bw_Flush c2 of
                (c3, Some e) \<Rightarrow> (conn_fatal c3 e, RNil, Some e)
              | (c3, None) \<Rightarrow>
                  (let c4 = setReadDeadline c3
                   in if cmd = [] then
                        (case read_elems readReply (nat pending) c4 of
                           (c5, Inl e) \<Rightarrow> (conn_fatal c5 e, RNil, Some e)
                         | (c5, Inr rs) \<Rightarrow> (c5, RArray rs, None))
                      else do_replies (nat (pending + 1)) RNil None c4))"

end
