(* ===== verification/Scan.thy ===== *)
theory Scan
  imports Strconv Reply
begin

text \<open>
  \<open>redis.Scan\<close> and the conversions behind it (\<open>scan.go\<close> of the vendored Redis client): a value of
  a reply is stored in a variable whose type decides what is accepted. A destination is a typed
  variable with its value; the fast paths of \<open>convertAssign\<close> and the reflective ones are kept
  apart as the code has them. The program scans the notifications of a subscription with it.
\<close>

section \<open>ParseInt and ParseUint with base 10\<close>

definition parse_uint10 :: "nat \<Rightarrow> string \<Rightarrow> nat \<times> go_error option" where
  "parse_uint10 bits s = (if s = [] then (0, Some ErrSyntax) else digits_in 10 (2 ^ bits - 1) 0 s)"

definition parse_int10 :: "nat \<Rightarrow> string \<Rightarrow> int \<times> go_error option" where
  "parse_int10 bits s =
     (case s of [] \<Rightarrow> (0, Some ErrSyntax)
      | c # cs \<Rightarrow>
         (let neg = (c = CHR ''-'');
              (un, err) = parse_uint10 bits (if c = CHR ''+'' \<or> c = CHR ''-'' then cs else s)
          in if err \<noteq> None \<and> err \<noteq> Some ErrNumRange then (0, err)
             else if \<not> neg \<and> 2 ^ (bits - 1) \<le> int un then (2 ^ (bits - 1) - 1, Some ErrNumRange)
             else if neg \<and> 2 ^ (bits - 1) < int un then (- (2 ^ (bits - 1)), Some ErrNumRange)
             else (if neg then - int un else int un, None)))"

section \<open>Destinations\<close>

text \<open>
  A pointer to a variable of one of the types below, no destination, or a value \<open>Scan\<close> rejects.
  \<open>DInt 0\<close> is \<open>int\<close>, the other widths are the sized types. A slice is its length, its elements up
  to its capacity and the zero value of its elements.
\<close>

datatype dest =
    DString string
  | DBytes bytes
  | DInt nat int
  | DUint nat nat
  | DFloat nat float64
  | DBool bool
  | DInterface reply
  | DValues "reply list"
  | DSlice nat "dest list" dest
  | DNone
  | DOther

definition width :: "nat \<Rightarrow> nat" where "width bits = (if bits = 0 then 64 else bits)"

text \<open>\<open>SetInt\<close> and \<open>SetUint\<close> keep the low bits.\<close>

definition set_int :: "nat \<Rightarrow> int \<Rightarrow> int" where
  "set_int bits x = (x + 2 ^ (width bits - 1)) mod 2 ^ width bits - 2 ^ (width bits - 1)"

definition set_uint :: "nat \<Rightarrow> nat \<Rightarrow> nat" where
  "set_uint bits x = x mod 2 ^ width bits"

definition cannotConvert :: "dest \<Rightarrow> dest \<times> go_error option" where
  "cannotConvert d = (d, Some (ErrReplyType ''Scan''))"

text \<open>\<open>ParseFloat\<close> is an argument.\<close>

definition convertAssignBytes ::
  "(nat \<Rightarrow> string \<Rightarrow> float64 \<times> go_error option) \<Rightarrow> dest \<Rightarrow> bytes \<Rightarrow> dest \<times> go_error option" where
  "convertAssignBytes pf d s =
     (case d of
        DFloat bits _ \<Rightarrow> (let (x, err) = pf bits s in (DFloat bits x, err))
      | DInt bits _ \<Rightarrow> (let (x, err) = parse_int10 (width bits) s in (DInt bits (set_int bits x), err))
      | DUint bits _ \<Rightarrow> (let (x, err) = parse_uint10 (width bits) s in (DUint bits (set_uint bits x), err))
      | DBool _ \<Rightarrow> (let (x, err) = parse_bool s in (DBool x, err))
      | DString _ \<Rightarrow> (DString s, None)
      | DBytes _ \<Rightarrow> (DBytes s, None)
      | _ \<Rightarrow> cannotConvert d)"

definition convertAssignInt :: "dest \<Rightarrow> int \<Rightarrow> dest \<times> go_error option" where
  "convertAssignInt d s =
     (case d of
        DInt bits _ \<Rightarrow>
          (if set_int bits s \<noteq> s then (DInt bits 0, Some ErrNumRange) else (DInt bits (set_int bits s), None))
      | DUint bits v \<Rightarrow>
          (if s < 0 then (DUint bits v, Some ErrNumRange)
           else if set_uint bits (nat s) \<noteq> nat s then (DUint bits 0, Some ErrNumRange)
           else (DUint bits (set_uint bits (nat s)), None))
      | DBool _ \<Rightarrow> (DBool (s \<noteq> 0), None)
      | _ \<Rightarrow> cannotConvert d)"

definition convertAssignValue ::
  "(nat \<Rightarrow> string \<Rightarrow> float64 \<times> go_error option) \<Rightarrow> dest \<Rightarrow> reply \<Rightarrow> dest \<times> go_error option" where
  "convertAssignValue pf d s =
     (case s of RBulk b \<Rightarrow> convertAssignBytes pf d b | RInt n \<Rightarrow> convertAssignInt d n | _ \<Rightarrow> cannotConvert d)"

text \<open>The elements in their order, until one is rejected.\<close>

fun assign_elems ::
  "(nat \<Rightarrow> string \<Rightarrow> float64 \<times> go_error option) \<Rightarrow> dest list \<Rightarrow> reply list \<Rightarrow> dest list \<times> go_error option" where
  "assign_elems pf (d # ds) (s # ss) =
     (case convertAssignValue pf d s of
        (d', Some e) \<Rightarrow> (d' # ds, Some e)
      | (d', None) \<Rightarrow> (let (ds', err) = assign_elems pf ds ss in (d' # ds', err)))"
| "assign_elems pf ds ss = (ds, None)"

text \<open>
  \<open>ensureLen\<close> makes a new slice when the capacity is too small; elements within the capacity
  keep what they held.
\<close>

definition ensureLen :: "'a list \<Rightarrow> 'a \<Rightarrow> nat \<Rightarrow> 'a list" where
  "ensureLen elems zero n = (if length elems < n then replicate n zero else elems)"

text \<open>A \<open>[]byte\<close> is a slice of \<open>uint8\<close>; its capacity is taken to be its length.\<close>

definition byte_dest :: "char \<Rightarrow> dest" where "byte_dest c = DUint 8 (of_char c)"

fun dest_byte :: "dest \<Rightarrow> char" where
  "dest_byte (DUint bits v) = char_of v"
| "dest_byte _ = CHR 0x00"

definition convertAssignValues ::
  "(nat \<Rightarrow> string \<Rightarrow> float64 \<times> go_error option) \<Rightarrow> dest \<Rightarrow> reply list \<Rightarrow> dest \<times> go_error option" where
  "convertAssignValues pf d s =
     (case d of
        DSlice len elems zero \<Rightarrow>
          (let (elems', err) = assign_elems pf (ensureLen elems zero (length s)) s
           in (DSlice (length s) elems' zero, err))
      | DBytes b \<Rightarrow>
          (let (elems', err) = assign_elems pf (ensureLen (map byte_dest b) (DUint 8 0) (length s)) s
           in (DBytes (map dest_byte (take (length s) elems')), err))
      | _ \<Rightarrow> cannotConvert d)"

text \<open>
  \<open>convertAssign\<close>, with its cases on the type of the value first. A simple string is accepted by
  no destination, and for none at all the error message itself panics.
\<close>

definition convertAssign ::
  "(nat \<Rightarrow> string \<Rightarrow> float64 \<times> go_error option) \<Rightarrow> dest \<Rightarrow> reply \<Rightarrow> (dest \<times> go_error option) go" where
  "convertAssign pf d s =
     (case s of
        RNil \<Rightarrow> Return (d, None)
      | RBulk b \<Rightarrow> Return
          (case d of
             DString _ \<Rightarrow> (DString b, None)
           | DInt bits v \<Rightarrow>
               (if bits = 0 then let (x, err) = atoi b in (DInt 0 x, err) else convertAssignBytes pf d b)
           | DBool _ \<Rightarrow> (let (x, err) = parse_bool b in (DBool x, err))
           | DBytes _ \<Rightarrow> (DBytes b, None)
           | DInterface _ \<Rightarrow> (DInterface s, None)
           | DNone \<Rightarrow> (d, None)
           | DOther \<Rightarrow> cannotConvert d
           | _ \<Rightarrow> convertAssignBytes pf d b)
      | RInt n \<Rightarrow> Return
          (case d of
             DInt bits v \<Rightarrow>
               (if bits = 0 then (if i64 n \<noteq> n then (DInt 0 0, Some ErrNumRange) else (DInt 0 (i64 n), None))
                else convertAssignInt d n)
           | DBool _ \<Rightarrow> (DBool (n \<noteq> 0), None)
           | DInterface _ \<Rightarrow> (DInterface s, None)
           | DNone \<Rightarrow> (d, None)
           | DOther \<Rightarrow> cannotConvert d
           | _ \<Rightarrow> convertAssignInt d n)
      | RArray vs \<Rightarrow> Return
          (case d of
             DValues _ \<Rightarrow> (DValues vs, None)
           | DInterface _ \<Rightarrow> (DInterface s, None)
           | DNone \<Rightarrow> (d, None)
           | DOther \<Rightarrow> cannotConvert d
           | _ \<Rightarrow> convertAssignValues pf d vs)
      | RError m \<Rightarrow> Return (d, Some (RedisErr m))
      | RStatus _ \<Rightarrow> (if d = DNone then Panic ''nil pointer dereference'' else Return (cannotConvert d)))"

fun scan_loop ::
  "(nat \<Rightarrow> string \<Rightarrow> float64 \<times> go_error option) \<Rightarrow> dest list \<Rightarrow> reply list \<Rightarrow> (dest list \<times> go_error option) go" where
  "scan_loop pf (d # ds) (s # ss) =
     go_bind (convertAssign pf d s) (\<lambda>(d', err).
       if err \<noteq> None then Return (d' # ds, err)
       else go_bind (scan_loop pf ds ss) (\<lambda>(ds', err'). Return (d' # ds', err')))"
| "scan_loop pf ds ss = Return (ds, None)"

definition redis_Scan ::
  "(nat \<Rightarrow> string \<Rightarrow> float64 \<times> go_error option) \<Rightarrow> reply list \<Rightarrow> dest list
     \<Rightarrow> (reply list \<times> dest list \<times> go_error option) go" where
  "redis_Scan pf src dests =
     (if length src < length dests then Return ([], dests, Some (ErrOther ''redigo: Scan array short''))
      else go_bind (scan_loop pf dests src) (\<lambda>(dests', err). Return (drop (length dests) src, dests', err)))"

section \<open>Lemmas\<close>

lemma set_int_id: "- (2 ^ (width bits - 1)) \<le> x \<Longrightarrow> x < 2 ^ (width bits - 1) \<Longrightarrow> set_int bits x = x"
proof -
  assume x: "- (2 ^ (width bits - 1)) \<le> x" "x < 2 ^ (width bits - 1)"
  have "(2 :: int) ^ width bits = 2 * 2 ^ (width bits - 1)"
    by (simp add: width_def flip: power_Suc)
  with x show ?thesis by (simp add: set_int_def)
qed

text \<open>
  An integer reply is stored in an integer variable of any width exactly when it fits, and the
  variable is 0 otherwise.
\<close>

lemma convertAssignInt_exact:
  "convertAssignInt (DInt bits v) s =
     (if - (2 ^ (width bits - 1)) \<le> s \<and> s < 2 ^ (width bits - 1) then (DInt bits s, None)
      else (DInt bits 0, Some ErrNumRange))"
proof -
  have "(2 :: int) ^ width bits = 2 * 2 ^ (width bits - 1)"
    by (simp add: width_def flip: power_Suc)
  moreover have "0 \<le> (s + 2 ^ (width bits - 1)) mod 2 ^ width bits"
    "(s + 2 ^ (width bits - 1)) mod 2 ^ width bits < 2 ^ width bits" by simp_all
  ultimately have "set_int bits s = s \<longrightarrow> - (2 ^ (width bits - 1)) \<le> s \<and> s < 2 ^ (width bits - 1)"
    unfolding set_int_def by linarith
  with set_int_id [of bits s] show ?thesis by (auto simp: convertAssignInt_def)
qed

text \<open>The destinations of a notification.\<close>

lemma scan_strings:
  "redis_Scan pf [RBulk a] [DString x] = Return ([], [DString a], None)"
  "redis_Scan pf (RBulk a # rs) [DString x] = Return (rs, [DString a], None)"
  "redis_Scan pf [RBulk a, RBulk b] [DString x, DBytes y] = Return ([], [DString a, DBytes b], None)"
  "redis_Scan pf [RBulk a, RBulk b, RBulk c] [DString x, DString y, DBytes z]
   = Return ([], [DString a, DString b, DBytes c], None)"
  by (simp_all add: redis_Scan_def convertAssign_def)

lemma scan_count:
  "is_i64 n \<Longrightarrow> redis_Scan pf [RBulk a, RInt n] [DString x, DInt 0 m] = Return ([], [DString a, DInt 0 n], None)"
  by (simp add: redis_Scan_def convertAssign_def i64_id)

end
