(* ===== verification/Pool.thy ===== *)
theory Pool
  imports Redigo Scan Http "HOL-Library.Word"
begin

text \<open>
  The connection pool of the vendored Redis client (\<open>pool.go\<close>, \<open>commandinfo.go\<close>), its
  subscriptions (\<open>pubsub.go\<close>), its scripts (\<open>script.go\<close>) and the pool of the broker
  (\<open>broker/redis.go\<close>). A pool keeps the connections its clients have closed; connections are
  handles of a world \<open>'w\<close>, and the calls on them a record, which the last section implements by
  the connections of \<open>Redigo\<close>.
\<close>

unbundle bit_operations_syntax

section \<open>Calls on connections\<close>

record 'w rnet =
  rn_dial :: "'w \<Rightarrow> 'w \<times> (go_error + nat)"
  rn_do :: "'w \<Rightarrow> nat \<Rightarrow> string \<Rightarrow> arg list \<Rightarrow> 'w \<times> reply \<times> go_error option"
  rn_send :: "'w \<Rightarrow> nat \<Rightarrow> string \<Rightarrow> arg list \<Rightarrow> 'w \<times> go_error option"
  rn_flush :: "'w \<Rightarrow> nat \<Rightarrow> 'w \<times> go_error option"
  rn_receive :: "'w \<Rightarrow> nat \<Rightarrow> 'w \<times> reply \<times> go_error option"
  rn_err :: "'w \<Rightarrow> nat \<Rightarrow> go_error option"
  rn_close :: "'w \<Rightarrow> nat \<Rightarrow> 'w \<times> go_error option"

section \<open>commandinfo.go\<close>

definition WatchState :: int where "WatchState = 1"
definition MultiState :: int where "MultiState = 2"
definition SubscribeState :: int where "SubscribeState = 4"
definition MonitorState :: int where "MonitorState = 8"

record commandInfo =
  ci_Set :: int
  ci_Clear :: int

definition commandInfos :: "(string \<times> commandInfo) list" where
  "commandInfos =
     [(''WATCH'', \<lparr>ci_Set = WatchState, ci_Clear = 0\<rparr>),
      (''UNWATCH'', \<lparr>ci_Set = 0, ci_Clear = WatchState\<rparr>),
      (''MULTI'', \<lparr>ci_Set = MultiState, ci_Clear = 0\<rparr>),
      (''EXEC'', \<lparr>ci_Set = 0, ci_Clear = WatchState OR MultiState\<rparr>),
      (''DISCARD'', \<lparr>ci_Set = 0, ci_Clear = WatchState OR MultiState\<rparr>),
      (''PSUBSCRIBE'', \<lparr>ci_Set = SubscribeState, ci_Clear = 0\<rparr>),
      (''SUBSCRIBE'', \<lparr>ci_Set = SubscribeState, ci_Clear = 0\<rparr>),
      (''MONITOR'', \<lparr>ci_Set = MonitorState, ci_Clear = 0\<rparr>)]"

definition lookupCommandInfo :: "string \<Rightarrow> commandInfo" where
  "lookupCommandInfo commandName =
     (case map_of commandInfos (map to_upper commandName) of
        None \<Rightarrow> \<lparr>ci_Set = 0, ci_Clear = 0\<rparr> | Some ci \<Rightarrow> ci)"

section \<open>The pool\<close>

text \<open>
  \<open>pl_idle\<close> has the most recently returned connection first, with the time it was returned;
  \<open>pl_signals\<close> counts the calls of \<open>cond.Signal\<close> and \<open>Broadcast\<close>. A section of the code under the
  pool's lock is one function.
\<close>

record pool =
  pl_MaxIdle :: int
  pl_MaxActive :: int
  pl_IdleTimeout :: int
  pl_Wait :: bool
  pl_closed :: bool
  pl_active :: int
  pl_idle :: "(nat \<times> int) list"
  pl_signals :: nat

definition newPool_of :: "int \<Rightarrow> pool" where
  "newPool_of maxIdle = \<lparr>pl_MaxIdle = maxIdle, pl_MaxActive = 0, pl_IdleTimeout = 0, pl_Wait = False,
     pl_closed = False, pl_active = 0, pl_idle = [], pl_signals = 0\<rparr>"

definition pool_release :: "pool \<Rightarrow> pool" where
  "pool_release p = p\<lparr>pl_active := pl_active p - 1, pl_signals := Suc (pl_signals p)\<rparr>"

text \<open>One round of pruning at the time \<open>now\<close>: the oldest idle connection, when it has expired.\<close>

definition prune_one :: "int \<Rightarrow> pool \<Rightarrow> (pool \<times> nat) option" where
  "prune_one now p =
     (if pl_idle p = [] then None
      else let (c, t) = last (pl_idle p)
        in if now < t + pl_IdleTimeout p then None
           else Some (pool_release (p\<lparr>pl_idle := butlast (pl_idle p)\<rparr>), c))"

fun prune_loop :: "'w rnet \<Rightarrow> int \<Rightarrow> nat \<Rightarrow> 'w \<Rightarrow> pool \<Rightarrow> 'w \<times> pool" where
  "prune_loop N now 0 w p = (w, p)"
| "prune_loop N now (Suc n) w p =
     (case prune_one now p of None \<Rightarrow> (w, p)
      | Some (p', c) \<Rightarrow> prune_loop N now n (fst (rn_close N w c)) p')"

definition take_idle :: "pool \<Rightarrow> (pool \<times> nat \<times> int) option" where
  "take_idle p = (case pl_idle p of [] \<Rightarrow> None
     | (c, t) # rest \<Rightarrow> Some (p\<lparr>pl_idle := rest\<rparr>, c, t))"

text \<open>\<open>test\<close> is \<open>TestOnBorrow\<close>: the world after it, and whether the connection may be used.\<close>

fun borrow_loop ::
  "'w rnet \<Rightarrow> ('w \<Rightarrow> nat \<Rightarrow> int \<Rightarrow> 'w \<times> bool) option \<Rightarrow> nat \<Rightarrow> 'w \<Rightarrow> pool \<Rightarrow> 'w \<times> pool \<times> nat option" where
  "borrow_loop N test 0 w p = (w, p, None)"
| "borrow_loop N test (Suc n) w p =
     (case take_idle p of None \<Rightarrow> (w, p, None)
      | Some (p', c, t) \<Rightarrow>
          (let (w1, ok) = (case test of None \<Rightarrow> (w, True) | Some f \<Rightarrow> f w c t)
           in if ok then (w1, p', Some c)
              else borrow_loop N test n (fst (rn_close N w1 c)) (pool_release p')))"

definition under_limit :: "pool \<Rightarrow> bool" where
  "under_limit p \<longleftrightarrow> pl_MaxActive p = 0 \<or> pl_active p < pl_MaxActive p"

text \<open>
  \<open>get\<close>. When the pool is exhausted and \<open>Wait\<close> is set it waits for another client's signal.
\<close>

definition pool_get ::
  "'w rnet \<Rightarrow> ('w \<Rightarrow> nat \<Rightarrow> int \<Rightarrow> 'w \<times> bool) option \<Rightarrow> int \<Rightarrow> 'w \<Rightarrow> pool
     \<Rightarrow> 'w \<times> pool \<times> (go_error + nat) go" where
  "pool_get N test now w p =
     (let (w1, p1) = (if 0 < pl_IdleTimeout p then prune_loop N now (length (pl_idle p)) w p else (w, p));
          (w2, p2, found) = borrow_loop N test (length (pl_idle p1)) w1 p1
      in case found of
           Some c \<Rightarrow> (w2, p2, Return (Inr c))
         | None \<Rightarrow>
             if pl_closed p2 then (w2, p2, Return (Inl (ErrOther ''redigo: get on closed pool'')))
             else if under_limit p2 then
               (let p3 = p2\<lparr>pl_active := pl_active p2 + 1\<rparr>
                in case rn_dial N w2 of
                     (w3, Inl e) \<Rightarrow> (w3, pool_release p3, Return (Inl e))
                   | (w3, Inr c) \<Rightarrow> (w3, p3, Return (Inr c)))
             else if \<not> pl_Wait p2 then (w2, p2, Return (Inl (ErrOther ''redigo: connection pool exhausted'')))
             else (w2, p2, Blocked))"

text \<open>The locked section of \<open>put\<close>, with the connection it leaves to be closed.\<close>

definition put_locked :: "int \<Rightarrow> go_error option \<Rightarrow> bool \<Rightarrow> nat \<Rightarrow> pool \<Rightarrow> pool \<times> nat option" where
  "put_locked now err forceClose c p =
     (if \<not> pl_closed p \<and> err = None \<and> \<not> forceClose then
        let idle = (c, now) # pl_idle p
        in if pl_MaxIdle p < int (length idle)
           then (pool_release (p\<lparr>pl_idle := butlast idle\<rparr>), Some (fst (last idle)))
           else (p\<lparr>pl_idle := idle, pl_signals := Suc (pl_signals p)\<rparr>, None)
      else (pool_release p, Some c))"

definition pool_put ::
  "'w rnet \<Rightarrow> int \<Rightarrow> 'w \<Rightarrow> pool \<Rightarrow> nat \<Rightarrow> bool \<Rightarrow> 'w \<times> pool \<times> go_error option" where
  "pool_put N now w p c forceClose =
     (case put_locked now (rn_err N w c) forceClose c p of
        (p', None) \<Rightarrow> (w, p', None)
      | (p', Some k) \<Rightarrow> (let (w', e) = rn_close N w k in (w', p', e)))"

definition pool_ActiveCount :: "pool \<Rightarrow> int" where "pool_ActiveCount p = pl_active p"

text \<open>\<open>Close\<close>: the idle connections are closed one after the other.\<close>

definition close_locked :: "pool \<Rightarrow> pool \<times> nat list" where
  "close_locked p =
     (p\<lparr>pl_idle := [], pl_closed := True, pl_active := pl_active p - int (length (pl_idle p)),
        pl_signals := Suc (pl_signals p)\<rparr>, map fst (pl_idle p))"

definition pool_Close :: "'w rnet \<Rightarrow> 'w \<Rightarrow> pool \<Rightarrow> 'w \<times> pool" where
  "pool_Close N w p =
     (let (p', cs) = close_locked p in (foldl (\<lambda>w c. fst (rn_close N w c)) w cs, p'))"

section \<open>Connections of the pool\<close>

text \<open>
  What \<open>Get\<close> returns: an \<open>errorConnection\<close>, whose calls all return its error, or a connection
  with the state its commands have left it in.
\<close>

record pooled =
  pc_conn :: "go_error + nat"
  pc_state :: int

definition pool_Get ::
  "'w rnet \<Rightarrow> ('w \<Rightarrow> nat \<Rightarrow> int \<Rightarrow> 'w \<times> bool) option \<Rightarrow> int \<Rightarrow> 'w \<Rightarrow> pool \<Rightarrow> 'w \<times> pool \<times> pooled go" where
  "pool_Get N test now w p =
     (case pool_get N test now w p of
        (w', p', Return r) \<Rightarrow> (w', p', Return \<lparr>pc_conn = r, pc_state = 0\<rparr>)
      | (w', p', Panic m) \<Rightarrow> (w', p', Panic m)
      | (w', p', Blocked) \<Rightarrow> (w', p', Blocked))"

text \<open>\<open>errorConnection\<close>.\<close>

definition ec_Do :: "go_error \<Rightarrow> string \<Rightarrow> arg list \<Rightarrow> reply \<times> go_error option" where
  [simp]: "ec_Do e commandName args = (RNil, Some e)"

definition ec_Send :: "go_error \<Rightarrow> string \<Rightarrow> arg list \<Rightarrow> go_error option" where
  [simp]: "ec_Send e commandName args = Some e"

definition ec_Err :: "go_error \<Rightarrow> go_error option" where
  [simp]: "ec_Err e = Some e"

definition ec_Close :: "go_error \<Rightarrow> go_error option" where
  [simp]: "ec_Close e = Some e"

definition ec_Flush :: "go_error \<Rightarrow> go_error option" where
  [simp]: "ec_Flush e = Some e"

definition ec_Receive :: "go_error \<Rightarrow> reply \<times> go_error option" where
  [simp]: "ec_Receive e = (RNil, Some e)"

definition track :: "string \<Rightarrow> pooled \<Rightarrow> pooled" where
  "track commandName pc =
     (let ci = lookupCommandInfo commandName
      in pc\<lparr>pc_state := (pc_state pc OR ci_Set ci) AND NOT (ci_Clear ci)\<rparr>)"

definition pc_Do ::
  "'w rnet \<Rightarrow> 'w \<Rightarrow> pooled \<Rightarrow> string \<Rightarrow> arg list \<Rightarrow> 'w \<times> pooled \<times> reply \<times> go_error option" where
  "pc_Do N w pc commandName args =
     (let pc' = track commandName pc
      in case pc_conn pc' of Inl e \<Rightarrow> (w, pc', ec_Do e commandName args)
         | Inr c \<Rightarrow> (let (w', r, err) = rn_do N w c commandName args in (w', pc', r, err)))"

definition pc_Send ::
  "'w rnet \<Rightarrow> 'w \<Rightarrow> pooled \<Rightarrow> string \<Rightarrow> arg list \<Rightarrow> 'w \<times> pooled \<times> go_error option" where
  "pc_Send N w pc commandName args =
     (let pc' = track commandName pc
      in case pc_conn pc' of Inl e \<Rightarrow> (w, pc', ec_Send e commandName args)
         | Inr c \<Rightarrow> (let (w', err) = rn_send N w c commandName args in (w', pc', err)))"

definition pc_Flush :: "'w rnet \<Rightarrow> 'w \<Rightarrow> pooled \<Rightarrow> 'w \<times> go_error option" where
  "pc_Flush N w pc = (case pc_conn pc of Inl e \<Rightarrow> (w, ec_Flush e) | Inr c \<Rightarrow> rn_flush N w c)"

definition pc_Receive :: "'w rnet \<Rightarrow> 'w \<Rightarrow> pooled \<Rightarrow> 'w \<times> reply \<times> go_error option" where
  "pc_Receive N w pc = (case pc_conn pc of Inl e \<Rightarrow> (w, ec_Receive e) | Inr c \<Rightarrow> rn_receive N w c)"

definition pc_Err :: "'w rnet \<Rightarrow> 'w \<Rightarrow> pooled \<Rightarrow> go_error option" where
  "pc_Err N w pc = (case pc_conn pc of Inl e \<Rightarrow> ec_Err e | Inr c \<Rightarrow> rn_err N w c)"

text \<open>
  \<open>initSentinel\<close>: 64 random bytes, or where there are none the hash of a text and the clock; \<open>sha1\<close> is
  \<open>crypto/sha1\<close>.
\<close>

definition initSentinel :: "(nat \<Rightarrow> go_error + bytes) \<Rightarrow> (bytes \<Rightarrow> bytes) \<Rightarrow> int \<Rightarrow> bytes" where
  "initSentinel rand_Read sha1 now =
     (case rand_Read 64 of Inr p \<Rightarrow> p
      | Inl _ \<Rightarrow> sha1 (''Oops, rand failed. Use time instead.'' @ itoa now))"

text \<open>
  The messages of a subscription up to the echo of the sentinel: the world after them and whether
  it came. A connection that neither fails nor echoes keeps it waiting for ever.
\<close>

partial_function (option) drain ::
  "'w rnet \<Rightarrow> bytes \<Rightarrow> nat \<Rightarrow> 'w \<Rightarrow> ('w \<times> bool) option" where
  "drain N sentinel c w =
     (case rn_receive N w c of
        (w', r, Some e) \<Rightarrow> Some (w', False)
      | (w', r, None) \<Rightarrow> (if r = RBulk sentinel then Some (w', True) else drain N sentinel c w'))"

text \<open>The parts of \<open>Close\<close>: an open transaction or watch, then the subscriptions.\<close>

definition close_transaction :: "'w rnet \<Rightarrow> nat \<Rightarrow> 'w \<Rightarrow> int \<Rightarrow> 'w \<times> int" where
  "close_transaction N c w st =
     (if st AND MultiState \<noteq> 0
      then (fst (rn_send N w c ''DISCARD'' []), st AND NOT (MultiState OR WatchState))
      else if st AND WatchState \<noteq> 0
      then (fst (rn_send N w c ''UNWATCH'' []), st AND NOT WatchState)
      else (w, st))"

definition close_subscriptions :: "'w rnet \<Rightarrow> bytes \<Rightarrow> nat \<Rightarrow> 'w \<Rightarrow> int \<Rightarrow> ('w \<times> int) option" where
  "close_subscriptions N sentinel c w st =
     (if st AND SubscribeState \<noteq> 0 then
        let w2 = fst (rn_send N w c ''UNSUBSCRIBE'' []);
            w3 = fst (rn_send N w2 c ''PUNSUBSCRIBE'' []);
            w4 = fst (rn_send N w3 c ''ECHO'' [ABytes sentinel]);
            w5 = fst (rn_flush N w4 c)
        in map_option (\<lambda>(w6, seen). (w6, if seen then st AND NOT SubscribeState else st))
             (drain N sentinel c w5)
      else Some (w, st))"

definition pc_Close ::
  "'w rnet \<Rightarrow> bytes \<Rightarrow> int \<Rightarrow> 'w \<Rightarrow> pool \<Rightarrow> pooled \<Rightarrow> ('w \<times> pool \<times> pooled \<times> go_error option) option" where
  "pc_Close N sentinel now w p pc =
     (case pc_conn pc of
        Inl e \<Rightarrow> Some (w, p, pc, None)
      | Inr c \<Rightarrow>
          (let (w1, st1) = close_transaction N c w (pc_state pc)
           in case close_subscriptions N sentinel c w1 st1 of
                None \<Rightarrow> None
              | Some (w2, st2) \<Rightarrow>
                  (let (w3, _, _) = rn_do N w2 c [] [];
                       (w4, p', _) = pool_put N now w3 p c (st2 \<noteq> 0)
                   in Some (w4, p', \<lparr>pc_conn = Inl (ErrOther ''redigo: connection closed''), pc_state = st2\<rparr>, None))))"

end
