(* ===== verification/PoolInv.thy ===== *)
theory PoolInv
  imports Pool
begin

text \<open>
  The pool's accounts under any interleaving of its clients: the locked sections of the pool are
  the steps of a state machine over the pool, the connections that are in clients' hands and the
  number of dials under way. \<open>pool_get\<close> and \<open>pool_put\<close> are runs of it.
\<close>

section \<open>The steps\<close>

type_synonym pool_state = "pool \<times> nat set \<times> nat"

inductive pool_step :: "pool_state \<Rightarrow> pool_state \<Rightarrow> bool" where
  prune: "prune_one now p = Some (p', c) \<Longrightarrow> pool_step (p, out, d) (p', out, d)"
| take: "take_idle p = Some (p', c, t) \<Longrightarrow> pool_step (p, out, d) (p', insert c out, d)"
| discard: "c \<in> out \<Longrightarrow> pool_step (p, out, d) (pool_release p, out - {c}, d)"
| dial: "\<not> pl_closed p \<Longrightarrow> under_limit p \<Longrightarrow>
    pool_step (p, out, d) (p\<lparr>pl_active := pl_active p + 1\<rparr>, out, Suc d)"
| dialed: "c \<notin> out \<Longrightarrow> c \<notin> fst ` set (pl_idle p) \<Longrightarrow> pool_step (p, out, Suc d) (p, insert c out, d)"
| undialed: "pool_step (p, out, Suc d) (pool_release p, out, d)"
| put: "c \<in> out \<Longrightarrow> put_locked now err forceClose c p = (p', k) \<Longrightarrow>
    pool_step (p, out, d) (p', out - {c}, d)"
| close: "close_locked p = (p', cs) \<Longrightarrow> pool_step (p, out, d) (p', out, d)"

inductive_cases pool_stepE: "pool_step s s'"

section \<open>The invariant\<close>

fun pool_inv :: "pool_state \<Rightarrow> bool" where
  "pool_inv (p, out, d) \<longleftrightarrow> finite out \<and> distinct (map fst (pl_idle p))
     \<and> fst ` set (pl_idle p) \<inter> out = {}
     \<and> pl_active p = int (length (pl_idle p)) + int (card out) + int d
     \<and> int (length (pl_idle p)) \<le> max 0 (pl_MaxIdle p)
     \<and> (pl_MaxActive p \<noteq> 0 \<longrightarrow> pl_active p \<le> max 0 (pl_MaxActive p))
     \<and> (pl_closed p \<longrightarrow> pl_idle p = [])"

lemma last_split: "xs \<noteq> [] \<Longrightarrow> \<exists>ys y. xs = ys @ [y] \<and> butlast xs = ys \<and> last xs = y"
  by (metis append_butlast_last_id)

lemma prune_inv: "prune_one now p = Some (p', c) \<Longrightarrow> pool_inv (p, out, d) \<Longrightarrow> pool_inv (p', out, d)"
proof -
  assume s: "prune_one now p = Some (p', c)" and inv: "pool_inv (p, out, d)"
  then obtain ys y where ys: "pl_idle p = ys @ [y]"
    and p': "p' = pool_release (p\<lparr>pl_idle := ys\<rparr>)"
    using last_split [of "pl_idle p"] by (auto simp: prune_one_def Let_def split: if_splits prod.splits)
  with inv show ?thesis by (auto simp: pool_release_def)
qed

lemma take_inv:
  "take_idle p = Some (p', c, t) \<Longrightarrow> pool_inv (p, out, d) \<Longrightarrow> c \<notin> out \<and> pool_inv (p', insert c out, d)"
proof -
  assume s: "take_idle p = Some (p', c, t)" and inv: "pool_inv (p, out, d)"
  then obtain rest where r: "pl_idle p = (c, t) # rest" and p': "p' = p\<lparr>pl_idle := rest\<rparr>"
    by (auto simp: take_idle_def split: list.splits)
  from inv r have c: "c \<notin> out" and i: "c \<notin> fst ` set rest" "fst ` set rest \<inter> out = {}" by auto
  then have "fst ` set rest \<inter> insert c out = {}" by blast
  with inv r c i show ?thesis unfolding p' by (cases "pl_MaxActive p = 0") auto
qed

lemma discard_inv: "c \<in> out \<Longrightarrow> pool_inv (p, out, d) \<Longrightarrow> pool_inv (pool_release p, out - {c}, d)"
proof -
  assume c: "c \<in> out" and inv: "pool_inv (p, out, d)"
  then have "card out = Suc (card (out - {c}))" by (intro card.remove) simp_all
  with inv show ?thesis by (auto simp: pool_release_def)
qed

lemma put_inv:
  assumes "put_locked now err forceClose c p = (p', k)" and "c \<in> out" and "pool_inv (p, out, d)"
  shows "pool_inv (p', out - {c}, d)"
proof -
  have card: "card out = Suc (card (out - {c}))" using assms by (intro card.remove) simp_all
  have new: "c \<notin> fst ` set (pl_idle p)" using assms by auto
  let ?idle = "(c, now) # pl_idle p"
  show ?thesis
  proof (cases "\<not> pl_closed p \<and> err = None \<and> \<not> forceClose")
    case False
    then have "p' = pool_release p" using assms(1) by (auto simp: put_locked_def split: if_splits)
    with assms(2,3) show ?thesis by (simp only: discard_inv)
  next
    case True
    show ?thesis
    proof (cases "pl_MaxIdle p < int (length ?idle)")
      case False
      with True assms(1) have "p' = p\<lparr>pl_idle := ?idle, pl_signals := Suc (pl_signals p)\<rparr>"
        by (simp add: put_locked_def Let_def)
      with True False assms(3) card new show ?thesis by auto
    next
      case full: True
      obtain ys y where ys: "?idle = ys @ [y]" "butlast ?idle = ys" using last_split [of ?idle] by blast
      with True full assms(1) have p': "p' = pool_release (p\<lparr>pl_idle := ys\<rparr>)"
        by (simp add: put_locked_def Let_def)
      have d: "distinct (map fst (ys @ [y]))" and s: "fst ` set (ys @ [y]) \<inter> (out - {c}) = {}"
        unfolding ys(1) [symmetric] using assms(3) new by auto
      have "length ys = length (pl_idle p)" using arg_cong [OF ys(1), of length] by simp
      with d s assms(3) card True show ?thesis unfolding p' by (auto simp: pool_release_def)
    qed
  qed
qed

lemma pool_step_inv: "pool_step s s' \<Longrightarrow> pool_inv s \<Longrightarrow> pool_inv s'"
proof (induction rule: pool_step.induct)
  case (dial p out d)
  then show ?case by (auto simp: under_limit_def)
next
  case (dialed c out p d)
  then show ?case by (cases "pl_MaxActive p = 0") auto
next
  case (undialed p out d)
  then show ?case by (auto simp: pool_release_def)
next
  case (close p p' cs out d)
  then show ?case by (auto simp: close_locked_def)
qed (auto simp del: pool_inv.simps dest: prune_inv take_inv discard_inv put_inv)

lemma pool_steps_inv: "pool_step\<^sup>*\<^sup>* s s' \<Longrightarrow> pool_inv s \<Longrightarrow> pool_inv s'"
  by (induction rule: rtranclp_induct) (auto simp del: pool_inv.simps dest: pool_step_inv)

section \<open>get and put are runs\<close>

lemma prune_loop_steps: "prune_loop N now n w p = (w', p') \<Longrightarrow> pool_step\<^sup>*\<^sup>* (p, out, d) (p', out, d)"
proof (induction N now n w p rule: prune_loop.induct)
  case (2 N now n w p)
  show ?case
  proof (cases "prune_one now p")
    case None
    with "2.prems" show ?thesis by simp
  next
    case (Some x)
    obtain q c where x: "x = (q, c)" by (cases x)
    with Some "2.IH" [OF Some x [symmetric]] "2.prems" have "pool_step\<^sup>*\<^sup>* (q, out, d) (p', out, d)" by simp
    with pool_step.prune [of now p q c out d] Some x show ?thesis
      by (meson converse_rtranclp_into_rtranclp)
  qed
qed simp

definition with_found :: "nat option \<Rightarrow> nat set \<Rightarrow> nat set" where
  "with_found found out = (case found of None \<Rightarrow> out | Some c \<Rightarrow> insert c out)"

lemma borrow_loop_steps:
  "borrow_loop N test n w p = (w', p', found) \<Longrightarrow> pool_inv (p, out, d) \<Longrightarrow>
   pool_step\<^sup>*\<^sup>* (p, out, d) (p', with_found found out, d) \<and> (\<forall>c. found = Some c \<longrightarrow> c \<notin> out)"
proof (induction N test n w p rule: borrow_loop.induct)
  case (2 N test n w p)
  show ?case
  proof (cases "take_idle p")
    case None
    with "2.prems" show ?thesis by (simp add: with_found_def)
  next
    case (Some x)
    obtain q c t where x: "x = (q, c, t)" by (cases x)
    with Some have t: "take_idle p = Some (q, c, t)" by simp
    note step = pool_step.take [OF t, of out d]
    from take_inv [OF t "2.prems"(2)] have new: "c \<notin> out" and inv: "pool_inv (q, insert c out, d)" by blast+
    obtain w1 ok where ok: "(case test of None \<Rightarrow> (w, True) | Some f \<Rightarrow> f w c t) = (w1, ok)"
      by (cases "case test of None \<Rightarrow> (w, True) | Some f \<Rightarrow> f w c t")
    show ?thesis
    proof (cases ok)
      case True
      with "2.prems"(1) t ok new step show ?thesis by (auto simp: with_found_def)
    next
      case False
      have again: "insert c out - {c} = out" using new by simp
      with pool_step.discard [of c "insert c out" q d] have step2: "pool_step (q, insert c out, d) (pool_release q, out, d)"
        by simp
      have "pool_inv (pool_release q, insert c out - {c}, d)"
        by (rule discard_inv [OF insertI1 inv])
      then have inv2: "pool_inv (pool_release q, out, d)" by (simp only: again)
      have run: "borrow_loop N test n (fst (rn_close N w1 c)) (pool_release q) = (w', p', found)"
        using "2.prems"(1) t ok False by simp
      from "2.IH" [OF t refl refl refl ok [symmetric] False run inv2] step step2 show ?thesis
        by (meson converse_rtranclp_into_rtranclp)
    qed
  qed
qed (simp add: with_found_def)

text \<open>
  A connection that \<open>get\<close> returns was in nobody's hands; \<open>fresh\<close> is what it relies on of a dial.
\<close>

lemma pool_get_steps:
  assumes "pool_get N test now w p = (w', p', r)" and "pool_inv (p, out, d)"
    and fresh: "\<And>w1 w2 c p1. rn_dial N w1 = (w2, Inr c) \<Longrightarrow> c \<notin> out \<and>
      (pool_step\<^sup>*\<^sup>* (p, out, d) (p1, out, d) \<longrightarrow> c \<notin> fst ` set (pl_idle p1))"
  shows "pool_step\<^sup>*\<^sup>* (p, out, d) (p', case r of Return (Inr c) \<Rightarrow> insert c out | _ \<Rightarrow> out, d)
    \<and> (\<forall>c. r = Return (Inr c) \<longrightarrow> c \<notin> out)"
proof -
  obtain w1 p1 where one: "(if 0 < pl_IdleTimeout p then prune_loop N now (length (pl_idle p)) w p else (w, p)) = (w1, p1)"
    by (cases "if 0 < pl_IdleTimeout p then prune_loop N now (length (pl_idle p)) w p else (w, p)")
  have s1: "pool_step\<^sup>*\<^sup>* (p, out, d) (p1, out, d)"
    using one prune_loop_steps by (auto split: if_splits)
  note inv1 = pool_steps_inv [OF s1 assms(2)]
  obtain w2 p2 found where two: "borrow_loop N test (length (pl_idle p1)) w1 p1 = (w2, p2, found)"
    by (cases "borrow_loop N test (length (pl_idle p1)) w1 p1")
  note b = borrow_loop_steps [OF two inv1]
  note s2 = rtranclp_trans [OF s1 conjunct1 [OF b]] and new = conjunct2 [OF b]
  have g: "pool_get N test now w p = (case found of
        Some c \<Rightarrow> (w2, p2, Return (Inr c))
      | None \<Rightarrow>
          if pl_closed p2 then (w2, p2, Return (Inl (ErrOther ''redigo: get on closed pool'')))
          else if under_limit p2 then
            (let p3 = p2\<lparr>pl_active := pl_active p2 + 1\<rparr>
             in case rn_dial N w2 of
                  (w3, Inl e) \<Rightarrow> (w3, pool_release p3, Return (Inl e))
                | (w3, Inr c) \<Rightarrow> (w3, p3, Return (Inr c)))
          else if \<not> pl_Wait p2 then (w2, p2, Return (Inl (ErrOther ''redigo: connection pool exhausted'')))
          else (w2, p2, Blocked))"
    unfolding pool_get_def one Let_def prod.case two ..
  show ?thesis
  proof (cases found)
    case (Some c)
    with g assms(1) s2 new show ?thesis by (auto simp: with_found_def)
  next
    case None
    then have s3: "pool_step\<^sup>*\<^sup>* (p, out, d) (p2, out, d)" using s2 by (simp add: with_found_def)
    show ?thesis
    proof (cases "\<not> pl_closed p2 \<and> under_limit p2")
      case False
      with g assms(1) None s3 show ?thesis by (auto split: if_splits)
    next
      case True
      let ?p3 = "p2\<lparr>pl_active := pl_active p2 + 1\<rparr>"
      have s4: "pool_step\<^sup>*\<^sup>* (p, out, d) (?p3, out, Suc d)"
        using rtranclp.rtrancl_into_rtrancl [OF s3 pool_step.dial] True by blast
      obtain w3 x where x: "rn_dial N w2 = (w3, x)" by (cases "rn_dial N w2")
      show ?thesis
      proof (cases x)
        case (Inl e)
        with g True None x assms(1) have "p' = pool_release ?p3" "r = Return (Inl e)" by (auto simp: Let_def)
        with rtranclp.rtrancl_into_rtrancl [OF s4 pool_step.undialed] show ?thesis by simp
      next
        case (Inr c)
        with g True None x assms(1) have p': "p' = ?p3" "r = Return (Inr c)" by (auto simp: Let_def)
        from fresh [of w2 w3 c p2] x Inr s3 have "c \<notin> out" "c \<notin> fst ` set (pl_idle ?p3)" by auto
        with rtranclp.rtrancl_into_rtrancl [OF s4 pool_step.dialed] p' show ?thesis by simp
      qed
    qed
  qed
qed

lemma pool_put_steps:
  assumes "pool_put N now w p c forceClose = (w', p', e)" and "c \<in> out"
  shows "pool_step\<^sup>*\<^sup>* (p, out, d) (p', out - {c}, d)"
proof -
  obtain q k where k: "put_locked now (rn_err N w c) forceClose c p = (q, k)"
    by (cases "put_locked now (rn_err N w c) forceClose c p")
  with assms(1) have "q = p'" by (cases k) (auto simp: pool_put_def split: prod.splits)
  with pool_step.put [OF assms(2) k] show ?thesis by blast
qed

section \<open>Properties\<close>

text \<open>
  C33. However the clients of a new pool interleave their gets, puts, health checks, dials and the
  closing of the pool, no connection is in the hands of two clients, or idle while a client has
  it; the count of active connections is exact, so that it never passes \<open>MaxActive\<close> when that is
  set; and no more than \<open>MaxIdle\<close> connections are kept, none in a closed pool.
\<close>

theorem pool_accounts:
  assumes "pool_step\<^sup>*\<^sup>* (p0, {}, 0) (p, out, d)" and "pl_idle p0 = []" and "pl_active p0 = 0"
  shows "distinct (map fst (pl_idle p)) \<and> fst ` set (pl_idle p) \<inter> out = {}
    \<and> pl_active p = int (length (pl_idle p)) + int (card out) + int d
    \<and> int (length (pl_idle p)) \<le> max 0 (pl_MaxIdle p)
    \<and> (0 < pl_MaxActive p \<longrightarrow> pl_active p \<le> pl_MaxActive p)
    \<and> (pl_closed p \<longrightarrow> pl_idle p = [])"
proof -
  have "pool_inv (p0, {}, 0)" using assms(2,3) by simp
  from pool_steps_inv [OF assms(1) this] show ?thesis by auto
qed

text \<open>A pool for one idle connection: two clients dial, and both connections are put back.\<close>

theorem pool_accounts_witness:
  "\<exists>p. pool_step\<^sup>*\<^sup>* (newPool_of 1, {}, 0) (p, {}, 0) \<and> pl_idle p = [(2, 8)] \<and> pl_active p = 1
    \<and> distinct (map fst (pl_idle p))"
proof -
  let ?p = "\<lambda>n idle s. (newPool_of 1)\<lparr>pl_active := n, pl_idle := idle, pl_signals := s\<rparr>"
  have "pool_step (newPool_of 1, {}, 0) (?p 1 [] 0, {}, 1)"
    using pool_step.dial [of "newPool_of 1" "{}" 0] by (simp add: newPool_of_def under_limit_def)
  moreover have "pool_step (?p 1 [] 0, {}, 1) (?p 2 [] 0, {}, 2)"
    using pool_step.dial [of "?p 1 [] 0" "{}" 1] by (simp add: newPool_of_def under_limit_def numeral_2_eq_2)
  moreover have "pool_step (?p 2 [] 0, {}, 2) (?p 2 [] 0, {1}, 1)"
    using pool_step.dialed [of 1 "{}" "?p 2 [] 0" 1] by (simp add: newPool_of_def numeral_2_eq_2)
  moreover have "pool_step (?p 2 [] 0, {1}, 1) (?p 2 [] 0, {2, 1}, 0)"
    using pool_step.dialed [of 2 "{1}" "?p 2 [] 0" 0] by (simp add: newPool_of_def)
  moreover have "pool_step (?p 2 [] 0, {2, 1}, 0) (?p 2 [(1, 7)] 1, {2}, 0)"
    using pool_step.put [of 1 "{2, 1}" 7 None False "?p 2 [] 0" "?p 2 [(1, 7)] 1" None 0]
    by (simp add: newPool_of_def put_locked_def insert_Diff_if)
  moreover have "pool_step (?p 2 [(1, 7)] 1, {2}, 0) (?p 1 [(2, 8)] 2, {}, 0)"
    using pool_step.put [of 2 "{2}" 8 None False "?p 2 [(1, 7)] 1" "?p 1 [(2, 8)] 2" "Some 1" 0]
    by (simp add: newPool_of_def put_locked_def pool_release_def)
  ultimately have run: "pool_step\<^sup>*\<^sup>* (newPool_of 1, {}, 0) (?p 1 [(2, 8)] 2, {}, 0)"
    by (meson converse_rtranclp_into_rtranclp rtranclp.rtrancl_refl)
  from pool_accounts [OF run] have "distinct (map fst (pl_idle (?p 1 [(2, 8)] 2)))"
    by (simp add: newPool_of_def)
  with run show ?thesis by (intro exI [of _ "?p 1 [(2, 8)] 2"]) simp
qed

end
