(* ===== verification/Resp.thy ===== *)
theory Resp
  imports Redigo
begin

text \<open>
  What the Redis connection reads and writes, as the protocol's encoding of replies \<open>resp\<close>: a
  reply is read back whatever the segments it arrives in, a command is written as the encoding
  of the array of its words, and a reply is read with less fuel than there is input.
\<close>

section \<open>The encoding\<close>

definition crlf :: bytes where "crlf = [CHR 0x0D, CHR 0x0A]"

fun resp :: "reply \<Rightarrow> bytes" where
  "resp (RInt n) = CHR '':'' # itoa n @ crlf"
| "resp (RStatus s) = CHR ''+'' # s @ crlf"
| "resp (RError s) = CHR ''-'' # s @ crlf"
| "resp RNil = ''$-1'' @ crlf"
| "resp (RBulk b) = CHR ''$'' # nat_digits (length b) @ crlf @ b @ crlf"
| "resp (RArray rs) = CHR ''*'' # nat_digits (length rs) @ crlf @ concat (map resp rs)"

text \<open>What a server can send so that the client can read it: lines fit the buffer of 4096 bytes.\<close>

fun sendable :: "reply \<Rightarrow> bool" where
  "sendable (RInt n) \<longleftrightarrow> is_i64 n"
| "sendable (RStatus s) \<longleftrightarrow> CHR 0x0A \<notin> set s \<and> length s + 3 \<le> bufio_size"
| "sendable (RError s) \<longleftrightarrow> CHR 0x0A \<notin> set s \<and> length s + 3 \<le> bufio_size"
| "sendable RNil \<longleftrightarrow> True"
| "sendable (RBulk b) \<longleftrightarrow> is_i64 (int (length b))"
| "sendable (RArray rs) \<longleftrightarrow> is_i64 (int (length rs)) \<and> list_all sendable rs"

section \<open>Numbers\<close>

lemma i64_plus: "i64 (i64 x + y) = i64 (x + y)"
proof -
  have "(i64 x + y + 2 ^ 63) mod 2 ^ 64 = ((x + 2 ^ 63) mod 2 ^ 64 + y) mod 2 ^ 64"
    by (simp add: i64_def)
  also have "\<dots> = (x + y + 2 ^ 63) mod 2 ^ 64" unfolding mod_add_left_eq by (simp only: ac_simps)
  finally show ?thesis by (simp add: i64_def)
qed

lemma i64_cong: "i64 x = i64 y \<longleftrightarrow> x mod 2 ^ 64 = y mod 2 ^ 64"
proof -
  have "i64 x = i64 y \<longleftrightarrow> (x + 2 ^ 63) mod 2 ^ 64 = (y + 2 ^ 63) mod 2 ^ 64"
    by (simp add: i64_def)
  also have "\<dots> \<longleftrightarrow> x mod 2 ^ 64 = y mod 2 ^ 64" by (simp add: mod_eq_dvd_iff)
  finally show ?thesis .
qed

lemma i64_mod: "i64 x mod 2 ^ 64 = x mod 2 ^ 64"
  using i64_cong [of "i64 x" x] by simp

lemma i64_step: "i64 (i64 (i64 x * 10) + y) = i64 (x * 10 + y)"
proof -
  have "i64 (i64 (i64 x * 10) + y) = i64 (i64 x * 10 + y)" by (rule i64_plus)
  also have "\<dots> = i64 (x * 10 + y)"
  proof -
    have "i64 x * 10 mod 2 ^ 64 = x * 10 mod 2 ^ 64" using i64_mod mod_mult_cong by blast
    then show ?thesis unfolding i64_cong by (rule mod_add_cong) simp
  qed
  finally show ?thesis .
qed

lemma i64_uminus: "i64 (- i64 x) = i64 (- x)"
  unfolding i64_cong by (rule mod_minus_cong) (rule i64_mod)

lemma digits_i64_append:
  "digits_i64 a s = Some n \<Longrightarrow> digits_i64 a (s @ t) = digits_i64 n t"
  by (induction a s arbitrary: n rule: digits_i64.induct) (auto simp: Let_def split: if_splits)

lemma digits_i64_nat: "digits_i64 0 (nat_digits n) = Some (i64 (int n))"
proof (induction n rule: nat_digits.induct)
  case (1 n)
  have z: "i64 0 = 0" by (simp add: i64_def)
  show ?case
  proof (cases "n < 10")
    case True
    then show ?thesis by (subst nat_digits.simps) (simp add: z)
  next
    case False
    have "i64 (i64 (i64 (int (n div 10)) * 10) + int (n mod 10)) = i64 (int n)"
      unfolding i64_step by (rule arg_cong [where f = i64]) (simp add: zdiv_int zmod_int)
    with digits_i64_append [OF "1" [OF False]] False show ?thesis
      by (subst nat_digits.simps) simp
  qed
qed

lemma nat_digits_ne_minus: "nat_digits n \<noteq> CHR ''-'' # s"
  using nat_digits_digits [of "CHR ''-''" n] by (auto simp: is_digit_def)

lemma parseLen_digits: "is_i64 (int n) \<Longrightarrow> parseLen (nat_digits n) = (int n, None)"
  using nat_digits_ne_minus by (simp add: parseLen_def digits_i64_nat i64_id)

lemma parseInt_itoa: "is_i64 n \<Longrightarrow> parseInt (itoa n) = Inr (RInt n)"
proof (cases "n < 0")
  case True
  assume "is_i64 n"
  then have "i64 (- i64 (int (nat (- n)))) = n" using True unfolding i64_uminus by (simp add: i64_id)
  with True show ?thesis by (simp add: parseInt_def itoa_def digits_i64_nat Let_def)
next
  case False
  assume n: "is_i64 n"
  have "hd (nat_digits (nat n)) \<noteq> CHR ''-''"
    using nat_digits_ne_minus [of "nat n" "tl (nat_digits (nat n))"] by (cases "nat_digits (nat n)") auto
  with n False show ?thesis by (simp add: parseInt_def itoa_def digits_i64_nat Let_def i64_id)
qed

lemma length_nat_digits: "n < 10 ^ k \<Longrightarrow> 0 < k \<Longrightarrow> length (nat_digits n) \<le> k"
proof (induction k arbitrary: n)
  case (Suc k)
  show ?case
  proof (cases "n < 10")
    case True
    then show ?thesis by (subst nat_digits.simps) simp
  next
    case False
    then have "0 < k" "n div 10 < 10 ^ k" using Suc.prems by (cases k; simp)+
    with Suc.IH [of "n div 10"] False show ?thesis by (subst nat_digits.simps) simp
  qed
qed simp

lemma length_digits_i64: "is_i64 (int n) \<Longrightarrow> length (nat_digits n) \<le> 20"
proof (rule length_nat_digits)
  assume "is_i64 (int n)"
  then have "int n < 10 ^ 20" by (simp add: is_i64_def)
  then show "n < 10 ^ 20" by (metis of_nat_less_iff of_nat_numeral of_nat_power)
qed simp

lemma no_newline_digits: "CHR 0x0A \<notin> set (nat_digits n)" "CHR 0x0A \<notin> set (itoa m)"
  using nat_digits_digits [of "CHR 0x0A"] itoa_chars [of "CHR 0x0A"] by (auto simp: is_digit_def)

section \<open>Reading a line\<close>

lemma readLine_line:
  assumes "input c = l @ crlf @ t" and "CHR 0x0A \<notin> set l" and "length l + 2 \<le> bufio_size"
  shows "\<exists>c'. readLine c = (c', Inr l) \<and> consumed c (l @ crlf) c'"
proof -
  have "input c = (l @ [CHR 0x0D]) @ CHR 0x0A # t" "CHR 0x0A \<notin> set (l @ [CHR 0x0D])"
    "length (l @ [CHR 0x0D]) < bufio_size"
    using assms by (simp_all add: crlf_def)
  from readSlice_line [OF this] obtain c' where
    "br_readSlice c = (c', Slice ((l @ [CHR 0x0D]) @ [CHR 0x0A]))" "consumed c ((l @ [CHR 0x0D]) @ [CHR 0x0A]) c'"
    by blast
  then show ?thesis by (simp add: readLine_def crlf_def nth_append)
qed

section \<open>Reading a reply\<close>

text \<open>One step of the reader on each kind of line.\<close>

lemma reply_simple:
  assumes "input c = x # l @ crlf @ t" and "CHR 0x0A \<notin> set (x # l)" and "length l + 3 \<le> bufio_size"
  shows "\<exists>c1. readLine c = (c1, Inr (x # l)) \<and> consumed c (x # l @ crlf) c1 \<and> input c1 = t"
proof -
  have "input c = (x # l) @ crlf @ t" using assms(1) by simp
  from readLine_line [OF this assms(2)] assms(3) obtain c1 where
    c1: "readLine c = (c1, Inr (x # l))" "consumed c ((x # l) @ crlf) c1" by auto
  with consumed_input [OF c1(2)] assms(1) show ?thesis by auto
qed

lemma reply_bulk:
  assumes "input c = b @ crlf @ t"
  shows "\<exists>c'. read_bulk (int (length b)) c = (c', Inr (RBulk b)) \<and> consumed c (b @ crlf) c'"
proof -
  have "length b \<le> length (input c)" using assms by simp
  from read_full_input [OF this] assms obtain c1 where
    c1: "read_full (length b) c = (c1, b, None)" "consumed c b c1" by auto
  from consumed_input [OF c1(2)] assms have "input c1 = [] @ crlf @ t" by simp
  from readLine_line [OF this] obtain c2 where "readLine c1 = (c2, Inr [])" "consumed c1 crlf c2"
    by (auto simp: bufio_size_def)
  with c1 consumed_trans [OF c1(2) this(2)] show ?thesis by (simp add: read_bulk_def)
qed

lemma read_elems_resp:
  assumes "\<And>r c t. r \<in> set rs \<Longrightarrow> input c = resp r @ t \<Longrightarrow> \<exists>c'. f c = (c', Inr r) \<and> consumed c (resp r) c'"
    and "input c = concat (map resp rs) @ t"
  shows "\<exists>c'. read_elems f (length rs) c = (c', Inr rs) \<and> consumed c (concat (map resp rs)) c'"
  using assms
proof (induction rs arbitrary: c)
  case (Cons r rs)
  from Cons.prems(1) [of r c "concat (map resp rs) @ t"] Cons.prems(2) obtain c1 where
    c1: "f c = (c1, Inr r)" "consumed c (resp r) c1" by auto
  from consumed_input [OF c1(2)] Cons.prems(2) have "input c1 = concat (map resp rs) @ t" by simp
  with Cons.IH [OF Cons.prems(1)] obtain c2 where
    "read_elems f (length rs) c1 = (c2, Inr rs)" "consumed c1 (concat (map resp rs)) c2" by fastforce
  with c1 consumed_trans [OF c1(2) this(2)] show ?case by simp
qed simp

lemma resp_digits_line:
  "is_i64 (int n) \<Longrightarrow> x \<noteq> CHR 0x0A \<Longrightarrow> CHR 0x0A \<notin> set (x # nat_digits n) \<and> length (nat_digits n) + 3 \<le> bufio_size"
  using length_digits_i64 [of n] no_newline_digits(1) [of n] by (simp add: bufio_size_def)

lemma length_itoa: "is_i64 n \<Longrightarrow> length (itoa n) + 3 \<le> bufio_size"
proof -
  assume n: "is_i64 n"
  have "nat \<bar>n\<bar> < 10 ^ 20"
  proof -
    have "\<bar>n\<bar> < 10 ^ 20" using n by (simp add: is_i64_def abs_less_iff)
    then show ?thesis by (simp add: nat_less_iff)
  qed
  from length_nat_digits [OF this] show ?thesis by (simp add: itoa_def bufio_size_def abs_if split: if_splits)
qed

lemma concat_member_length: "r \<in> set rs \<Longrightarrow> length (resp r) \<le> length (concat (map resp rs))"
  by (induction rs) auto

lemma reply_fuel_resp:
  "sendable r \<Longrightarrow> input c = resp r @ t \<Longrightarrow> length (resp r) \<le> fuel \<Longrightarrow>
   \<exists>c'. reply_fuel fuel c = (c', Inr r) \<and> consumed c (resp r) c'"
proof (induction r arbitrary: c t fuel)
  case (RInt n)
  then obtain k where k: "fuel = Suc k" by (cases fuel) auto
  from RInt reply_simple [of c "CHR '':''" "itoa n" t] length_itoa no_newline_digits(2) [of n] obtain c1 where
    "readLine c = (c1, Inr (CHR '':'' # itoa n))" "consumed c (CHR '':'' # itoa n @ crlf) c1" by auto
  with k RInt.prems(1) show ?case by (simp add: parseInt_itoa)
next
  case (RStatus s)
  then obtain k where k: "fuel = Suc k" by (cases fuel) auto
  from RStatus reply_simple [of c "CHR ''+''" s t] obtain c1 where
    "readLine c = (c1, Inr (CHR ''+'' # s))" "consumed c (CHR ''+'' # s @ crlf) c1" by auto
  with k show ?case by simp
next
  case (RError s)
  then obtain k where k: "fuel = Suc k" by (cases fuel) auto
  from RError reply_simple [of c "CHR ''-''" s t] obtain c1 where
    "readLine c = (c1, Inr (CHR ''-'' # s))" "consumed c (CHR ''-'' # s @ crlf) c1" by auto
  with k show ?case by simp
next
  case RNil
  then obtain k where k: "fuel = Suc k" by (cases fuel) auto
  from RNil reply_simple [of c "CHR ''$''" "''-1''" t] obtain c1 where
    "readLine c = (c1, Inr ''$-1'')" "consumed c (''$-1'' @ crlf) c1" by (auto simp: bufio_size_def)
  with k show ?case by (simp add: parseLen_def)
next
  case (RBulk b)
  then obtain k where k: "fuel = Suc k" by (cases fuel) auto
  have n: "is_i64 (int (length b))" using RBulk.prems(1) by simp
  from RBulk reply_simple [of c "CHR ''$''" "nat_digits (length b)" "b @ crlf @ t"] resp_digits_line [OF n, of "CHR ''$''"]
  obtain c1 where c1: "readLine c = (c1, Inr (CHR ''$'' # nat_digits (length b)))"
    "consumed c (CHR ''$'' # nat_digits (length b) @ crlf) c1" "input c1 = b @ crlf @ t" by auto
  from reply_bulk [OF c1(3)] obtain c2 where
    "read_bulk (int (length b)) c1 = (c2, Inr (RBulk b))" "consumed c1 (b @ crlf) c2" by blast
  with k c1 parseLen_digits [OF n] consumed_trans [OF c1(2) this(2)] show ?case by simp
next
  case (RArray rs)
  then obtain k where k: "fuel = Suc k" by (cases fuel) auto
  have n: "is_i64 (int (length rs))" using RArray.prems(1) by simp
  from RArray reply_simple [of c "CHR ''*''" "nat_digits (length rs)" "concat (map resp rs) @ t"] resp_digits_line [OF n, of "CHR ''*''"]
  obtain c1 where c1: "readLine c = (c1, Inr (CHR ''*'' # nat_digits (length rs)))"
    "consumed c (CHR ''*'' # nat_digits (length rs) @ crlf) c1" "input c1 = concat (map resp rs) @ t" by auto
  have el: "\<exists>c'. reply_fuel k c = (c', Inr r) \<and> consumed c (resp r) c'"
    if "r \<in> set rs" "input c = resp r @ t" for r c t
  proof (rule RArray.IH [OF that(1) _ that(2)])
    show "sendable r" using RArray.prems(1) that(1) by (simp add: list_all_iff)
    show "length (resp r) \<le> k" using RArray.prems(3) k concat_member_length [OF that(1)] by simp
  qed
  have "\<exists>c2. read_elems (reply_fuel k) (length rs) c1 = (c2, Inr rs)
      \<and> consumed c1 (concat (map resp rs)) c2"
    by (rule read_elems_resp, rule el, assumption+, rule c1(3))
  then obtain c2 where
    "read_elems (reply_fuel k) (length rs) c1 = (c2, Inr rs)" "consumed c1 (concat (map resp rs)) c2" by blast
  with k c1 parseLen_digits [OF n] consumed_trans [OF c1(2) this(2)] show ?case by simp
qed

lemma readReply_resp:
  assumes "sendable r" and "input c = resp r @ t"
  shows "\<exists>c'. readReply c = (c', Inr r) \<and> consumed c (resp r) c'"
  unfolding readReply_def by (rule reply_fuel_resp [OF assms]) (simp add: assms(2))

section \<open>Writing a command\<close>

text \<open>
  On a connection without write errors the bytes handed to the writer are those sent and those in
  its buffer, and nothing else changes.
\<close>

definition writable :: "rconn \<Rightarrow> bool" where
  "writable c \<longleftrightarrow> cn_bwerr c = None \<and> cn_neterr c = None"

definition written :: "rconn \<Rightarrow> bytes" where
  "written c = cn_sent c @ cn_wbuf c"

definition wrote :: "rconn \<Rightarrow> bytes \<Rightarrow> rconn \<Rightarrow> bool" where
  "wrote c p c' \<longleftrightarrow> written c' = written c @ p \<and> c' = c\<lparr>cn_sent := cn_sent c', cn_wbuf := cn_wbuf c'\<rparr>"

lemma wrote_trans: "wrote c p c' \<Longrightarrow> wrote c' q c'' \<Longrightarrow> wrote c (p @ q) c''"
  unfolding wrote_def by (cases c; cases c'; cases c'') simp

lemma wrote_update:
  "s @ b = written c @ p \<Longrightarrow> wrote c p (c\<lparr>cn_sent := s, cn_wbuf := b\<rparr>)"
  by (simp add: wrote_def written_def)

lemma wrote_sent: "s @ cn_wbuf c = written c @ p \<Longrightarrow> wrote c p (c\<lparr>cn_sent := s\<rparr>)"
  by (cases c) (simp add: wrote_def written_def)

lemma wrote_buf: "wrote c p (c\<lparr>cn_wbuf := cn_wbuf c @ p\<rparr>)"
  by (cases c) (simp add: wrote_def written_def)

lemma wrote_writable: "wrote c p c' \<Longrightarrow> writable c' = writable c"
  unfolding wrote_def writable_def by (cases c; cases c') simp

lemma wrote_input: "wrote c p c' \<Longrightarrow> input c' = input c \<and> cn_pending c' = cn_pending c \<and> cn_err c' = cn_err c"
  unfolding wrote_def input_def by (cases c; cases c') simp

lemma flush_writable:
  "writable c \<Longrightarrow> bw_Flush c = (c\<lparr>cn_sent := written c, cn_wbuf := []\<rparr>, None)"
  by (cases c) (auto simp: bw_Flush_def writable_def written_def)

lemma bw_write_writable:
  "writable c \<Longrightarrow> \<exists>c'. bw_write d p c = (c', None) \<and> wrote c p c'"
proof (induction d p c rule: bw_write.induct)
  case (1 d p c)
  then have e: "cn_bwerr c = None" "cn_neterr c = None" by (simp_all add: writable_def)
  consider (fits) "length p \<le> bufio_size - length (cn_wbuf c)"
    | (direct) "\<not> length p \<le> bufio_size - length (cn_wbuf c)" "d \<and> cn_wbuf c = []"
    | (fill) "\<not> length p \<le> bufio_size - length (cn_wbuf c)" "\<not> (d \<and> cn_wbuf c = [])"
    by blast
  then show ?case
  proof cases
    case fits
    with e wrote_buf [of c p] show ?thesis by (simp add: bw_write.simps [of d p c])
  next
    case direct
    then have "bw_write d p c = (c\<lparr>cn_sent := cn_sent c @ p\<rparr>, None)"
      using e by (subst bw_write.simps) simp
    with direct show ?thesis by (auto intro!: wrote_sent simp: written_def)
  next
    case fill
    let ?n = "bufio_size - length (cn_wbuf c)"
    let ?c1 = "c\<lparr>cn_wbuf := cn_wbuf c @ take ?n p\<rparr>"
    let ?c2 = "?c1\<lparr>cn_sent := written ?c1, cn_wbuf := []\<rparr>"
    have w: "writable ?c1" using e by (simp add: writable_def)
    have two: "wrote c (take ?n p) ?c2"
      using wrote_trans [OF wrote_buf [of c "take ?n p"] wrote_update [of "written ?c1" "[]" ?c1 "[]"]] by simp
    have w2: "writable ?c2" using e by (simp add: writable_def)
    have noerr: "\<not> cn_bwerr c \<noteq> None" using e by simp
    from "1.IH" [OF noerr fill refl] w2 obtain c3 where
      c3: "bw_write d (drop ?n p) ?c2 = (c3, None)" "wrote ?c2 (drop ?n p) c3"
      by (auto simp: flush_writable [OF w])
    have "bw_write d p c = (c3, None)"
      using e fill c3(1) flush_writable [OF w]
      by (subst bw_write.simps) (simp only: fst_conv Let_def if_False if_True not_not simp_thms)
    with wrote_trans [OF two c3(2)] show ?thesis by simp
  qed
qed

text \<open>The words of a command.\<close>

fun arg_text :: "(float64 \<Rightarrow> string) \<Rightarrow> arg \<Rightarrow> bytes" where
  "arg_text show (AStr s) = s"
| "arg_text show (ABytes p) = p"
| "arg_text show (AInt n) = itoa n"
| "arg_text show (AInt64 n) = itoa n"
| "arg_text show (AFloat x) = show x"
| "arg_text show (ABool b) = (if b then ''1'' else ''0'')"
| "arg_text show ANil = []"
| "arg_text show (AOther t) = t"

definition command :: "(float64 \<Rightarrow> string) \<Rightarrow> string \<Rightarrow> arg list \<Rightarrow> reply" where
  "command show cmd args = RArray (map RBulk (cmd # map (arg_text show) args))"

lemma len_digits: "len_digits n acc = nat_digits n @ acc"
proof (induction n acc rule: len_digits.induct)
  case (1 n acc)
  then show ?case by (subst len_digits.simps, subst nat_digits.simps) (auto simp: Let_def)
qed

lemma writeLen_writable:
  "writable c \<Longrightarrow> \<exists>c'. writeLen x n c = (c', None) \<and> wrote c (x # nat_digits n @ crlf) c'"
  using bw_write_writable [of c True "x # nat_digits n @ crlf"]
  by (simp add: writeLen_def len_digits crlf_def)

lemma write_bulk:
  assumes "writable c"
  shows "\<exists>c'. writeString s c = (c', None) \<and> wrote c (resp (RBulk s)) c'"
    and "\<exists>c'. writeBytes s c = (c', None) \<and> wrote c (resp (RBulk s)) c'"
proof -
  from writeLen_writable [OF assms] obtain c1 where
    c1: "writeLen CHR ''$'' (length s) c = (c1, None)" "wrote c (CHR ''$'' # nat_digits (length s) @ crlf) c1" by blast
  have "\<exists>c2 c3. bw_write d s c1 = (c2, None) \<and> bw_write False crlf c2 = (c3, None) \<and> wrote c (resp (RBulk s)) c3" for d
  proof -
    from bw_write_writable [of c1 d s] c1 wrote_writable assms obtain c2 where
      c2: "bw_write d s c1 = (c2, None)" "wrote c1 s c2" by blast
    from bw_write_writable [of c2 False crlf] c1 c2 wrote_writable assms obtain c3 where
      c3: "bw_write False crlf c2 = (c3, None)" "wrote c2 crlf c3" by blast
    from wrote_trans [OF c1(2) wrote_trans [OF c2(2) c3(2)]] c2 c3 show ?thesis by auto
  qed
  from this [of False] this [of True] c1
  show "\<exists>c'. writeString s c = (c', None) \<and> wrote c (resp (RBulk s)) c'"
    and "\<exists>c'. writeBytes s c = (c', None) \<and> wrote c (resp (RBulk s)) c'"
    by (auto simp: writeString_def writeBytes_def crlf_def)
qed

lemma writeArg_writable:
  "writable c \<Longrightarrow> \<exists>c'. writeArg show a c = (c', None) \<and> wrote c (resp (RBulk (arg_text show a))) c'"
  using write_bulk [of c] by (cases a) (simp_all add: writeInt64_def writeFloat64_def del: resp.simps)

lemma writeArgs_writable:
  "writable c \<Longrightarrow> \<exists>c'. writeArgs show as (c, None) = (c', None)
     \<and> wrote c (concat (map (resp \<circ> RBulk \<circ> arg_text show) as)) c'"
proof (induction "as" arbitrary: c)
  case Nil
  then show ?case using wrote_buf [of c "[]"] by (cases c) simp
next
  case (Cons a "as")
  from writeArg_writable [OF Cons.prems] obtain c1 where
    c1: "writeArg show a c = (c1, None)" "wrote c (resp (RBulk (arg_text show a))) c1" by blast
  with Cons.IH [of c1] wrote_writable Cons.prems obtain c2 where
    "writeArgs show as (c1, None) = (c2, None)" "wrote c1 (concat (map (resp \<circ> RBulk \<circ> arg_text show) as)) c2"
    by blast
  with c1 wrote_trans [OF c1(2) this(2)] show ?case by (simp del: resp.simps add: o_def)
qed

lemma writeCommand_writable:
  assumes "writable c"
  shows "\<exists>c'. writeCommand show cmd args c = (c', None) \<and> wrote c (resp (command show cmd args)) c'"
proof -
  from writeLen_writable [OF assms] obtain c1 where
    c1: "writeLen CHR ''*'' (1 + length args) c = (c1, None)"
      "wrote c (CHR ''*'' # nat_digits (1 + length args) @ crlf) c1" by blast
  with write_bulk(1) [of c1 cmd] wrote_writable assms obtain c2 where
    c2: "writeString cmd c1 = (c2, None)" "wrote c1 (resp (RBulk cmd)) c2" by blast
  with writeArgs_writable [of c2 "show" args] c1 wrote_writable assms obtain c3 where
    c3: "writeArgs show args (c2, None) = (c3, None)"
      "wrote c2 (concat (map (resp \<circ> RBulk \<circ> arg_text show) args)) c3" by blast
  from wrote_trans [OF c1(2) wrote_trans [OF c2(2) c3(2)]] c1 c2 c3 show ?thesis
    by (simp add: writeCommand_def command_def o_def)
qed

section \<open>The fuel is enough\<close>

text \<open>No read makes the input longer, and a line makes it shorter, whatever the input.\<close>

lemma readSlice_fill:
  assumes "dropWhile (\<lambda>x. x \<noteq> CHR 0x0A) (cn_rbuf c) = []"
  shows "br_readSlice c =
    (if bufio_size \<le> length (cn_rbuf c) then (c\<lparr>cn_rbuf := []\<rparr>, Buffer_full)
     else case net_read (bufio_size - length (cn_rbuf c)) (cn_in c) of
       None \<Rightarrow> (c\<lparr>cn_rbuf := []\<rparr>, Slice_error (cn_end c))
     | Some (s, segs) \<Rightarrow> br_readSlice (c\<lparr>cn_rbuf := cn_rbuf c @ s, cn_in := segs\<rparr>))"
  by (subst br_readSlice.simps) (simp only: assms list.case)

lemma readSlice_shrinks:
  "br_readSlice c = (c', r) \<Longrightarrow> length (input c') \<le> length (input c)
     \<and> (\<forall>p. r = Slice p \<longrightarrow> length (input c') < length (input c))"
proof (induction c rule: br_readSlice.induct)
  case (1 c)
  show ?case
  proof (cases "dropWhile (\<lambda>x. x \<noteq> CHR 0x0A) (cn_rbuf c)")
    case (Cons x rest)
    have "length (dropWhile (\<lambda>x. x \<noteq> CHR 0x0A) (cn_rbuf c)) \<le> length (cn_rbuf c)"
      by (rule length_dropWhile_le)
    with "1.prems" Cons show ?thesis by (subst (asm) br_readSlice.simps) (auto simp: input_def)
  next
    case Nil
    let ?k = "bufio_size - length (cn_rbuf c)"
    show ?thesis
    proof (cases "bufio_size \<le> length (cn_rbuf c) \<or> net_read ?k (cn_in c) = None")
      case True
      have "br_readSlice c = (c\<lparr>cn_rbuf := []\<rparr>,
          if bufio_size \<le> length (cn_rbuf c) then Buffer_full else Slice_error (cn_end c))"
        using True unfolding readSlice_fill [OF Nil] by auto
      with "1.prems" have "c' = c\<lparr>cn_rbuf := []\<rparr>" "\<forall>p. r \<noteq> Slice p" by (auto split: if_splits)
      then show ?thesis by (simp add: input_def)
    next
      case False
      then obtain s segs where n: "net_read ?k (cn_in c) = Some (s, segs)" by auto
      let ?c1 = "c\<lparr>cn_rbuf := cn_rbuf c @ s, cn_in := segs\<rparr>"
      have "input ?c1 = input c" using net_read_some [OF n] by (simp add: input_def)
      moreover have "br_readSlice ?c1 = (c', r)"
        using "1.prems" False n unfolding readSlice_fill [OF Nil] by simp
      ultimately show ?thesis using "1.IH" [OF Nil _ n refl] False by simp
    qed
  qed
qed

lemma readLine_shrinks:
  "readLine c = (c', r) \<Longrightarrow> length (input c') \<le> length (input c)
     \<and> (\<forall>p. r = Inr p \<longrightarrow> length (input c') < length (input c))"
proof -
  assume r: "readLine c = (c', r)"
  obtain c1 l where l: "br_readSlice c = (c1, l)" by (cases "br_readSlice c")
  from readSlice_shrinks [OF l] l r show ?thesis
    by (cases l) (auto simp: readLine_def Let_def split: if_splits)
qed

lemma read_full_shrinks: "read_full n c = (c', r) \<Longrightarrow> length (input c') \<le> length (input c)"
proof (induction n c arbitrary: c' r rule: read_full.induct)
  case (1 n c)
  show ?case
  proof (cases "n = 0 \<or> br_read n c = None")
    case True
    with "1.prems" show ?thesis by (subst (asm) read_full.simps) (auto split: if_splits)
  next
    case False
    then obtain c1 s where b: "br_read n c = Some (c1, s)" by auto
    obtain c2 t where f: "read_full (n - length s) c1 = (c2, t)"
      by (cases "read_full (n - length s) c1")
    from "1.IH" [OF _ b refl f] False consumed_input [OF br_read_some(1) [OF b]]
    have "length (input c2) \<le> length (input c)" by simp
    moreover have "c' = c2"
      using "1.prems" False b f by (subst (asm) read_full.simps) (auto split: prod.splits option.splits)
    ultimately show ?thesis by simp
  qed
qed

lemma read_bulk_shrinks: "read_bulk n c = (c', r) \<Longrightarrow> length (input c') \<le> length (input c)"
  by (fastforce simp: read_bulk_def split: prod.splits option.splits sum.splits if_splits
      dest: read_full_shrinks readLine_shrinks)

definition shrinking :: "(rconn \<Rightarrow> rconn \<times> 'a) \<Rightarrow> bool" where
  "shrinking f \<longleftrightarrow> (\<forall>c. length (input (fst (f c))) \<le> length (input c))"

lemma read_elems_shrinks: "shrinking f \<Longrightarrow> shrinking (read_elems f n)"
proof (induction n)
  case (Suc n)
  show ?case
    unfolding shrinking_def
  proof
    fix c
    obtain c1 r where f: "f c = (c1, r)" by (cases "f c")
    have one: "length (input c1) \<le> length (input c)"
      using Suc.prems f unfolding shrinking_def by (metis fst_conv)
    obtain c2 rs where g: "read_elems f n c1 = (c2, rs)" by (cases "read_elems f n c1")
    have two: "length (input c2) \<le> length (input c1)"
      using Suc.IH [OF Suc.prems] g unfolding shrinking_def by (metis fst_conv)
    from f g one two show "length (input (fst (read_elems f (Suc n) c))) \<le> length (input c)"
      by (cases r; cases rs) simp_all
  qed
qed (simp add: shrinking_def)

lemma reply_fuel_shrinks: "shrinking (reply_fuel k)"
proof (induction k)
  case (Suc k)
  show ?case
    unfolding shrinking_def
  proof
    fix c
    obtain c1 l where l: "readLine c = (c1, l)" by (cases "readLine c")
    have one: "length (input c1) \<le> length (input c)" using readLine_shrinks [OF l] by simp
    have bulk: "length (input (fst (read_bulk n c1))) \<le> length (input c)" for n
      using read_bulk_shrinks [of n c1] one by (cases "read_bulk n c1") fastforce
    have el: "length (input (fst (read_elems (reply_fuel k) n c1))) \<le> length (input c)" for n
      using read_elems_shrinks [OF Suc.IH, of n] one unfolding shrinking_def by (meson order_trans)
    show "length (input (fst (reply_fuel (Suc k) c))) \<le> length (input c)"
      using l one bulk el
      by (auto split: sum.splits list.splits option.splits prod.splits) (metis fst_conv)+
  qed
qed (simp add: shrinking_def)

lemma read_elems_cong:
  assumes "shrinking f" and "\<And>c. length (input c) < k \<Longrightarrow> f c = g c" and "length (input c) < k"
  shows "read_elems f n c = read_elems g n c"
  using assms(3)
proof (induction n arbitrary: c)
  case (Suc n)
  obtain c1 r where f: "f c = (c1, r)" by (cases "f c")
  with assms(1) have "length (input c1) \<le> length (input c)"
    unfolding shrinking_def by (metis fst_conv)
  with Suc f assms(2) [OF Suc.prems] show ?case by (simp split: sum.split)
qed simp

lemma reply_fuel_enough:
  "length (input c) < k \<Longrightarrow> length (input c) < m \<Longrightarrow> reply_fuel k c = reply_fuel m c"
proof (induction k arbitrary: m c)
  case (Suc k)
  then obtain j where m: "m = Suc j" by (cases m) auto
  obtain c1 l where l: "readLine c = (c1, l)" by (cases "readLine c")
  have "read_elems (reply_fuel k) n c1 = read_elems (reply_fuel j) n c1" if "l = Inr p" for n p
  proof (rule read_elems_cong [OF reply_fuel_shrinks])
    show "length (input c1) < min k j"
      using readLine_shrinks [OF l] that Suc.prems m by auto
    show "reply_fuel k d = reply_fuel j d" if "length (input d) < min k j" for d
      using that by (intro Suc.IH) simp_all
  qed
  then show ?case
    unfolding m reply_fuel.simps l prod.case by (cases l) (auto split: list.split prod.split option.split)
qed simp

section \<open>Properties\<close>

lemma reply_elems_enough:
  "length (input c) < k \<Longrightarrow> read_elems (reply_fuel k) n c = read_elems readReply n c"
proof (rule read_elems_cong [OF reply_fuel_shrinks])
  show "reply_fuel k d = readReply d" if "length (input d) < k" for d
    unfolding readReply_def using that by (intro reply_fuel_enough) simp_all
qed

text \<open>
  Reading a reply ends on every input, however deep it nests arrays and however long it claims
  they are: the fuel is never used up, so that \<open>readReply\<close> satisfies the recursion of the code
  as it stands there, its calls for the elements of an array included.
\<close>

theorem readReply_recursion:
  "readReply c =
     (case readLine c of
        (c1, Inl e) \<Rightarrow> (c1, Inl e)
      | (c1, Inr []) \<Rightarrow> (c1, Inl (protocolError ''short response line''))
      | (c1, Inr (x # line)) \<Rightarrow>
          (if x = CHR ''+'' then (c1, Inr (RStatus line))
           else if x = CHR ''-'' then (c1, Inr (RError line))
           else if x = CHR '':'' then (c1, parseInt line)
           else if x = CHR ''$'' then
             (case parseLen line of
                (n, Some e) \<Rightarrow> (c1, Inl e)
              | (n, None) \<Rightarrow> (if n < 0 then (c1, Inr RNil) else read_bulk n c1))
           else if x = CHR ''*'' then
             (case parseLen line of
                (n, Some e) \<Rightarrow> (c1, Inl e)
              | (n, None) \<Rightarrow>
                  (if n < 0 then (c1, Inr RNil)
                   else case read_elems readReply (nat n) c1 of
                     (c2, Inl e) \<Rightarrow> (c2, Inl e)
                   | (c2, Inr rs) \<Rightarrow> (c2, Inr (RArray rs))))
           else (c1, Inl (protocolError ''unexpected response line''))))"
proof -
  obtain c1 l where l: "readLine c = (c1, l)" by (cases "readLine c")
  have "read_elems (reply_fuel (length (input c))) n c1 = read_elems readReply n c1" if "l = Inr p" for n p
    using readLine_shrinks [OF l] that by (intro reply_elems_enough) auto
  then show ?thesis
    unfolding readReply_def [of c] reply_fuel.simps l prod.case
    by (cases l) (auto split: list.split prod.split option.split)
qed

text \<open>
  C31. Whatever the segments a server's bytes arrive in, and whatever follows them, the encodings of
  any replies it can send, nested arrays and binary strings included, are read back as these
  replies, and exactly their bytes are taken from the input.
\<close>

theorem replies_read_back:
  assumes "\<forall>r \<in> set rs. sendable r" and "input c = concat (map resp rs) @ rest"
  shows "\<exists>c'. read_elems readReply (length rs) c = (c', Inr rs) \<and> input c' = rest"
proof -
  have "\<exists>c'. read_elems readReply (length rs) c = (c', Inr rs) \<and> consumed c (concat (map resp rs)) c'"
    by (rule read_elems_resp [OF readReply_resp assms(2)]) (use assms(1) in auto)
  then show ?thesis using consumed_input assms(2) by fastforce
qed

text \<open>The first error among replies.\<close>

fun first_error :: "reply list \<Rightarrow> go_error option" where
  "first_error [] = None"
| "first_error (RError m # rs) = Some (RedisErr m)"
| "first_error (_ # rs) = first_error rs"

lemma do_replies_resp:
  "\<forall>r \<in> set rs. sendable r \<Longrightarrow> input c = concat (map resp rs) @ t \<Longrightarrow> rs \<noteq> [] \<Longrightarrow>
   \<exists>c'. do_replies (length rs) r0 err c = (c', last rs, if err = None then first_error rs else err)
     \<and> consumed c (concat (map resp rs)) c'"
proof (induction rs arbitrary: c r0 err)
  case (Cons r rs)
  from readReply_resp [of r c "concat (map resp rs) @ t"] Cons.prems obtain c1 where
    c1: "readReply c = (c1, Inr r)" "consumed c (resp r) c1" by auto
  from consumed_input [OF c1(2)] Cons.prems(2) have i: "input c1 = concat (map resp rs) @ t" by simp
  let ?err = "case r of RError m \<Rightarrow> if err = None then Some (RedisErr m) else err | _ \<Rightarrow> err"
  have e: "(if ?err = None then first_error rs else ?err) = (if err = None then first_error (r # rs) else err)"
    by (cases r) auto
  show ?case
  proof (cases "rs = []")
    case True
    with c1 e show ?thesis by (auto split: reply.splits)
  next
    case False
    with Cons.IH [OF _ i, of r ?err] Cons.prems(1) obtain c2 where
      "do_replies (length rs) r ?err c1 = (c2, last rs, if ?err = None then first_error rs else ?err)"
      "consumed c1 (concat (map resp rs)) c2" by auto
    with c1 e False consumed_trans [OF c1(2) this(2)] show ?thesis by auto
  qed
qed simp

lemma do_one_exchange:
  assumes "writable c" and "cmd \<noteq> []" and "cn_pending c = int (length rs)"
    and "\<forall>r \<in> set (rs @ [reply]). sendable r" and "input c = concat (map resp (rs @ [reply])) @ rest"
  shows "\<exists>c'. conn_Do show cmd args c = (c', reply, first_error (rs @ [reply]))
    \<and> cn_sent c' = written c @ resp (command show cmd args) \<and> cn_wbuf c' = []
    \<and> input c' = rest \<and> cn_pending c' = 0 \<and> conn_Err c' = conn_Err c \<and> writable c'"
proof -
  let ?c1 = "setWriteDeadline (c\<lparr>cn_pending := 0\<rparr>)"
  have w1: "writable ?c1" using assms(1) by (simp add: writable_def setWriteDeadline_def)
  from writeCommand_writable [OF w1] obtain c2 where
    c2: "writeCommand show cmd args ?c1 = (c2, None)" "wrote ?c1 (resp (command show cmd args)) c2" by blast
  have w2: "writable c2" using wrote_writable [OF c2(2)] w1 by simp
  let ?c4 = "setReadDeadline (c2\<lparr>cn_sent := written c2, cn_wbuf := []\<rparr>)"
  have same: "input ?c4 = input c" "cn_pending ?c4 = 0" "cn_err ?c4 = cn_err c" "cn_wbuf ?c4 = []"
    "cn_sent ?c4 = written c @ resp (command show cmd args)"
    using wrote_input [OF c2(2)] c2(2)
    by (simp_all add: setReadDeadline_def setWriteDeadline_def input_def wrote_def written_def)
  have n: "nat (cn_pending c + 1) = length (rs @ [reply])" using assms(3) by simp
  from do_replies_resp [OF assms(4), of ?c4 rest RNil None] same(1) assms(5) obtain c5 where
    c5: "do_replies (length (rs @ [reply])) RNil None ?c4 = (c5, reply, first_error (rs @ [reply]))"
      "consumed ?c4 (concat (map resp (rs @ [reply]))) c5" by auto
  have "conn_Do show cmd args c = (c5, reply, first_error (rs @ [reply]))"
    unfolding conn_Do_def Let_def using assms(2) c2(1) c5(1) n
    by (simp add: flush_writable [OF w2] del: do_replies.simps)
  moreover have "cn_sent c5 = cn_sent ?c4" "cn_wbuf c5 = cn_wbuf ?c4" "cn_pending c5 = cn_pending ?c4"
    "cn_err c5 = cn_err ?c4" "writable c5 = writable ?c4" using c5(2) unfolding consumed_def writable_def by (cases c5; simp)+
  moreover have "input c5 = rest"
    using consumed_input [OF c5(2)] same(1) assms(5) by simp
  moreover have "writable ?c4" using w2 by (simp add: writable_def setReadDeadline_def)
  ultimately show ?thesis using same by (auto simp: conn_Err_def)
qed

text \<open>
  C32. One exchange with the server: on a connection without write errors \<open>Do\<close> sends what was still
  buffered and then the command as the array of its words, each with its length, reads the
  replies of the commands sent before and its own, returns its own reply with the first error
  among all of them, and leaves no reply pending and the rest of the input unread.
\<close>

theorem do_exchange:
  assumes "writable c" and "cmd \<noteq> []" and "cn_pending c = int (length rs)"
    and "\<forall>r \<in> set (rs @ [reply]). sendable r" and "input c = concat (map resp (rs @ [reply])) @ rest"
  shows "\<exists>c'. conn_Do show cmd args c = (c', reply, first_error (rs @ [reply]))
    \<and> cn_sent c' = written c @ resp (command show cmd args) \<and> cn_wbuf c' = []
    \<and> input c' = rest \<and> cn_pending c' = 0 \<and> conn_Err c' = conn_Err c"
  using do_one_exchange [OF assms] by blast

section \<open>Witnesses\<close>

text \<open>An array with a nested one, in three segments that cut lines and strings.\<close>

definition demo_reply :: reply where
  "demo_reply = RArray [RBulk [CHR ''a'', CHR 0x0D, CHR 0x0A], RNil, RArray [RInt (- 7)]]"

definition demo_rconn :: rconn where
  "demo_rconn = newConn [''*3'', [CHR 0x0D, CHR 0x0A] @ ''$3'' @ [CHR 0x0D, CHR 0x0A] @ ''a'',
     [CHR 0x0D, CHR 0x0A, CHR 0x0D, CHR 0x0A] @ ''$-1'' @ [CHR 0x0D, CHR 0x0A] @ ''*1'' @ [CHR 0x0D, CHR 0x0A]
     @ '':-7'' @ [CHR 0x0D, CHR 0x0A] @ ''+OK'' @ [CHR 0x0D, CHR 0x0A]] EOF 0 0"

lemma demo_input: "input demo_rconn = concat (map resp [demo_reply, RStatus ''OK'']) @ []"
  by code_simp

lemma demo_sendable: "\<forall>r \<in> set [demo_reply, RStatus ''OK'']. sendable r"
  by code_simp

theorem replies_read_back_witness:
  "\<exists>c. read_elems readReply 2 demo_rconn = (c, Inr [demo_reply, RStatus ''OK'']) \<and> input c = []"
  using replies_read_back [OF demo_sendable demo_input] by (simp add: numeral_2_eq_2)

theorem do_exchange_witness:
  "\<exists>c. conn_Do (\<lambda>_. []) ''GET'' [AStr ''k''] (demo_rconn\<lparr>cn_pending := 1\<rparr>) = (c, RStatus ''OK'', None)
    \<and> cn_sent c = ''*2'' @ crlf @ ''$3'' @ crlf @ ''GET'' @ crlf @ ''$1'' @ crlf @ ''k'' @ crlf \<and> input c = []"
proof -
  have "written (demo_rconn\<lparr>cn_pending := 1\<rparr>) @ resp (command (\<lambda>_. []) ''GET'' [AStr ''k''])
      = ''*2'' @ crlf @ ''$3'' @ crlf @ ''GET'' @ crlf @ ''$1'' @ crlf @ ''k'' @ crlf"
    by code_simp
  moreover have "input (demo_rconn\<lparr>cn_pending := 1\<rparr>) = concat (map resp ([demo_reply] @ [RStatus ''OK''])) @ []"
    using demo_input by (simp add: input_def)
  moreover have "first_error ([demo_reply] @ [RStatus ''OK'']) = None"
    "writable (demo_rconn\<lparr>cn_pending := 1\<rparr>)"
    by (simp_all add: demo_reply_def demo_rconn_def newConn_def writable_def)
  ultimately show ?thesis
    using do_exchange [of "demo_rconn\<lparr>cn_pending := 1\<rparr>" "''GET''" "[demo_reply]" "RStatus ''OK''" "[]" "\<lambda>_. []" "[AStr ''k'']"]
      demo_sendable by fastforce
qed

end
