(* ===== verification/RedisPool.thy ===== *)
theory RedisPool
  imports PoolInv Resp RedisServer
begin

text \<open>
  What the broker uses of the Redis client: subscriptions (\<open>pubsub.go\<close>), the pool of
  \<open>broker/redis.go\<close> with its dial and its health check, and the client's scripts (\<open>script.go\<close>).
  The calls a pool relies on are the locale \<open>conn_client\<close>, interpreted by the connections of
  \<open>Redigo\<close> on a heap.
\<close>

section \<open>pubsub.go\<close>

definition psc_Close ::
  "'w rnet \<Rightarrow> bytes \<Rightarrow> int \<Rightarrow> 'w \<Rightarrow> pool \<Rightarrow> pooled \<Rightarrow> ('w \<times> pool \<times> pooled \<times> go_error option) option" where
  "psc_Close N sentinel now w p pc = pc_Close N sentinel now w p pc"

definition psc_Subscribe :: "'w rnet \<Rightarrow> 'w \<Rightarrow> pooled \<Rightarrow> arg list \<Rightarrow> 'w \<times> pooled \<times> go_error option" where
  "psc_Subscribe N w pc channel =
     (let (w1, pc1, _) = pc_Send N w pc ''SUBSCRIBE'' channel; (w2, err) = pc_Flush N w1 pc1 in (w2, pc1, err))"

definition psc_PSubscribe :: "'w rnet \<Rightarrow> 'w \<Rightarrow> pooled \<Rightarrow> arg list \<Rightarrow> 'w \<times> pooled \<times> go_error option" where
  "psc_PSubscribe N w pc channel =
     (let (w1, pc1, _) = pc_Send N w pc ''PSUBSCRIBE'' channel; (w2, err) = pc_Flush N w1 pc1 in (w2, pc1, err))"

definition psc_Unsubscribe :: "'w rnet \<Rightarrow> 'w \<Rightarrow> pooled \<Rightarrow> arg list \<Rightarrow> 'w \<times> pooled \<times> go_error option" where
  "psc_Unsubscribe N w pc channel =
     (let (w1, pc1, _) = pc_Send N w pc ''UNSUBSCRIBE'' channel; (w2, err) = pc_Flush N w1 pc1 in (w2, pc1, err))"

definition psc_PUnsubscribe :: "'w rnet \<Rightarrow> 'w \<Rightarrow> pooled \<Rightarrow> arg list \<Rightarrow> 'w \<times> pooled \<times> go_error option" where
  "psc_PUnsubscribe N w pc channel =
     (let (w1, pc1, _) = pc_Send N w pc ''PUNSUBSCRIBE'' channel; (w2, err) = pc_Flush N w1 pc1 in (w2, pc1, err))"

type_synonym parse_float = "nat \<Rightarrow> string \<Rightarrow> float64 \<times> go_error option"

text \<open>The rest of a notification after its kind.\<close>

definition psc_body :: "parse_float \<Rightarrow> string \<Rightarrow> reply list \<Rightarrow> (go_error + psmsg) go" where
  "psc_body pf kind vs =
     (if kind = ''message'' then
        go_bind (redis_Scan pf vs [DString [], DBytes []]) (\<lambda>(_, ds, err). case (err, ds) of
            (Some e, _) \<Rightarrow> Return (Inl e)
          | (None, [DString ch, DBytes data]) \<Rightarrow> Return (Inr (Message ch data))
          | _ \<Rightarrow> Panic ''unreachable'')
      else if kind = ''pmessage'' then
        go_bind (redis_Scan pf vs [DString [], DString [], DBytes []]) (\<lambda>(_, ds, err). case (err, ds) of
            (Some e, _) \<Rightarrow> Return (Inl e)
          | (None, [DString pat, DString ch, DBytes data]) \<Rightarrow> Return (Inr (PMessage pat ch data))
          | _ \<Rightarrow> Panic ''unreachable'')
      else if kind \<in> {''subscribe'', ''psubscribe'', ''unsubscribe'', ''punsubscribe''} then
        go_bind (redis_Scan pf vs [DString [], DInt 0 0]) (\<lambda>(_, ds, err). case (err, ds) of
            (Some e, _) \<Rightarrow> Return (Inl e)
          | (None, [DString ch, DInt _ n]) \<Rightarrow> Return (Inr (Subscription kind ch n))
          | _ \<Rightarrow> Panic ''unreachable'')
      else Return (Inl (ErrOther ''redigo: unknown pubsub notification'')))"

definition psc_Receive :: "'w rnet \<Rightarrow> parse_float \<Rightarrow> 'w \<Rightarrow> pooled \<Rightarrow> 'w \<times> (go_error + psmsg) go" where
  "psc_Receive N pf w pc =
     (let (w', r, err) = pc_Receive N w pc; (vs, err1) = reply_values r err
      in (w', case err1 of Some e \<Rightarrow> Return (Inl e)
          | None \<Rightarrow> go_bind (redis_Scan pf vs [DString []]) (\<lambda>(vs', ds, err2). case (err2, ds) of
                (Some e, _) \<Rightarrow> Return (Inl e)
              | (None, [DString kind]) \<Rightarrow> psc_body pf kind vs'
              | _ \<Rightarrow> Panic ''unreachable'')))"

section \<open>script.go\<close>

record script =
  sc_keyCount :: int
  sc_src :: string
  sc_hash :: string

text \<open>\<open>sha1\<close> is \<open>crypto/sha1\<close>.\<close>

definition newScript :: "(bytes \<Rightarrow> bytes) \<Rightarrow> int \<Rightarrow> string \<Rightarrow> script" where
  "newScript sha1 keyCount src = \<lparr>sc_keyCount = keyCount, sc_src = src, sc_hash = hex_encode (sha1 src)\<rparr>"

definition script_args :: "script \<Rightarrow> string \<Rightarrow> arg list \<Rightarrow> arg list" where
  "script_args s spec keysAndArgs =
     (if sc_keyCount s < 0 then AStr spec # keysAndArgs
      else AStr spec # AInt (sc_keyCount s) # keysAndArgs)"

text \<open>A server that does not know the hash is sent the source.\<close>

definition script_Do ::
  "'w rnet \<Rightarrow> script \<Rightarrow> 'w \<Rightarrow> pooled \<Rightarrow> arg list \<Rightarrow> 'w \<times> pooled \<times> reply \<times> go_error option" where
  "script_Do N s w pc keysAndArgs =
     (let (w1, pc1, v, err) = pc_Do N w pc ''EVALSHA'' (script_args s (sc_hash s) keysAndArgs)
      in case err of
           Some (RedisErr e) \<Rightarrow>
             (if take 9 e = ''NOSCRIPT '' then pc_Do N w1 pc1 ''EVAL'' (script_args s (sc_src s) keysAndArgs)
              else (w1, pc1, v, err))
         | _ \<Rightarrow> (w1, pc1, v, err))"

definition script_SendHash :: "'w rnet \<Rightarrow> script \<Rightarrow> 'w \<Rightarrow> pooled \<Rightarrow> arg list \<Rightarrow> 'w \<times> pooled \<times> go_error option" where
  "script_SendHash N s w pc keysAndArgs = pc_Send N w pc ''EVALSHA'' (script_args s (sc_hash s) keysAndArgs)"

definition script_Send :: "'w rnet \<Rightarrow> script \<Rightarrow> 'w \<Rightarrow> pooled \<Rightarrow> arg list \<Rightarrow> 'w \<times> pooled \<times> go_error option" where
  "script_Send N s w pc keysAndArgs = pc_Send N w pc ''EVAL'' (script_args s (sc_src s) keysAndArgs)"

definition script_Load :: "'w rnet \<Rightarrow> script \<Rightarrow> 'w \<Rightarrow> pooled \<Rightarrow> 'w \<times> pooled \<times> go_error option" where
  "script_Load N s w pc =
     (let (w1, pc1, _, err) = pc_Do N w pc ''SCRIPT'' [AStr ''LOAD'', AStr (sc_src s)] in (w1, pc1, err))"

section \<open>The broker's pool\<close>

text \<open>The parts of the server's URL: its host, and the password of its user if both are there.\<close>

record redis_url =
  ru_host :: string
  ru_password :: "string option option"

text \<open>The function \<open>Dial\<close> of the pool; \<open>dial\<close> is the network's.\<close>

definition broker_Dial ::
  "(string \<Rightarrow> string \<Rightarrow> go_error + bytes list \<times> go_error) \<Rightarrow> redis_url \<Rightarrow> rconn option \<times> go_error option" where
  "broker_Dial dial server =
     (case redis_Dial dial ''tcp'' (ru_host server) of
        Inl e \<Rightarrow> (None, Some e)
      | Inr c \<Rightarrow>
          (case ru_password server of
             None \<Rightarrow> (Some c, None)
           | Some None \<Rightarrow> (Some c, None)
           | Some (Some pw) \<Rightarrow>
               (case conn_Do (\<lambda>_. []) ''AUTH'' [AStr pw] c of
                  (c1, _, Some e) \<Rightarrow> (Some (fst (conn_Close c1)), Some e)
                | (c1, _, None) \<Rightarrow> (Some c1, None))))"

definition broker_newPool :: pool where
  "broker_newPool = \<lparr>pl_MaxIdle = 3, pl_MaxActive = 0, pl_IdleTimeout = 4 * 60 * 10 ^ 9, pl_Wait = False,
     pl_closed = False, pl_active = 0, pl_idle = [], pl_signals = 0\<rparr>"

definition broker_TestOnBorrow :: "'w rnet \<Rightarrow> 'w \<Rightarrow> nat \<Rightarrow> int \<Rightarrow> 'w \<times> bool" where
  "broker_TestOnBorrow N w c t = (let (w', _, err) = rn_do N w c ''PING'' [] in (w', err = None))"

text \<open>\<open>init\<close> takes a connection and gives it back, so that the first one is dialed at the start.\<close>

definition broker_init ::
  "'w rnet \<Rightarrow> bytes \<Rightarrow> int \<Rightarrow> 'w \<Rightarrow> ('w \<times> pool) option" where
  "broker_init N sentinel now w =
     (case pool_Get N (Some (broker_TestOnBorrow N)) now w broker_newPool of
        (w1, p1, Return pc) \<Rightarrow> map_option (\<lambda>(w2, p2, _, _). (w2, p2)) (pc_Close N sentinel now w1 p1 pc)
      | _ \<Rightarrow> None)"

section \<open>The connections on a heap\<close>

record cheap =
  ch_conns :: "nat \<Rightarrow> rconn"
  ch_next :: nat

definition on_conn :: "(rconn \<Rightarrow> rconn \<times> 'a) \<Rightarrow> cheap \<Rightarrow> nat \<Rightarrow> cheap \<times> 'a" where
  "on_conn f h k = (let (c, r) = f (ch_conns h k) in (h\<lparr>ch_conns := (ch_conns h)(k := c)\<rparr>, r))"

definition heap_dial ::
  "(nat \<Rightarrow> string \<Rightarrow> string \<Rightarrow> go_error + bytes list \<times> go_error) \<Rightarrow> redis_url \<Rightarrow> cheap \<Rightarrow> cheap \<times> (go_error + nat)" where
  "heap_dial dial server h =
     (let k = ch_next h
      in case broker_Dial (dial k) server of
           (Some c, None) \<Rightarrow> (h\<lparr>ch_conns := (ch_conns h)(k := c), ch_next := Suc k\<rparr>, Inr k)
         | (_, Some e) \<Rightarrow> (h\<lparr>ch_next := Suc k\<rparr>, Inl e)
         | (None, None) \<Rightarrow> (h, Inl (ErrOther ''no connection'')))"

definition heap_net ::
  "(nat \<Rightarrow> string \<Rightarrow> string \<Rightarrow> go_error + bytes list \<times> go_error) \<Rightarrow> redis_url \<Rightarrow> cheap rnet" where
  "heap_net dial server =
     \<lparr>rn_dial = heap_dial dial server,
      rn_do = (\<lambda>h k cmd args. on_conn (conn_Do (\<lambda>_. []) cmd args) h k),
      rn_send = (\<lambda>h k cmd args. on_conn (conn_Send (\<lambda>_. []) cmd args) h k),
      rn_flush = on_conn conn_Flush,
      rn_receive = on_conn conn_Receive,
      rn_err = (\<lambda>h k. conn_Err (ch_conns h k)),
      rn_close = on_conn conn_Close\<rparr>"

section \<open>What a pool relies on\<close>

definition stays_broken :: "'w rnet \<Rightarrow> nat \<Rightarrow> bool" where
  "stays_broken N c \<longleftrightarrow> (\<forall>w. rn_err N w c \<noteq> None \<longrightarrow> rn_err N (fst (rn_receive N w c)) c \<noteq> None)"

lemma drain_keeps_broken:
  assumes "drain N sentinel c w = Some y"
  shows "stays_broken N c \<longrightarrow> rn_err N w c \<noteq> None \<longrightarrow> rn_err N (fst y) c \<noteq> None"
proof (rule drain.raw_induct [where P = "\<lambda>N s c w y. stays_broken N c \<longrightarrow> rn_err N w c \<noteq> None \<longrightarrow>
      rn_err N (fst y) c \<noteq> None", OF _ assms])
  fix dr and N :: "'w rnet" and s c w and y :: "'w \<times> bool"
  assume IH: "\<And>s c w b y. dr s c w b = Some y \<Longrightarrow> stays_broken s w \<longrightarrow> rn_err s b w \<noteq> None \<longrightarrow> rn_err s (fst y) w \<noteq> None"
    and step: "(case rn_receive N w c of
        (w', r, None) \<Rightarrow> if r = RBulk s then Some (w', True) else dr N s c w'
      | (w', r, Some e) \<Rightarrow> Some (w', False)) = Some y"
  obtain w' r e where r: "rn_receive N w c = (w', r, e)" by (cases "rn_receive N w c")
  show "stays_broken N c \<longrightarrow> rn_err N w c \<noteq> None \<longrightarrow> rn_err N (fst y) c \<noteq> None"
  proof (intro impI)
    assume keeps: "stays_broken N c" and "rn_err N w c \<noteq> None"
    then have w': "rn_err N w' c \<noteq> None" using r unfolding stays_broken_def by (metis fst_conv)
    show "rn_err N (fst y) c \<noteq> None"
    proof (cases "e = None \<and> r \<noteq> RBulk s")
      case True
      with step r have "dr N s c w' = Some y" by simp
      from IH [OF this] keeps w' show ?thesis by blast
    next
      case False
      with step r have "fst y = w'" by (cases e) (auto split: if_splits)
      with w' show ?thesis by simp
    qed
  qed
qed

text \<open>
  A call that fails with anything but an error reply leaves the connection broken, and a broken
  connection stays broken.
\<close>

locale conn_client =
  fixes N :: "'w rnet"
  assumes do_breaks: "rn_do N w c cmd args = (w', r, Some e) \<Longrightarrow> rn_err N w' c = None \<Longrightarrow> \<exists>m. e = RedisErr m"
    and receive_breaks: "rn_receive N w c = (w', r, Some e) \<Longrightarrow> rn_err N w' c = None \<Longrightarrow> \<exists>m. e = RedisErr m"
    and send_breaks: "rn_send N w c cmd args = (w', Some e) \<Longrightarrow> rn_err N w' c \<noteq> None"
    and flush_breaks: "rn_flush N w c = (w', Some e) \<Longrightarrow> rn_err N w' c \<noteq> None"
    and do_sticky: "rn_err N w c \<noteq> None \<Longrightarrow> rn_err N (fst (rn_do N w c cmd args)) c \<noteq> None"
    and receive_sticky: "rn_err N w c \<noteq> None \<Longrightarrow> rn_err N (fst (rn_receive N w c)) c \<noteq> None"
    and send_sticky: "rn_err N w c \<noteq> None \<Longrightarrow> rn_err N (fst (rn_send N w c cmd args)) c \<noteq> None"
    and flush_sticky: "rn_err N w c \<noteq> None \<Longrightarrow> rn_err N (fst (rn_flush N w c)) c \<noteq> None"
begin

lemma put_broken:
  "rn_err N w c \<noteq> None \<Longrightarrow> pool_put N now w p c f = (w', p', e) \<Longrightarrow> pl_idle p' = pl_idle p"
  by (auto simp: pool_put_def put_locked_def pool_release_def split: prod.splits option.splits)

text \<open>
  Closing a pooled connection that is broken does not put it back.
\<close>

lemma close_broken:
  assumes "pc_conn pc = Inr c" and "rn_err N w c \<noteq> None"
    and "pc_Close N sentinel now w p pc = Some (w', p', pc', e)"
  shows "pl_idle p' = pl_idle p"
proof -
  obtain w1 st1 where one: "close_transaction N c w (pc_state pc) = (w1, st1)"
    by (cases "close_transaction N c w (pc_state pc)")
  have "rn_err N w1 c \<noteq> None"
    using one assms(2) send_sticky [OF assms(2)] by (auto simp: close_transaction_def split: if_splits)
  note w1 = this
  obtain w2 st2 where two: "close_subscriptions N sentinel c w1 st1 = Some (w2, st2)"
    using assms(1,3) one by (auto simp: pc_Close_def split: option.splits prod.splits)
  have w2: "rn_err N w2 c \<noteq> None"
  proof (cases "st1 AND SubscribeState \<noteq> 0")
    case False
    with two w1 show ?thesis by (simp add: close_subscriptions_def)
  next
    case True
    let ?w5 = "fst (rn_flush N (fst (rn_send N (fst (rn_send N (fst (rn_send N w1 c ''UNSUBSCRIBE'' []))
        c ''PUNSUBSCRIBE'' [])) c ''ECHO'' [ABytes sentinel])) c)"
    have w5: "rn_err N ?w5 c \<noteq> None" by (intro flush_sticky send_sticky w1)
    from True two obtain y where y: "drain N sentinel c ?w5 = Some y" "w2 = fst y"
      by (auto simp: close_subscriptions_def Let_def)
    have "stays_broken N c" using receive_sticky by (simp add: stays_broken_def)
    with drain_keeps_broken [OF y(1)] w5 show ?thesis by (simp add: y(2))
  qed
  obtain w3 r x where three: "rn_do N w2 c [] [] = (w3, r, x)" by (cases "rn_do N w2 c [] []")
  with do_sticky [OF w2, of "[]" "[]"] have w3: "rn_err N w3 c \<noteq> None" by simp
  obtain w4 q y where four: "pool_put N now w3 p c (st2 \<noteq> 0) = (w4, q, y)"
    by (cases "pool_put N now w3 p c (st2 \<noteq> 0)")
  from put_broken [OF w3 four] four three two one assms(1,3) show ?thesis
    by (simp add: pc_Close_def)
qed

text \<open>So a connection on which a command has failed in the network never serves another client.\<close>

lemma failed_not_kept:
  assumes "pc_Do N w pc cmd args = (w1, pc1, r, Some e)" and "pc_conn pc = Inr c"
    and "\<And>m. e \<noteq> RedisErr m" and "pc_Close N sentinel now w1 p pc1 = Some (w2, p2, pc2, x)"
  shows "pl_idle p2 = pl_idle p"
proof (rule close_broken [OF _ _ assms(4)])
  show "pc_conn pc1 = Inr c" using assms(1,2) by (auto simp: pc_Do_def track_def Let_def split: prod.splits)
  have "rn_do N w c cmd args = (w1, r, Some e)"
    using assms(1,2) by (auto simp: pc_Do_def track_def Let_def split: prod.splits)
  with do_breaks [OF this] assms(3) show "rn_err N w1 c \<noteq> None" by blast
qed

end

section \<open>The connections of the client are such\<close>

text \<open>No reading and no writing takes the error of a connection away.\<close>

definition err_kept :: "(rconn \<Rightarrow> rconn \<times> 'a) \<Rightarrow> bool" where
  "err_kept f \<longleftrightarrow> (\<forall>c. cn_err (fst (f c)) = cn_err c)"

lemma err_keptD: "err_kept f \<Longrightarrow> f c = (c', r) \<Longrightarrow> cn_err c' = cn_err c"
  unfolding err_kept_def by (metis fst_conv)

lemma bw_Flush_err: "err_kept bw_Flush"
  by (auto simp: err_kept_def bw_Flush_def split: option.splits)

lemma bw_write_err: "cn_err (fst (bw_write d p c)) = cn_err c"
proof (induction d p c rule: bw_write.induct)
  case (1 d p c)
  let ?n = "bufio_size - length (cn_wbuf c)"
  have f: "cn_err (fst (bw_Flush (c\<lparr>cn_wbuf := cn_wbuf c @ take ?n p\<rparr>))) = cn_err c"
    using bw_Flush_err by (simp add: err_kept_def)
  show ?case
    by (subst bw_write.simps) (use 1 f in \<open>auto simp: Let_def split: option.split\<close>)
qed

lemma readSlice_err: "cn_err (fst (br_readSlice c)) = cn_err c"
proof (induction c rule: br_readSlice.induct)
  case (1 c)
  then show ?case by (subst br_readSlice.simps) (auto split: list.split option.split)
qed

lemma readLine_err: "err_kept readLine"
  unfolding err_kept_def
proof
  fix c
  obtain c' r where "br_readSlice c = (c', r)" by (cases "br_readSlice c")
  with readSlice_err [of c] show "cn_err (fst (readLine c)) = cn_err c"
    by (cases r) (simp_all add: readLine_def Let_def)
qed

lemma read_full_err: "cn_err (fst (read_full n c)) = cn_err c"
proof (induction n c rule: read_full.induct)
  case (1 n c)
  show ?case
  proof (cases "n = 0 \<or> br_read n c = None")
    case True
    then show ?thesis by (subst read_full.simps) auto
  next
    case False
    then obtain c1 s where b: "br_read n c = Some (c1, s)" by auto
    have "cn_err c1 = cn_err c" using br_read_some(1) [OF b] unfolding consumed_def by (cases c; cases c1) simp
    moreover have "cn_err (fst (read_full (n - length s) c1)) = cn_err c1" using "1.IH" [OF _ b refl] False by simp
    ultimately show ?thesis
      using False b by (subst read_full.simps) (auto split: prod.split option.split)
  qed
qed

lemma read_bulk_err: "cn_err (fst (read_bulk n c)) = cn_err c"
proof -
  obtain c1 p e where f: "read_full (nat n) c = (c1, p, e)" by (cases "read_full (nat n) c")
  obtain c2 l where l: "readLine c1 = (c2, l)" by (cases "readLine c1")
  from read_full_err [of "nat n" c] f err_keptD [OF readLine_err l] l show ?thesis
    by (cases e; cases l) (simp_all add: read_bulk_def)
qed

lemma read_elems_err: "err_kept f \<Longrightarrow> err_kept (read_elems f n)"
proof (induction n)
  case (Suc n)
  show ?case
    unfolding err_kept_def
  proof
    fix c
    obtain c1 r where f: "f c = (c1, r)" by (cases "f c")
    obtain c2 rs where g: "read_elems f n c1 = (c2, rs)" by (cases "read_elems f n c1")
    from f g err_keptD [OF Suc.prems f] err_keptD [OF Suc.IH [OF Suc.prems] g]
    show "cn_err (fst (read_elems f (Suc n) c)) = cn_err c" by (cases r; cases rs) simp_all
  qed
qed (simp add: err_kept_def)

lemma reply_fuel_err: "err_kept (reply_fuel k)"
proof (induction k)
  case (Suc k)
  show ?case
    unfolding err_kept_def
  proof
    fix c
    obtain c1 l where l: "readLine c = (c1, l)" by (cases "readLine c")
    note one = err_keptD [OF readLine_err l]
    have bulk: "cn_err (fst (read_bulk n c1)) = cn_err c" for n using one by (simp add: read_bulk_err)
    have el: "cn_err (fst (read_elems (reply_fuel k) n c1)) = cn_err c" for n
      using read_elems_err [OF Suc.IH, of n] one unfolding err_kept_def by simp
    show "cn_err (fst (reply_fuel (Suc k) c)) = cn_err c"
      using l one bulk el
      by (auto split: sum.splits list.splits option.splits prod.splits) (metis fst_conv)+
  qed
qed (simp add: err_kept_def)

lemma readReply_err: "err_kept readReply"
  using reply_fuel_err unfolding err_kept_def readReply_def by blast

lemma writeArg_err: "cn_err (fst (writeArg show a c)) = cn_err c"
  by (cases a) (simp_all add: writeInt64_def writeFloat64_def writeString_def writeBytes_def
      writeLen_def Let_def bw_write_err split: prod.splits; metis bw_write_err fst_conv)+

lemma writeArgs_err: "cn_err (fst (writeArgs show as (c, e))) = cn_err c"
proof (induction "as" arbitrary: c e)
  case (Cons a "as")
  from Cons.IH [of "fst (writeArg show a c)" "snd (writeArg show a c)"] show ?case
    by (simp add: writeArg_err)
qed simp

lemma writeCommand_err: "cn_err (fst (writeCommand show cmd args c)) = cn_err c"
  using writeArgs_err [of "show" args] writeArg_err [of "show" "AStr cmd"]
  by (simp add: writeCommand_def writeLen_def split: prod.splits) (metis bw_write_err fst_conv surj_pair)

lemma fatal_breaks [simp]: "\<exists>y. cn_err (conn_fatal c e) = Some y" "cn_err (conn_fatal c e) \<noteq> None"
  by (auto simp: conn_fatal_def net_Close_def Let_def split: option.splits)

lemma deadline_err [simp]: "cn_err (setReadDeadline c) = cn_err c" "cn_err (setWriteDeadline c) = cn_err c"
  by (simp_all add: setReadDeadline_def setWriteDeadline_def)

lemma Send_err:
  "conn_Send show cmd args c = (c', e) \<Longrightarrow> (e \<noteq> None \<longrightarrow> cn_err c' \<noteq> None) \<and> (cn_err c \<noteq> None \<longrightarrow> cn_err c' \<noteq> None)"
  using writeCommand_err [of "show" cmd args "setWriteDeadline (c\<lparr>cn_pending := i64 (cn_pending c + 1)\<rparr>)"]
  by (auto simp: conn_Send_def fatal_breaks split: prod.splits option.splits)

lemma Flush_err:
  "conn_Flush c = (c', e) \<Longrightarrow> (e \<noteq> None \<longrightarrow> cn_err c' \<noteq> None) \<and> (cn_err c \<noteq> None \<longrightarrow> cn_err c' \<noteq> None)"
  using bw_Flush_err [unfolded err_kept_def, THEN spec, of "setWriteDeadline c"]
  by (auto simp: conn_Flush_def split: prod.splits option.splits)

lemma Receive_err:
  assumes "conn_Receive c = (c', r, e)"
  shows "(\<forall>x. e = Some x \<longrightarrow> cn_err c' = None \<longrightarrow> (\<exists>m. x = RedisErr m)) \<and> (cn_err c \<noteq> None \<longrightarrow> cn_err c' \<noteq> None)"
proof -
  obtain c1 x where x: "readReply (setReadDeadline c) = (c1, x)" by (cases "readReply (setReadDeadline c)")
  from err_keptD [OF readReply_err x] assms x show ?thesis
    by (cases x) (auto simp: conn_Receive_def fatal_breaks Let_def split: reply.splits if_splits)
qed

lemma do_replies_err:
  "do_replies n r0 err c = (c', r, e) \<Longrightarrow> (\<forall>x. err = Some x \<longrightarrow> (\<exists>m. x = RedisErr m)) \<Longrightarrow>
   (\<forall>x. e = Some x \<longrightarrow> cn_err c' = None \<longrightarrow> (\<exists>m. x = RedisErr m)) \<and> (cn_err c \<noteq> None \<longrightarrow> cn_err c' \<noteq> None)"
proof (induction n arbitrary: r0 err c)
  case (Suc n)
  obtain c1 x where x: "readReply c = (c1, x)" by (cases "readReply c")
  note kept = err_keptD [OF readReply_err x]
  show ?case
  proof (cases x)
    case (Inl a)
    with Suc.prems x fatal_breaks show ?thesis by auto
  next
    case (Inr b)
    let ?err = "case b of RError m \<Rightarrow> if err = None then Some (RedisErr m) else err | _ \<Rightarrow> err"
    have "do_replies n b ?err c1 = (c', r, e)" using Suc.prems(1) x Inr by simp
    moreover have "\<forall>x. ?err = Some x \<longrightarrow> (\<exists>m. x = RedisErr m)" using Suc.prems(2) by (cases b) auto
    ultimately show ?thesis using Suc.IH [of b ?err c1] kept by simp
  qed
qed simp

lemma Do_err:
  assumes "conn_Do show cmd args c = (c', r, e)"
  shows "(\<forall>x. e = Some x \<longrightarrow> cn_err c' = None \<longrightarrow> (\<exists>m. x = RedisErr m)) \<and> (cn_err c \<noteq> None \<longrightarrow> cn_err c' \<noteq> None)"
proof (cases "cmd = [] \<and> cn_pending c = 0")
  case True
  with assms show ?thesis by (auto simp: conn_Do_def)
next
  case False
  let ?c1 = "setWriteDeadline (c\<lparr>cn_pending := 0\<rparr>)"
  let ?c2 = "if cmd \<noteq> [] then fst (writeCommand show cmd args ?c1) else ?c1"
  obtain c3 x where x: "bw_Flush ?c2 = (c3, x)" by (cases "bw_Flush ?c2")
  have c3: "cn_err c3 = cn_err c"
    using err_keptD [OF bw_Flush_err x] writeCommand_err [of "show" cmd args ?c1] by (simp split: if_splits)
  show ?thesis
  proof (cases x)
    case (Some a)
    with assms False x fatal_breaks show ?thesis by (auto simp: conn_Do_def Let_def)
  next
    case None
    let ?c4 = "setReadDeadline c3"
    show ?thesis
    proof (cases "cmd = []")
      case True
      obtain c5 y where y: "read_elems readReply (nat (cn_pending c)) ?c4 = (c5, y)"
        by (cases "read_elems readReply (nat (cn_pending c)) ?c4")
      from err_keptD [OF read_elems_err [OF readReply_err] y] c3 assms False True None x y fatal_breaks
      show ?thesis by (cases y) (auto simp: conn_Do_def Let_def)
    next
      case ne: False
      have "do_replies (nat (cn_pending c + 1)) RNil None ?c4 = (c', r, e)"
        using assms False ne None x by (simp add: conn_Do_def Let_def)
      from do_replies_err [OF this] c3 show ?thesis by simp
    qed
  qed
qed

interpretation heap: conn_client "heap_net dial server" for dial server
proof (unfold_locales, goal_cases)
  case (1 w c cmd args w' r e)
  then show ?case using Do_err [of "\<lambda>_. []" cmd args "ch_conns w c"]
    by (auto simp: heap_net_def on_conn_def conn_Err_def Let_def split: prod.splits)
next
  case (2 w c w' r e)
  then show ?case using Receive_err [of "ch_conns w c"]
    by (auto simp: heap_net_def on_conn_def conn_Err_def Let_def split: prod.splits)
next
  case (3 w c cmd args w' e)
  then show ?case using Send_err [of "\<lambda>_. []" cmd args "ch_conns w c"]
    by (auto simp: heap_net_def on_conn_def conn_Err_def Let_def split: prod.splits)
next
  case (4 w c w' e)
  then show ?case using Flush_err [of "ch_conns w c"]
    by (auto simp: heap_net_def on_conn_def conn_Err_def Let_def split: prod.splits)
next
  case (5 w c cmd args)
  then show ?case using Do_err [of "\<lambda>_. []" cmd args "ch_conns w c"]
    by (cases "conn_Do (\<lambda>_. []) cmd args (ch_conns w c)") (auto simp: heap_net_def on_conn_def conn_Err_def)
next
  case (6 w c)
  then show ?case using Receive_err [of "ch_conns w c"]
    by (cases "conn_Receive (ch_conns w c)") (auto simp: heap_net_def on_conn_def conn_Err_def)
next
  case (7 w c cmd args)
  then show ?case using Send_err [of "\<lambda>_. []" cmd args "ch_conns w c"]
    by (cases "conn_Send (\<lambda>_. []) cmd args (ch_conns w c)") (auto simp: heap_net_def on_conn_def conn_Err_def)
next
  case (8 w c)
  then show ?case using Flush_err [of "ch_conns w c"]
    by (cases "conn_Flush (ch_conns w c)") (auto simp: heap_net_def on_conn_def conn_Err_def)
qed

section \<open>Properties\<close>

text \<open>
  C34. A connection on which a command has failed in the network or in the protocol, so that replies
  and commands may no longer match, is never used again: closing it does not put it back into
  the pool, whatever its state and whatever else was sent.
\<close>

theorem failed_connection_not_reused:
  assumes "pc_Do (heap_net dial server) h pc cmd args = (h1, pc1, r, Some e)" and "pc_conn pc = Inr c"
    and "\<forall>m. e \<noteq> RedisErr m" and "pc_Close (heap_net dial server) sentinel now h1 p pc1 = Some (h2, p2, pc2, x)"
  shows "pl_idle p2 = pl_idle p"
  by (rule heap.failed_not_kept [OF assms(1,2) _ assms(4)]) (use assms(3) in blast)

text \<open>What the server sends to a subscribed connection.\<close>

fun notification :: "psmsg \<Rightarrow> reply" where
  "notification (Message ch data) = RArray [RBulk ''message'', RBulk ch, RBulk data]"
| "notification (PMessage pat ch data) = RArray [RBulk ''pmessage'', RBulk pat, RBulk ch, RBulk data]"
| "notification (Subscription kind ch n) = RArray [RBulk kind, RBulk ch, RInt n]"

fun known_kind :: "psmsg \<Rightarrow> bool" where
  "known_kind (Subscription kind ch n) \<longleftrightarrow> kind \<in> {''subscribe'', ''psubscribe'', ''unsubscribe'', ''punsubscribe''}"
| "known_kind _ \<longleftrightarrow> True"

lemma Receive_resp:
  assumes "sendable r" and "input c = resp r @ t" and "\<And>m. r \<noteq> RError m"
  shows "\<exists>c'. conn_Receive c = (c', r, None) \<and> input c' = t"
proof -
  have "input (setReadDeadline c) = resp r @ t"
    using assms(2) by (simp add: setReadDeadline_def input_def)
  from readReply_resp [OF assms(1) this] obtain c1 where
    c1: "readReply (setReadDeadline c) = (c1, Inr r)" "consumed (setReadDeadline c) (resp r) c1" by blast
  have "input (setReadDeadline c) = input c" by (simp add: setReadDeadline_def input_def)
  with consumed_input [OF c1(2)] assms(2) have "input c1 = t" by simp
  then show ?thesis using c1(1) assms(3) by (cases r) (auto simp: conn_Receive_def Let_def input_def)
qed

text \<open>
  \<open>PubSubConn.Receive\<close> reads every notification of the server back, in whatever segments its
  bytes arrive and whatever follows them: a message with the channel and the bytes that were
  published, a pattern message with its pattern too, and the change of a subscription with the
  number of those that are left.
\<close>

theorem notifications_read_back:
  assumes "pc_conn pc = Inr k" and "input (ch_conns h k) = resp (notification m) @ rest"
    and "sendable (notification m)" and "known_kind m"
  shows "\<exists>h'. psc_Receive (heap_net dial server) pf h pc = (h', Return (Inr m)) \<and> input (ch_conns h' k) = rest"
proof -
  have "notification m \<noteq> RError x" for x by (cases m) simp_all
  with Receive_resp [OF assms(3,2)] obtain c' where
    c': "conn_Receive (ch_conns h k) = (c', notification m, None)" "input c' = rest" by blast
  have r: "pc_Receive (heap_net dial server) h pc
      = (h\<lparr>ch_conns := (ch_conns h)(k := c')\<rparr>, notification m, None)"
    using assms(1) c'(1) by (simp add: pc_Receive_def heap_net_def on_conn_def)
  have "psc_Receive (heap_net dial server) pf h pc
      = (h\<lparr>ch_conns := (ch_conns h)(k := c')\<rparr>, Return (Inr m))"
    using assms(3,4) unfolding psc_Receive_def r
    by (cases m) (auto simp: psc_body_def scan_strings scan_count)
  with c'(2) show ?thesis by simp
qed

section \<open>Witnesses\<close>

text \<open>A connection whose server has closed it: the reply of a command is \<open>io.EOF\<close>.\<close>

lemma Do_eof:
  assumes "writable c" and "cmd \<noteq> []" and "cn_pending c = 0" and "input c = []"
  shows "\<exists>c'. conn_Do show cmd args c = (c', RNil, Some (cn_end c))"
proof -
  let ?c1 = "setWriteDeadline (c\<lparr>cn_pending := 0\<rparr>)"
  have w1: "writable ?c1" using assms(1) by (simp add: writable_def setWriteDeadline_def)
  from writeCommand_writable [OF w1] obtain c2 where
    c2: "writeCommand show cmd args ?c1 = (c2, None)" "wrote ?c1 (resp (command show cmd args)) c2" by blast
  have w2: "writable c2" using wrote_writable [OF c2(2)] w1 by simp
  let ?c4 = "setReadDeadline (c2\<lparr>cn_sent := written c2, cn_wbuf := []\<rparr>)"
  have "cn_rbuf ?c4 = cn_rbuf c \<and> cn_in ?c4 = cn_in c \<and> cn_end ?c4 = cn_end c"
    using c2(2) unfolding wrote_def by (cases c; cases c2) (auto simp: setReadDeadline_def setWriteDeadline_def split: if_splits)
  moreover have "cn_rbuf c = []" "concat (cn_in c) = []" using assms(4) by (auto simp: input_def)
  ultimately have "readLine ?c4 = (?c4\<lparr>cn_rbuf := []\<rparr>, Inl (cn_end c))"
    using net_read_none [of bufio_size "cn_in c"]
    by (simp add: readLine_def readSlice_fill bufio_size_def)
  then have r: "readReply ?c4 = (?c4\<lparr>cn_rbuf := []\<rparr>, Inl (cn_end c))"
    by (simp add: readReply_recursion)
  show ?thesis
    unfolding conn_Do_def Let_def using assms(2,3) c2(1) r by (simp add: flush_writable [OF w2])
qed

definition demo_heap :: cheap where "demo_heap = \<lparr>ch_conns = (\<lambda>_. newConn [] EOF 0 0), ch_next = 0\<rparr>"

definition demo_url :: redis_url where "demo_url = \<lparr>ru_host = ''h:1'', ru_password = None\<rparr>"

definition demo_dial :: "nat \<Rightarrow> string \<Rightarrow> string \<Rightarrow> go_error + bytes list \<times> go_error" where
  "demo_dial k network address = Inr ([''+PONG'' @ [CHR 0x0D, CHR 0x0A]], EOF)"

text \<open>The pool dials, and keeps the connection that is put back.\<close>

lemma broker_pool_demo:
  "let N = heap_net demo_dial demo_url;
       (h1, p1, r1) = pool_get N (Some (broker_TestOnBorrow N)) 0 demo_heap broker_newPool;
       (h2, p2, e2) = pool_put N 5 h1 p1 0 False
   in r1 = Return (Inr 0) \<and> pl_idle p2 = [(0, 5)] \<and> pl_active p2 = 1"
  by (simp add: heap_net_def heap_dial_def pool_get_def pool_put_def put_locked_def broker_newPool_def
      broker_Dial_def redis_Dial_def xDialer_Dial_def demo_dial_def demo_url_def demo_heap_def newConn_def
      under_limit_def conn_Err_def Let_def)

theorem failed_connection_not_reused_witness:
  "case pc_Do (heap_net demo_dial demo_url) demo_heap \<lparr>pc_conn = Inr 0, pc_state = 0\<rparr> ''GET'' [AStr ''k''] of
     (h1, pc1, r, e) \<Rightarrow> e = Some EOF \<and>
       (case pc_Close (heap_net demo_dial demo_url) [] 7 h1 broker_newPool pc1 of
          None \<Rightarrow> False | Some (h2, p2, pc2, x) \<Rightarrow> pl_idle p2 = [])"
proof -
  let ?N = "heap_net demo_dial demo_url" and ?pc = "\<lparr>pc_conn = Inr (0 :: nat), pc_state = 0\<rparr>"
  obtain c' where c': "conn_Do (\<lambda>_. []) ''GET'' [AStr ''k''] (newConn [] EOF 0 0) = (c', RNil, Some EOF)"
    using Do_eof [of "newConn [] EOF 0 0" "''GET''" "\<lambda>_. []" "[AStr ''k'']"]
    by (auto simp: newConn_def writable_def input_def)
  have t: "track ''GET'' ?pc = ?pc"
    by (simp add: track_def lookupCommandInfo_def commandInfos_def to_upper_def)
  obtain h1 where d: "pc_Do ?N demo_heap ?pc ''GET'' [AStr ''k''] = (h1, ?pc, RNil, Some EOF)"
    using c' t by (simp add: pc_Do_def heap_net_def on_conn_def demo_heap_def)
  obtain h2 p2 pc2 x where c: "pc_Close ?N [] 7 h1 broker_newPool ?pc = Some (h2, p2, pc2, x)"
    by (simp add: pc_Close_def close_transaction_def close_subscriptions_def split_beta)
  from failed_connection_not_reused [OF d _ _ c] have "pl_idle p2 = pl_idle broker_newPool" by simp
  with c d show ?thesis by (simp add: broker_newPool_def)
qed

theorem notifications_read_back_witness:
  "\<exists>h'. psc_Receive (heap_net demo_dial demo_url) (\<lambda>_ _. (NaN, None))
      (demo_heap\<lparr>ch_conns := (\<lambda>_. newConn [resp (notification (PMessage ''c:*'' ''c:id'' ''1''))] EOF 0 0)\<rparr>)
      \<lparr>pc_conn = Inr 4, pc_state = 4\<rparr> = (h', Return (Inr (PMessage ''c:*'' ''c:id'' ''1''))) \<and> input (ch_conns h' 4) = []"
  by (rule notifications_read_back) (simp_all add: newConn_def input_def is_i64_def)

end
