(* ===== verification/RedisLog.thy ===== *)
theory RedisLog
  imports RedisPool
begin

text \<open>
  The logging wrapper of a connection (\<open>log.go\<close> of the vendored Redis client). The connections are the
  operations of an \<open>rnet\<close>; the wrapper is an \<open>rnet\<close> again, whose state has the lines of the logger
  beside the state of the wrapped connections. \<open>Err\<close> and \<open>Flush\<close> are those of the embedded connection.
\<close>

section \<open>Values in a line\<close>

text \<open>The cases of \<open>printValue\<close>; of any other value the text that \<open>fmt\<close> writes.\<close>

datatype log_value = LBytes bytes | LString string | LList "log_value list" | LOther string

text \<open>How \<open>fmt\<close> writes a quoted text, a floating point number and an error.\<close>

record log_fmt =
  lf_q :: "string \<Rightarrow> string"
  lf_float :: "float64 \<Rightarrow> string"
  lf_err :: "go_error option \<Rightarrow> string"

definition chop :: nat where "chop = 32"

definition print_text :: "log_fmt \<Rightarrow> string \<Rightarrow> string" where
  "print_text F v = (if chop < length v then lf_q F (take chop v) @ ''...'' else lf_q F v)"

fun printValue :: "log_fmt \<Rightarrow> log_value \<Rightarrow> string"
  and print_elems :: "log_fmt \<Rightarrow> nat \<Rightarrow> string \<Rightarrow> log_value list \<Rightarrow> string" where
  "printValue F (LBytes v) = print_text F v"
| "printValue F (LString v) = print_text F v"
| "printValue F (LList v) =
     (if v = [] then ''[]''
      else print_elems F chop ''['' v @ (if chop < length v then ''...]'' else '']''))"
| "printValue F (LOther t) = t"
| "print_elems F (Suc n) sep (v # vs) = sep @ printValue F v @ print_elems F n '', '' vs"
| "print_elems F n sep vs = []"

fun arg_value :: "log_fmt \<Rightarrow> arg \<Rightarrow> log_value" where
  "arg_value F (AStr s) = LString s"
| "arg_value F (ABytes p) = LBytes p"
| "arg_value F (AInt n) = LOther (itoa n)"
| "arg_value F (AInt64 n) = LOther (itoa n)"
| "arg_value F (AFloat x) = LOther (lf_float F x)"
| "arg_value F (ABool b) = LOther (if b then ''true'' else ''false'')"
| "arg_value F ANil = LOther ''<nil>''"
| "arg_value F (AOther t) = LOther t"

fun reply_value :: "reply \<Rightarrow> log_value" where
  "reply_value (RInt n) = LOther (itoa n)"
| "reply_value (RBulk p) = LBytes p"
| "reply_value (RStatus s) = LString s"
| "reply_value RNil = LOther ''<nil>''"
| "reply_value (RError m) = LOther m"
| "reply_value (RArray rs) = LList (map reply_value rs)"

section \<open>The wrapper\<close>

definition log_print ::
  "log_fmt \<Rightarrow> string \<Rightarrow> string \<Rightarrow> string \<Rightarrow> arg list \<Rightarrow> reply \<Rightarrow> go_error option \<Rightarrow> string" where
  "log_print F prefix meth commandName args reply err =
     prefix @ meth @ ''(''
     @ (if meth \<noteq> ''Receive''
        then commandName @ concat (map (\<lambda>a. '', '' @ printValue F (arg_value F a)) args) else [])
     @ '') -> (''
     @ (if meth \<noteq> ''Send'' then printValue F (reply_value reply) @ '', '' else [])
     @ lf_err F err @ '')''"

text \<open>The state of the connections and the lines so far.\<close>

type_synonym 'w logged = "'w \<times> string list"

definition lc_Close :: "log_fmt \<Rightarrow> string \<Rightarrow> 'w rnet \<Rightarrow> 'w logged \<Rightarrow> nat \<Rightarrow> 'w logged \<times> go_error option" where
  "lc_Close F prefix N s c =
     (let (w, err) = rn_close N (fst s) c
      in ((w, snd s @ [prefix @ ''Close() -> ('' @ lf_err F err @ '')'']), err))"

definition lc_Do ::
  "log_fmt \<Rightarrow> string \<Rightarrow> 'w rnet \<Rightarrow> 'w logged \<Rightarrow> nat \<Rightarrow> string \<Rightarrow> arg list \<Rightarrow> 'w logged \<times> reply \<times> go_error option" where
  "lc_Do F prefix N s c commandName args =
     (let (w, reply, err) = rn_do N (fst s) c commandName args
      in ((w, snd s @ [log_print F prefix ''Do'' commandName args reply err]), reply, err))"

definition lc_Send ::
  "log_fmt \<Rightarrow> string \<Rightarrow> 'w rnet \<Rightarrow> 'w logged \<Rightarrow> nat \<Rightarrow> string \<Rightarrow> arg list \<Rightarrow> 'w logged \<times> go_error option" where
  "lc_Send F prefix N s c commandName args =
     (let (w, err) = rn_send N (fst s) c commandName args
      in ((w, snd s @ [log_print F prefix ''Send'' commandName args RNil err]), err))"

definition lc_Receive :: "log_fmt \<Rightarrow> string \<Rightarrow> 'w rnet \<Rightarrow> 'w logged \<Rightarrow> nat \<Rightarrow> 'w logged \<times> reply \<times> go_error option" where
  "lc_Receive F prefix N s c =
     (let (w, reply, err) = rn_receive N (fst s) c
      in ((w, snd s @ [log_print F prefix ''Receive'' [] [] reply err]), reply, err))"

text \<open>\<open>Dial\<close> followed by \<open>NewLoggingConn\<close>.\<close>

definition newLoggingConn :: "log_fmt \<Rightarrow> string \<Rightarrow> 'w rnet \<Rightarrow> 'w logged rnet" where
  "newLoggingConn F prefix N =
     (let prefix = (if prefix \<noteq> [] then prefix @ ''.'' else prefix)
      in \<lparr>rn_dial = (\<lambda>s. let (w, x) = rn_dial N (fst s) in ((w, snd s), x)),
          rn_do = lc_Do F prefix N, rn_send = lc_Send F prefix N,
          rn_flush = (\<lambda>s c. let (w, e) = rn_flush N (fst s) c in ((w, snd s), e)),
          rn_receive = lc_Receive F prefix N, rn_err = (\<lambda>s. rn_err N (fst s)),
          rn_close = lc_Close F prefix N\<rparr>)"

lemmas logging_defs = newLoggingConn_def lc_Do_def lc_Send_def lc_Receive_def lc_Close_def Let_def

section \<open>Transparency\<close>

text \<open>The calls of a client on its connections, and what they return.\<close>

datatype conn_call = C_Do nat string "arg list" | C_Send nat string "arg list" | C_Flush nat | C_Receive nat | C_Close nat

fun call_step :: "'w rnet \<Rightarrow> 'w \<Rightarrow> conn_call \<Rightarrow> 'w \<times> reply \<times> go_error option" where
  "call_step N w (C_Do c cmd args) = rn_do N w c cmd args"
| "call_step N w (C_Send c cmd args) = (let (w', e) = rn_send N w c cmd args in (w', RNil, e))"
| "call_step N w (C_Flush c) = (let (w', e) = rn_flush N w c in (w', RNil, e))"
| "call_step N w (C_Receive c) = rn_receive N w c"
| "call_step N w (C_Close c) = (let (w', e) = rn_close N w c in (w', RNil, e))"

fun call_run :: "'w rnet \<Rightarrow> 'w \<Rightarrow> conn_call list \<Rightarrow> 'w \<times> (reply \<times> go_error option) list" where
  "call_run N w [] = (w, [])"
| "call_run N w (x # xs) =
     (let (w1, r) = call_step N w x; (w2, rs) = call_run N w1 xs in (w2, r # rs))"

fun logs :: "conn_call \<Rightarrow> bool" where
  "logs (C_Flush c) = False"
| "logs _ = True"

lemma call_step_logged:
  "\<exists>ls. call_step (newLoggingConn F prefix N) (w, lines) x
     = ((fst (call_step N w x), lines @ ls), snd (call_step N w x)) \<and> length ls = (if logs x then 1 else 0)"
  by (cases x) (auto simp: logging_defs split: prod.splits)

text \<open>A client of logging connections gets the same results from the same connections, and one line
  for each of its calls but \<open>Flush\<close>.\<close>

lemma logging_transparent:
  "\<exists>ls. call_run (newLoggingConn F prefix N) (w, lines) xs
     = ((fst (call_run N w xs), lines @ ls), snd (call_run N w xs)) \<and> length ls = length (filter logs xs)"
proof (induction xs arbitrary: w lines)
  case (Cons x xs)
  obtain w1 r where s: "call_step N w x = (w1, r)" by (cases "call_step N w x")
  obtain l1 where 1: "call_step (newLoggingConn F prefix N) (w, lines) x = ((w1, lines @ l1), r)"
    "length l1 = (if logs x then 1 else 0)"
    using call_step_logged [of F prefix N w lines x] s by auto
  from Cons.IH [of w1 "lines @ l1"] obtain l2 where
    "call_run (newLoggingConn F prefix N) (w1, lines @ l1) xs
      = ((fst (call_run N w1 xs), (lines @ l1) @ l2), snd (call_run N w1 xs))" "length l2 = length (filter logs xs)" by blast
  with s 1 show ?case by (auto intro!: exI [of _ "l1 @ l2"] split: prod.splits)
qed simp

text \<open>What the pool relies on of its connections holds of logging ones too.\<close>

lemma logged_simps:
  "rn_do (newLoggingConn F prefix N) s c cmd args =
     ((fst (rn_do N (fst s) c cmd args), snd (fst (rn_do (newLoggingConn F prefix N) s c cmd args))), snd (rn_do N (fst s) c cmd args))"
  "rn_receive (newLoggingConn F prefix N) s c =
     ((fst (rn_receive N (fst s) c), snd (fst (rn_receive (newLoggingConn F prefix N) s c))), snd (rn_receive N (fst s) c))"
  "rn_send (newLoggingConn F prefix N) s c cmd args =
     ((fst (rn_send N (fst s) c cmd args), snd (fst (rn_send (newLoggingConn F prefix N) s c cmd args))), snd (rn_send N (fst s) c cmd args))"
  "rn_flush (newLoggingConn F prefix N) s c = ((fst (rn_flush N (fst s) c), snd s), snd (rn_flush N (fst s) c))"
  "rn_err (newLoggingConn F prefix N) s c = rn_err N (fst s) c"
  by (simp_all add: logging_defs split: prod.splits)

context conn_client
begin

lemma logged_client: "conn_client (newLoggingConn F prefix N)"
proof
  fix w :: "'w logged" and c cmd args w' r e
  show "\<exists>m. e = RedisErr m" if "rn_do (newLoggingConn F prefix N) w c cmd args = (w', r, Some e)"
    "rn_err (newLoggingConn F prefix N) w' c = None"
    using that do_breaks [of "fst w" c cmd args "fst w'" r e] logged_simps(1) [of F prefix N w c cmd args]
    by (cases w', cases "rn_do N (fst w) c cmd args") (auto simp: logged_simps(5))
  show "\<exists>m. e = RedisErr m" if "rn_receive (newLoggingConn F prefix N) w c = (w', r, Some e)"
    "rn_err (newLoggingConn F prefix N) w' c = None"
    using that receive_breaks [of "fst w" c "fst w'" r e] logged_simps(2) [of F prefix N w c]
    by (cases w', cases "rn_receive N (fst w) c") (auto simp: logged_simps(5))
  show "rn_err (newLoggingConn F prefix N) w' c \<noteq> None"
    if "rn_send (newLoggingConn F prefix N) w c cmd args = (w', Some e)"
    using that send_breaks [of "fst w" c cmd args "fst w'" e] logged_simps(3) [of F prefix N w c cmd args]
    by (cases w', cases "rn_send N (fst w) c cmd args") (auto simp: logged_simps(5))
  show "rn_err (newLoggingConn F prefix N) w' c \<noteq> None"
    if "rn_flush (newLoggingConn F prefix N) w c = (w', Some e)"
    using that flush_breaks [of "fst w" c "fst w'" e]
    by (cases w', cases "rn_flush N (fst w) c") (auto simp: logged_simps(4,5))
  assume "rn_err (newLoggingConn F prefix N) w c \<noteq> None"
  then have w: "rn_err N (fst w) c \<noteq> None" by (simp add: logged_simps(5))
  show "rn_err (newLoggingConn F prefix N) (fst (rn_do (newLoggingConn F prefix N) w c cmd args)) c \<noteq> None"
    using do_sticky [OF w] by (subst logged_simps(1)) (simp add: logged_simps(5))
  show "rn_err (newLoggingConn F prefix N) (fst (rn_receive (newLoggingConn F prefix N) w c)) c \<noteq> None"
    using receive_sticky [OF w] by (subst logged_simps(2)) (simp add: logged_simps(5))
  show "rn_err (newLoggingConn F prefix N) (fst (rn_send (newLoggingConn F prefix N) w c cmd args)) c \<noteq> None"
    using send_sticky [OF w] by (subst logged_simps(3)) (simp add: logged_simps(5))
  show "rn_err (newLoggingConn F prefix N) (fst (rn_flush (newLoggingConn F prefix N) w c)) c \<noteq> None"
    using flush_sticky [OF w] by (simp add: logged_simps(4,5))
qed

end

interpretation logged_heap: conn_client "newLoggingConn F prefix (heap_net dial server)" for F prefix dial server
  by (rule heap.logged_client)

end
