(* ===== verification/ScanStruct.thy ===== *)
theory ScanStruct
  imports Scan Resp "HOL-Library.AList"
begin

text \<open>
  Structs as replies and as arguments (\<open>scan.go\<close> of the vendored Redis client): the specification of a
  struct type's fields, \<open>ScanStruct\<close>, \<open>ScanSlice\<close> and \<open>Args\<close>, and of \<open>reply.go\<close> the helpers \<open>Float64\<close>
  and \<open>Ints\<close>. A struct is the list of its fields; a field has its name, its \<open>PkgPath\<close> (empty when it is
  exported), whether it is embedded, its tag \<open>redis\<close> and its value, which shows its type. The cache of
  \<open>structSpecForType\<close> is left out: a specification depends on the type alone (\<open>spec_of_type\<close>).
\<close>

section \<open>Structs\<close>

datatype sval =
    Leaf dest
  | Struct "sfield list"
  | Opaque                      \<comment> \<open>a pointer, a map and the like\<close>
and sfield = SField string string bool string sval

fun sf_val :: "sfield \<Rightarrow> sval" where
  "sf_val (SField name pkgPath anonymous tag v) = v"

text \<open>\<open>FieldByIndex\<close>, to read a field and to change it; a path that leads nowhere does not occur.\<close>

fun field_at :: "sval \<Rightarrow> nat list \<Rightarrow> sval" where
  "field_at v [] = v"
| "field_at (Struct fs) (i # is) = (if i < length fs then field_at (sf_val (fs ! i)) is else Opaque)"
| "field_at _ (i # is) = Opaque"

fun with_val :: "(sval \<Rightarrow> sval) \<Rightarrow> sfield \<Rightarrow> sfield" where
  "with_val g (SField name pkgPath anonymous tag v) = SField name pkgPath anonymous tag (g v)"

fun set_at :: "sval \<Rightarrow> nat list \<Rightarrow> sval \<Rightarrow> sval" where
  "set_at v [] x = x"
| "set_at (Struct fs) (i # is) x =
     (if i < length fs then Struct (fs[i := with_val (\<lambda>v. set_at v is x) (fs ! i)]) else Struct fs)"
| "set_at v (i # is) x = v"

section \<open>The specification of a struct\<close>

record fieldSpec =
  sp_name :: string
  sp_index :: "nat list"

record structSpec =
  ss_m :: "(string \<times> fieldSpec) list"
  ss_l :: "fieldSpec list"

definition ss_fieldSpec :: "structSpec \<Rightarrow> bytes \<Rightarrow> fieldSpec option" where
  "ss_fieldSpec ss name = map_of (ss_m ss) name"

type_synonym depths = "(string \<times> nat) list"

definition drop_spec :: "string \<Rightarrow> structSpec \<Rightarrow> structSpec" where
  "drop_spec name ss = \<lparr>ss_m = AList.delete name (ss_m ss), ss_l = filter (\<lambda>f. sp_name f \<noteq> name) (ss_l ss)\<rparr>"

definition add_spec :: "fieldSpec \<Rightarrow> structSpec \<Rightarrow> structSpec" where
  "add_spec f ss = \<lparr>ss_m = AList.update (sp_name f) f (ss_m ss), ss_l = ss_l ss @ [f]\<rparr>"

text \<open>A field that is neither ignored nor embedded, under its name or its tag's.\<close>

definition compile_default ::
  "string \<Rightarrow> string \<Rightarrow> nat \<Rightarrow> depths \<Rightarrow> nat list \<Rightarrow> structSpec \<Rightarrow> (depths \<times> structSpec) go" where
  "compile_default name tag i depth index ss =
     (let p = split_on CHR '','' tag
      in if hd p = ''-'' then Return (depth, ss)
         else if tl p \<noteq> [] then Panic ''redigo: unknown field flag''
         else let nm = (if hd p \<noteq> [] then hd p else name);
                  d = (case map_of depth nm of None \<Rightarrow> 2 ^ 30 | Some d \<Rightarrow> d)
           in Return (if length index = d then (depth, drop_spec nm ss)
              else if length index < d
                then (AList.update nm (length index) depth, add_spec \<lparr>sp_name = nm, sp_index = index @ [i]\<rparr> ss)
              else (depth, ss)))"

function compile_fields :: "sfield list \<Rightarrow> nat \<Rightarrow> depths \<Rightarrow> nat list \<Rightarrow> structSpec \<Rightarrow> (depths \<times> structSpec) go"
  and compile_field :: "sfield \<Rightarrow> nat \<Rightarrow> depths \<Rightarrow> nat list \<Rightarrow> structSpec \<Rightarrow> (depths \<times> structSpec) go"
  and compile_embedded :: "sval \<Rightarrow> depths \<Rightarrow> nat list \<Rightarrow> structSpec \<Rightarrow> (depths \<times> structSpec) go" where
  "compile_fields [] i depth index ss = Return (depth, ss)"
| "compile_fields (f # fs) i depth index ss =
     go_bind (compile_field f i depth index ss) (\<lambda>(depth', ss'). compile_fields fs (Suc i) depth' index ss')"
| "compile_field (SField name pkgPath anonymous tag v) i depth index ss =
     (if pkgPath \<noteq> [] then Return (depth, ss)
      else if anonymous then compile_embedded v depth (index @ [i]) ss
      else compile_default name tag i depth index ss)"
| "compile_embedded (Struct fs) depth index ss = compile_fields fs 0 depth index ss"
| "compile_embedded (Leaf d) depth index ss = Return (depth, ss)"
| "compile_embedded Opaque depth index ss = Return (depth, ss)"
  by pat_completeness auto
termination
  by (relation "measure (\<lambda>x. case x of
      Inl (fs, i, d, j, ss) \<Rightarrow> size_list size fs
    | Inr (Inl (f, i, d, j, ss)) \<Rightarrow> size f
    | Inr (Inr (v, d, j, ss)) \<Rightarrow> size v)") auto

definition structSpecForType :: "sfield list \<Rightarrow> structSpec go" where
  "structSpecForType fs =
     go_bind (compile_fields fs 0 [] [] \<lparr>ss_m = [], ss_l = []\<rparr>) (\<lambda>(depth, ss). Return ss)"

section \<open>ScanStruct\<close>

type_synonym parse_float = "nat \<Rightarrow> string \<Rightarrow> float64 \<times> go_error option"

text \<open>A field that is no variable of a basic type is rejected.\<close>

fun assign_field :: "parse_float \<Rightarrow> sval \<Rightarrow> reply \<Rightarrow> sval \<times> go_error option" where
  "assign_field pf (Leaf d) s = map_prod Leaf id (convertAssignValue pf d s)"
| "assign_field pf v s = (v, Some (ErrReplyType ''Scan''))"

definition assign_at :: "parse_float \<Rightarrow> sval \<Rightarrow> nat list \<Rightarrow> reply \<Rightarrow> sval \<times> go_error option" where
  "assign_at pf v index s = (let (x, err) = assign_field pf (field_at v index) s in (set_at v index x, err))"

fun scanStruct_loop :: "parse_float \<Rightarrow> structSpec \<Rightarrow> sval \<Rightarrow> reply list \<Rightarrow> sval \<times> go_error option" where
  "scanStruct_loop pf ss v (k # s # src) =
     (if s = RNil then scanStruct_loop pf ss v src
      else case k of
        RBulk name \<Rightarrow>
          (case ss_fieldSpec ss name of None \<Rightarrow> scanStruct_loop pf ss v src
           | Some f \<Rightarrow>
               (let (v', err) = assign_at pf v (sp_index f) s
                in if err \<noteq> None then (v', err) else scanStruct_loop pf ss v' src))
      | _ \<Rightarrow> (v, Some (ErrOther ''redigo: ScanStruct key not a bulk string value'')))"
| "scanStruct_loop pf ss v src = (v, None)"

text \<open>A destination is a pointer to the variable; \<open>None\<close> is a nil pointer or no pointer at all.\<close>

definition errScanStructValue :: go_error where
  "errScanStructValue = ErrOther ''redigo: ScanStruct value must be non-nil pointer to a struct''"

definition scanStruct :: "parse_float \<Rightarrow> reply list \<Rightarrow> sval option \<Rightarrow> (sval option \<times> go_error option) go" where
  "scanStruct pf src dest =
     (case dest of
        Some (Struct fs) \<Rightarrow>
          go_bind (structSpecForType fs) (\<lambda>ss.
            if odd (length src)
              then Return (dest, Some (ErrOther ''redigo: ScanStruct expects even number of values in values''))
            else Return (map_prod Some id (scanStruct_loop pf ss (Struct fs) src)))
      | _ \<Rightarrow> Return (dest, Some errScanStructValue))"

section \<open>ScanSlice\<close>

text \<open>
  A slice with its elements up to its capacity and the zero value of its elements; an element of a
  slice of pointers to structs may be nil.
\<close>

record sslice =
  sl_len :: nat
  sl_elems :: "sval option list"
  sl_isPtr :: bool
  sl_type :: sval

definition sl_ensureLen :: "sslice \<Rightarrow> nat \<Rightarrow> sslice" where
  "sl_ensureLen d n = d\<lparr>sl_len := n,
     sl_elems := ensureLen (sl_elems d) (if sl_isPtr d then None else Some (sl_type d)) n\<rparr>"

fun scanSlice_elems :: "parse_float \<Rightarrow> sval option list \<Rightarrow> reply list \<Rightarrow> sval option list \<times> go_error option" where
  "scanSlice_elems pf (d # ds) (s # src) =
     (if s = RNil then map_prod (Cons d) id (scanSlice_elems pf ds src)
      else case assign_field pf (the d) s of
        (d', Some e) \<Rightarrow> (Some d' # ds, Some e)
      | (d', None) \<Rightarrow> map_prod (Cons (Some d')) id (scanSlice_elems pf ds src))"
| "scanSlice_elems pf ds src = (ds, None)"

fun scanSlice_names :: "structSpec \<Rightarrow> string list \<Rightarrow> go_error + fieldSpec list" where
  "scanSlice_names ss [] = Inr []"
| "scanSlice_names ss (name # names) =
     (case map_of (ss_m ss) name of None \<Rightarrow> Inl (ErrOther ''redigo: ScanSlice bad field name'')
      | Some f \<Rightarrow> (case scanSlice_names ss names of Inl e \<Rightarrow> Inl e | Inr fs \<Rightarrow> Inr (f # fs)))"

fun scanSlice_row :: "parse_float \<Rightarrow> sval \<Rightarrow> fieldSpec list \<Rightarrow> reply list \<Rightarrow> sval \<times> go_error option" where
  "scanSlice_row pf v (f # fss) (s # src) =
     (if s = RNil then scanSlice_row pf v fss src
      else let (v', err) = assign_at pf v (sp_index f) s
        in if err \<noteq> None then (v', err) else scanSlice_row pf v' fss src)"
| "scanSlice_row pf v fss src = (v, None)"

fun scanSlice_rows ::
  "parse_float \<Rightarrow> sval \<Rightarrow> fieldSpec list \<Rightarrow> nat \<Rightarrow> sval option list \<Rightarrow> reply list
     \<Rightarrow> sval option list \<times> go_error option" where
  "scanSlice_rows pf t fss (Suc n) (d # ds) src =
     (case scanSlice_row pf (case d of None \<Rightarrow> t | Some v \<Rightarrow> v) fss (take (length fss) src) of
        (v, Some e) \<Rightarrow> (Some v # ds, Some e)
      | (v, None) \<Rightarrow> map_prod (Cons (Some v)) id (scanSlice_rows pf t fss n ds (drop (length fss) src)))"
| "scanSlice_rows pf t fss n ds src = (ds, None)"

definition errScanSliceValue :: go_error where
  "errScanSliceValue = ErrOther ''redigo: ScanSlice dest must be non-nil pointer to a struct''"

definition scanSlice ::
  "parse_float \<Rightarrow> reply list \<Rightarrow> sslice option \<Rightarrow> string list \<Rightarrow> (sslice option \<times> go_error option) go" where
  "scanSlice pf src dest fieldNames =
     (case dest of None \<Rightarrow> Return (None, Some errScanSliceValue)
      | Some d \<Rightarrow>
          (case sl_type d of
             Struct fs \<Rightarrow>
               go_bind (structSpecForType fs) (\<lambda>ss.
                 case (if fieldNames \<noteq> [] then scanSlice_names ss fieldNames else Inr (ss_l ss)) of
                   Inl e \<Rightarrow> Return (dest, Some e)
                 | Inr fss \<Rightarrow>
                     (if fss = [] then Return (dest, Some (ErrOther ''redigo: ScanSlice no struct fields''))
                      else let n = length src div length fss
                        in if n * length fss \<noteq> length src
                             then Return (dest, Some (ErrOther ''redigo: ScanSlice length not a multiple of struct field count''))
                           else let d1 = sl_ensureLen d n;
                                    (elems, err) = scanSlice_rows pf (sl_type d) fss n (sl_elems d1) src
                             in Return (Some (d1\<lparr>sl_elems := elems\<rparr>), err)))
           | _ \<Rightarrow>
               (let d1 = sl_ensureLen d (length src);
                    (elems, err) = scanSlice_elems pf (sl_elems d1) src
                in Return (Some (d1\<lparr>sl_elems := elems\<rparr>), err))))"

section \<open>Float64 and Ints\<close>

definition reply_float64 :: "parse_float \<Rightarrow> reply \<Rightarrow> go_error option \<Rightarrow> float64 \<times> go_error option" where
  "reply_float64 pf r err =
     (if err \<noteq> None then (Fin 0, err)
      else case r of RBulk s \<Rightarrow> pf 64 s | _ \<Rightarrow> reply_rest ''Float64'' (Fin 0) r)"

fun leaf_int :: "sval option \<Rightarrow> int" where
  "leaf_int (Some (Leaf (DInt bits n))) = n"
| "leaf_int _ = 0"

definition reply_ints :: "parse_float \<Rightarrow> reply \<Rightarrow> go_error option \<Rightarrow> (int list \<times> go_error option) go" where
  "reply_ints pf r err =
     (if r = RNil then Return ([], Some ErrNil)
      else let (vs, err') = reply_values r err
        in if err' \<noteq> None then Return ([], err')
           else go_bind (scanSlice pf vs (Some \<lparr>sl_len = 0, sl_elems = [], sl_isPtr = False, sl_type = Leaf (DInt 0 0)\<rparr>) [])
             (\<lambda>(d, err''). Return (case d of None \<Rightarrow> [] | Some d \<Rightarrow> map leaf_int (take (sl_len d) (sl_elems d)), err'')))"

section \<open>Args\<close>

text \<open>The dynamic value of a field; \<open>fmt\<close> is the text of a value that \<open>writeArg\<close> has no case for.\<close>

fun interface_of :: "(sval \<Rightarrow> string) \<Rightarrow> sval \<Rightarrow> arg" where
  "interface_of fmt (Leaf (DString s)) = AStr s"
| "interface_of fmt (Leaf (DBytes p)) = ABytes p"
| "interface_of fmt (Leaf (DInt bits n)) = (if bits = 0 then AInt n else if bits = 64 then AInt64 n else AOther (itoa n))"
| "interface_of fmt (Leaf (DUint bits n)) = AOther (itoa (int n))"
| "interface_of fmt (Leaf (DFloat bits x)) = (if bits = 64 then AFloat x else AOther (fmt (Leaf (DFloat bits x))))"
| "interface_of fmt (Leaf (DBool b)) = ABool b"
| "interface_of fmt v = AOther (fmt v)"

text \<open>What \<open>AddFlat\<close> is given; a map is its entries in the order in which \<open>MapKeys\<close> names the keys.\<close>

datatype flat = F_struct "sfield list" | F_slice "arg list" | F_map "(arg \<times> arg) list"
  | F_ptr "sfield list option" | F_other arg

definition args_Add :: "arg list \<Rightarrow> arg list \<Rightarrow> arg list" where
  "args_Add args value = args @ value"

definition flattenStruct :: "(sval \<Rightarrow> string) \<Rightarrow> arg list \<Rightarrow> sfield list \<Rightarrow> arg list go" where
  "flattenStruct fmt args fs =
     go_bind (structSpecForType fs) (\<lambda>ss.
       Return (fold (\<lambda>f as. as @ [AStr (sp_name f), interface_of fmt (field_at (Struct fs) (sp_index f))]) (ss_l ss) args))"

definition args_AddFlat :: "(sval \<Rightarrow> string) \<Rightarrow> arg list \<Rightarrow> flat \<Rightarrow> arg list go" where
  "args_AddFlat fmt args v =
     (case v of
        F_struct fs \<Rightarrow> flattenStruct fmt args fs
      | F_slice vs \<Rightarrow> Return (args @ vs)
      | F_map kvs \<Rightarrow> Return (fold (\<lambda>(k, v) as. as @ [k, v]) kvs args)
      | F_ptr p \<Rightarrow> (case p of None \<Rightarrow> Return args | Some fs \<Rightarrow> flattenStruct fmt args fs)
      | F_other a \<Rightarrow> Return (args @ [a]))"

section \<open>Paths\<close>

text \<open>The type of a value, as the value with its variables set to zero.\<close>

fun zero_dest :: "dest \<Rightarrow> dest" where
  "zero_dest (DString s) = DString []"
| "zero_dest (DBytes b) = DBytes []"
| "zero_dest (DInt bits n) = DInt bits 0"
| "zero_dest (DUint bits n) = DUint bits 0"
| "zero_dest (DFloat bits x) = DFloat bits (Fin 0)"
| "zero_dest (DBool b) = DBool False"
| "zero_dest (DInterface r) = DInterface RNil"
| "zero_dest (DValues rs) = DValues []"
| "zero_dest (DSlice len elems zero) = DSlice 0 [] zero"
| "zero_dest DNone = DNone"
| "zero_dest DOther = DOther"

fun zero_val :: "sval \<Rightarrow> sval" and zero_field :: "sfield \<Rightarrow> sfield" where
  "zero_val (Leaf d) = Leaf (zero_dest d)"
| "zero_val (Struct fs) = Struct (map zero_field fs)"
| "zero_val Opaque = Opaque"
| "zero_field (SField name pkgPath anonymous tag v) = SField name pkgPath anonymous tag (zero_val v)"

lemma sf_val_zero [simp]: "sf_val (zero_field f) = zero_val (sf_val f)"
  by (cases f) simp

lemma sf_val_with [simp]: "sf_val (with_val g f) = g (sf_val f)"
  by (cases f) simp

lemma field_at_zero: "field_at (zero_val v) p = zero_val (field_at v p)"
  by (induction v p rule: field_at.induct) auto

lemma set_at_same: "field_at v p = Leaf d \<Longrightarrow> field_at (set_at v p x) p = x"
  by (induction v p x rule: set_at.induct) (auto split: if_splits)

lemma set_at_other:
  "field_at v p = Leaf d \<Longrightarrow> field_at v q = Leaf e \<Longrightarrow> p \<noteq> q \<Longrightarrow> field_at (set_at v p x) q = field_at v q"
proof (induction v p x arbitrary: q rule: set_at.induct)
  case (1 v x)
  then show ?case by (cases q) auto
next
  case (2 fs i "is" x)
  then show ?case by (cases q) (auto simp: nth_list_update split: if_splits)
qed (auto split: if_splits)

lemma zero_with: "zero_val (g (sf_val f)) = zero_val (sf_val f) \<Longrightarrow> zero_field (with_val g f) = zero_field f"
  by (cases f) simp

lemma set_at_zero: "zero_val x = zero_val (field_at v p) \<Longrightarrow> zero_val (set_at v p x) = zero_val v"
proof (induction v p x rule: set_at.induct)
  case (2 fs i "is" x)
  then show ?case
    by (auto simp: map_update zero_with intro!: list_update_same_conv [THEN iffD2])
qed auto

section \<open>Specifications\<close>

text \<open>The map of a specification finds the last of the list under a name.\<close>

definition spec_ok :: "structSpec \<Rightarrow> bool" where
  "spec_ok ss \<longleftrightarrow> (\<forall>n. map_of (ss_m ss) n =
     (let fs = filter (\<lambda>f. sp_name f = n) (ss_l ss) in if fs = [] then None else Some (last fs)))"

lemma spec_ok_drop: "spec_ok ss \<Longrightarrow> spec_ok (drop_spec n ss)"
  by (auto simp: spec_ok_def drop_spec_def delete_conv' Let_def conj_commute cong: conj_cong)

lemma spec_ok_add: "spec_ok ss \<Longrightarrow> spec_ok (add_spec f ss)"
  by (auto simp: spec_ok_def add_spec_def update_conv' Let_def)

lemma compile_default_cases:
  assumes "compile_default name tag i depth index ss = Return (d', ss')"
  obtains "ss' = ss" | n where "ss' = drop_spec n ss"
    | f where "ss' = add_spec f ss" "sp_index f = index @ [i]"
  using assms by (auto simp: compile_default_def Let_def split: if_splits)

lemma compile_spec_ok:
  "compile_fields fs i depth index ss = Return (d', ss') \<Longrightarrow> spec_ok ss \<Longrightarrow> spec_ok ss'"
  "compile_field f i depth index ss = Return (d', ss') \<Longrightarrow> spec_ok ss \<Longrightarrow> spec_ok ss'"
  "compile_embedded v depth index ss = Return (d', ss') \<Longrightarrow> spec_ok ss \<Longrightarrow> spec_ok ss'"
proof (induction fs i depth index ss and f i depth index ss and v depth index ss
    arbitrary: d' ss' and d' ss' and d' ss' rule: compile_fields_compile_field_compile_embedded.induct)
  case (3 name pkgPath anonymous tag v i depth index ss)
  then show ?case
    by (auto split: if_splits elim!: compile_default_cases intro: spec_ok_drop spec_ok_add)
qed (auto simp: go_bind_Return)

text \<open>Every path of a specification is the path of a field that was met, and each is met once.\<close>

definition path_under :: "nat list \<Rightarrow> nat \<Rightarrow> nat list \<Rightarrow> bool" where
  "path_under index i p \<longleftrightarrow> (\<exists>k r. p = index @ k # r \<and> i \<le> k)"

lemma path_under_Suc:
  "path_under index (Suc i) p \<Longrightarrow> path_under index i p"
  "path_under index i (index @ i # r)"
  "\<not> path_under index (Suc i) (index @ i # r)"
  by (auto simp: path_under_def)

definition paths_ok :: "(nat list \<Rightarrow> bool) \<Rightarrow> structSpec \<Rightarrow> structSpec \<Rightarrow> bool" where
  "paths_ok new ss ss' \<longleftrightarrow> distinct (map sp_index (ss_l ss'))
     \<and> (\<forall>f \<in> set (ss_l ss'). f \<in> set (ss_l ss) \<or> new (sp_index f))"

lemma compile_paths:
  "compile_fields fs i depth index ss = Return (d', ss') \<Longrightarrow> distinct (map sp_index (ss_l ss)) \<Longrightarrow>
   \<forall>f \<in> set (ss_l ss). \<not> path_under index i (sp_index f) \<Longrightarrow> paths_ok (path_under index i) ss ss'"
  "compile_field f i depth index ss = Return (d', ss') \<Longrightarrow> distinct (map sp_index (ss_l ss)) \<Longrightarrow>
   \<forall>f \<in> set (ss_l ss). \<not> path_under index i (sp_index f) \<Longrightarrow> paths_ok (\<lambda>p. \<exists>r. p = index @ i # r) ss ss'"
  "compile_embedded v depth index ss = Return (d', ss') \<Longrightarrow> distinct (map sp_index (ss_l ss)) \<Longrightarrow>
   \<forall>f \<in> set (ss_l ss). \<not> path_under index 0 (sp_index f) \<Longrightarrow> paths_ok (path_under index 0) ss ss'"
proof (induction fs i depth index ss and f i depth index ss and v depth index ss
    arbitrary: d' ss' and d' ss' and d' ss' rule: compile_fields_compile_field_compile_embedded.induct)
  case (1 i depth index ss)
  then show ?case by (simp add: paths_ok_def)
next
  case (2 f fs i depth index ss)
  from "2.prems"(1) obtain d1 s1 where 1: "compile_field f i depth index ss = Return (d1, s1)"
    "compile_fields fs (Suc i) d1 index s1 = Return (d', ss')" by (auto simp: go_bind_Return)
  from "2.IH"(1) [OF 1(1) "2.prems"(2,3)] have p1: "paths_ok (\<lambda>p. \<exists>r. p = index @ i # r) ss s1" .
  have "\<not> path_under index (Suc i) (sp_index g)" if g: "g \<in> set (ss_l s1)" for g
  proof -
    from p1 g consider "g \<in> set (ss_l ss)" | r where "sp_index g = index @ i # r"
      by (auto simp: paths_ok_def)
    then show ?thesis
    proof cases
      case 1
      with "2.prems"(3) path_under_Suc(1) show ?thesis by blast
    qed (simp add: path_under_Suc(3))
  qed
  with "2.IH"(2) [OF 1(2)] p1 have "paths_ok (path_under index (Suc i)) s1 ss'"
    by (simp add: paths_ok_def)
  with p1 show ?case by (fastforce simp: paths_ok_def path_under_def)
next
  case (3 name pkgPath anonymous tag v i depth index ss)
  show ?case
  proof (cases "pkgPath \<noteq> []")
    case True
    with "3.prems" show ?thesis by (simp add: paths_ok_def)
  next
    case exported: False
    show ?thesis
    proof (cases anonymous)
      case True
      with "3.prems" exported have c: "compile_embedded v depth (index @ [i]) ss = Return (d', ss')" by simp
      have "\<forall>f \<in> set (ss_l ss). \<not> path_under (index @ [i]) 0 (sp_index f)"
        using "3.prems"(3) by (fastforce simp: path_under_def)
      from "3.IH" [OF _ True c "3.prems"(2) this] exported show ?thesis
        by (fastforce simp: paths_ok_def path_under_def)
    next
      case False
      with "3.prems" exported have "compile_default name tag i depth index ss = Return (d', ss')" by simp
      then show ?thesis
      proof (cases rule: compile_default_cases)
        case (2 n)
        with "3.prems"(2) show ?thesis by (auto simp: paths_ok_def drop_spec_def distinct_map_filter)
      next
        case (3 f)
        have "sp_index f \<notin> sp_index ` set (ss_l ss)"
          using "3.prems"(3) path_under_Suc(2) [of index i "[]"] unfolding 3(2) by (metis imageE)
        with "3.prems"(2) 3 show ?thesis by (simp add: paths_ok_def add_spec_def)
      qed (use "3.prems"(2) in \<open>simp add: paths_ok_def\<close>)
    qed
  qed
qed (auto simp: paths_ok_def)

lemma compile_zero:
  "compile_fields (map zero_field fs) i depth index ss = compile_fields fs i depth index ss"
  "compile_field (zero_field f) i depth index ss = compile_field f i depth index ss"
  "compile_embedded (zero_val v) depth index ss = compile_embedded v depth index ss"
proof (induction fs i depth index ss and f i depth index ss and v depth index ss
    rule: compile_fields_compile_field_compile_embedded.induct)
  case (2 f fs i depth index ss)
  then show ?case by (cases "compile_field f i depth index ss") auto
qed auto

lemma spec_of_type: "zero_val (Struct fs) = zero_val (Struct gs) \<Longrightarrow> structSpecForType fs = structSpecForType gs"
  using compile_zero(1) [of fs] compile_zero(1) [of gs] by (simp add: structSpecForType_def)

lemma filter_one: "distinct (map g xs) \<Longrightarrow> x \<in> set xs \<Longrightarrow> filter (\<lambda>y. g y = g x) xs = [x]"
  by (induction xs) (auto simp: filter_empty_conv image_iff)

lemma spec_facts:
  assumes "structSpecForType fs = Return ss"
  shows "distinct (map sp_index (ss_l ss))"
    and "distinct (map sp_name (ss_l ss)) \<Longrightarrow> f \<in> set (ss_l ss) \<Longrightarrow> ss_fieldSpec ss (sp_name f) = Some f"
proof -
  from assms obtain d where c: "compile_fields fs 0 [] [] \<lparr>ss_m = [], ss_l = []\<rparr> = Return (d, ss)"
    by (auto simp: structSpecForType_def go_bind_Return)
  from compile_paths(1) [OF c] show "distinct (map sp_index (ss_l ss))" by (simp add: paths_ok_def)
  from compile_spec_ok(1) [OF c] have ok: "spec_ok ss" by (simp add: spec_ok_def)
  assume f: "distinct (map sp_name (ss_l ss))" "f \<in> set (ss_l ss)"
  then have "filter (\<lambda>g. sp_name g = sp_name f) (ss_l ss) = [f]"
    by (rule filter_one)
  with ok show "ss_fieldSpec ss (sp_name f) = Some f" by (simp add: spec_ok_def ss_fieldSpec_def)
qed

section \<open>Texts\<close>

lemma parse_uint10_digits: "int n < 2 ^ bits \<Longrightarrow> parse_uint10 bits (nat_digits n) = (n, None)"
  by (simp add: parse_uint10_def digits_in_nat_digits del: digits_in.simps)

lemma parse_int10_itoa:
  assumes "0 < bits" and "- (2 ^ (bits - 1)) \<le> n" and "n < 2 ^ (bits - 1)"
  shows "parse_int10 bits (itoa n) = (n, None)"
proof -
  have w: "2 * 2 ^ (bits - 1) = (2 :: int) ^ bits" using assms(1) by (simp flip: power_Suc)
  have p: "(0 :: int) < 2 ^ (bits - 1)" by simp
  show ?thesis
  proof (cases "n < 0")
    case True
    from assms(2) w p True have "int (nat (- n)) < 2 ^ bits" by linarith
    from parse_uint10_digits [OF this] True assms(2) show ?thesis
      by (simp add: parse_int10_def itoa_def)
  next
    case False
    obtain c cs where d: "nat_digits (nat n) = c # cs" by (cases "nat_digits (nat n)") auto
    then have c: "is_digit c" using nat_digits_digits [of c "nat n"] by simp
    from assms(3) w p False have "int (nat n) < 2 ^ bits" by linarith
    from parse_uint10_digits [OF this] d have "parse_uint10 bits (c # cs) = (nat n, None)" by simp
    with False assms(3) c d show ?thesis
      by (simp add: parse_int10_def itoa_def is_digit_not_sign)
  qed
qed

text \<open>What a command writes of a field.\<close>

definition field_text :: "(float64 \<Rightarrow> string) \<Rightarrow> (sval \<Rightarrow> string) \<Rightarrow> sval \<Rightarrow> bytes" where
  "field_text show fmt v = arg_text show (interface_of fmt v)"

text \<open>
  The variables that a text can be read back into: an integer is within its width, and the text of a
  floating point number parses to it.
\<close>

fun storable :: "parse_float \<Rightarrow> (float64 \<Rightarrow> string) \<Rightarrow> (sval \<Rightarrow> string) \<Rightarrow> sval \<Rightarrow> bool" where
  "storable pf show fmt (Leaf (DString s)) = True"
| "storable pf show fmt (Leaf (DBytes b)) = True"
| "storable pf show fmt (Leaf (DBool b)) = True"
| "storable pf show fmt (Leaf (DInt bits n)) = (- (2 ^ (width bits - 1)) \<le> n \<and> n < 2 ^ (width bits - 1))"
| "storable pf show fmt (Leaf (DUint bits n)) = (int n < 2 ^ width bits)"
| "storable pf show fmt (Leaf (DFloat bits x)) = (pf bits (field_text show fmt (Leaf (DFloat bits x))) = (x, None))"
| "storable pf show fmt _ = False"

lemma assign_field_text:
  assumes "storable pf show fmt v" and "zero_val u = zero_val v"
  shows "assign_field pf u (RBulk (field_text show fmt v)) = (v, None)"
proof -
  from assms(1) obtain d where v: "v = Leaf d" by (cases v) auto
  with assms(2) obtain e where u: "u = Leaf e" "zero_dest e = zero_dest d" by (cases u) auto
  show ?thesis
  proof (cases d)
    case (DInt bits n)
    with u(2) obtain m where "e = DInt bits m" by (cases e) auto
    moreover have "parse_int10 (width bits) (itoa n) = (n, None)" "set_int bits n = n"
      using assms(1) by (auto simp: v DInt set_int_id width_def [of bits] intro!: parse_int10_itoa)
    moreover have "field_text show fmt (Leaf (DInt bits n)) = itoa n" by (simp add: field_text_def)
    ultimately show ?thesis
      by (simp add: v u(1) DInt convertAssignValue_def convertAssignBytes_def)
  next
    case (DUint bits n)
    with u(2) obtain m where "e = DUint bits m" by (cases e) auto
    with assms(1) DUint show ?thesis
      by (simp add: v u(1) field_text_def convertAssignValue_def convertAssignBytes_def itoa_def
          parse_uint10_digits set_uint_def nat_less_iff flip: of_nat_less_iff)
  next
    case (DFloat bits x)
    with u(2) obtain y where "e = DFloat bits y" by (cases e) auto
    with assms(1) DFloat show ?thesis
      by (simp add: v u(1) convertAssignValue_def convertAssignBytes_def)
  qed (use assms(1) u(2) v in \<open>cases e; simp add: u(1) field_text_def convertAssignValue_def
    convertAssignBytes_def parse_bool_def\<close>)+
qed

section \<open>A struct reads back\<close>

definition field_words :: "(float64 \<Rightarrow> string) \<Rightarrow> (sval \<Rightarrow> string) \<Rightarrow> sval \<Rightarrow> fieldSpec list \<Rightarrow> reply list" where
  "field_words show fmt v l =
     concat (map (\<lambda>f. [RBulk (sp_name f), RBulk (field_text show fmt (field_at v (sp_index f)))]) l)"

lemma flatten_words:
  "map (RBulk \<circ> arg_text show)
     (fold (\<lambda>f as. as @ [AStr (sp_name f), interface_of fmt (field_at v (sp_index f))]) l as)
   = map (RBulk \<circ> arg_text show) as @ field_words show fmt v l"
  by (induction l arbitrary: as) (simp_all add: field_words_def field_text_def)

lemma scan_words:
  assumes "\<forall>f \<in> set l. ss_fieldSpec ss (sp_name f) = Some f" and "distinct (map sp_index l)"
    and "\<forall>f \<in> set l. storable pf show fmt (field_at v (sp_index f))" and "zero_val w = zero_val v"
  shows "\<exists>w'. scanStruct_loop pf ss w (field_words show fmt v l) = (w', None)
    \<and> (\<forall>f \<in> set l. field_at w' (sp_index f) = field_at v (sp_index f))
    \<and> (\<forall>q d. q \<notin> sp_index ` set l \<longrightarrow> field_at w q = Leaf d \<longrightarrow> field_at w' q = Leaf d)"
  using assms
proof (induction l arbitrary: w)
  case (Cons f l)
  let ?p = "sp_index f"
  have z: "zero_val (field_at w p) = zero_val (field_at v p)" for p
    using Cons.prems(4) by (simp flip: field_at_zero)
  from Cons.prems(3) have st: "storable pf show fmt (field_at v ?p)" by simp
  then obtain d where d: "field_at v ?p = Leaf d" by (cases "field_at v ?p") auto
  with z [of ?p] obtain e where e: "field_at w ?p = Leaf e" by (cases "field_at w ?p") auto
  let ?w = "set_at w ?p (Leaf d)"
  have "assign_at pf w ?p (RBulk (field_text show fmt (field_at v ?p))) = (?w, None)"
    using assign_field_text [OF st z] by (simp add: assign_at_def d)
  then have step: "scanStruct_loop pf ss w (field_words show fmt v (f # l)) = scanStruct_loop pf ss ?w (field_words show fmt v l)"
    using Cons.prems(1) by (simp add: field_words_def)
  have "zero_val ?w = zero_val v"
    using set_at_zero [of "Leaf d" w ?p] z [of ?p] Cons.prems(4) d by simp
  with Cons.IH [of ?w] Cons.prems(1-3) obtain w' where w': "scanStruct_loop pf ss ?w (field_words show fmt v l) = (w', None)"
    "\<forall>f \<in> set l. field_at w' (sp_index f) = field_at v (sp_index f)"
    "\<forall>q d. q \<notin> sp_index ` set l \<longrightarrow> field_at ?w q = Leaf d \<longrightarrow> field_at w' q = Leaf d" by auto
  have "field_at w' ?p = field_at v ?p"
    using w'(3) Cons.prems(2) set_at_same [OF e, of "Leaf d"] d by simp
  moreover have "field_at w' q = Leaf c" if "q \<noteq> ?p" "q \<notin> sp_index ` set l" "field_at w q = Leaf c" for q c
    using w'(3) set_at_other [OF e that(3), of "Leaf d"] that by auto
  ultimately show ?case using step w'(1,2) by auto
qed (simp add: field_words_def)

lemma struct_back:
  assumes spec: "structSpecForType fs = Return ss" and names: "distinct (map sp_name (ss_l ss))"
    and "\<forall>f \<in> set (ss_l ss). storable pf show fmt (field_at (Struct fs) (sp_index f))"
    and tyeq: "zero_val (Struct gs) = zero_val (Struct fs)"
  shows "\<exists>args w. args_AddFlat fmt [] (F_struct fs) = Return args
    \<and> scanStruct pf (map (RBulk \<circ> arg_text show) args) (Some (Struct gs)) = Return (Some w, None)
    \<and> (\<forall>f \<in> set (ss_l ss). field_at w (sp_index f) = field_at (Struct fs) (sp_index f))
    \<and> (\<forall>q d. q \<notin> sp_index ` set (ss_l ss) \<longrightarrow> field_at (Struct gs) q = Leaf d \<longrightarrow> field_at w q = Leaf d)"
proof -
  have "\<forall>f \<in> set (ss_l ss). ss_fieldSpec ss (sp_name f) = Some f"
    using spec_facts(2) [OF spec names] by blast
  from scan_words [OF this spec_facts(1) [OF spec] assms(3) tyeq] obtain w where w:
    "scanStruct_loop pf ss (Struct gs) (field_words show fmt (Struct fs) (ss_l ss)) = (w, None)"
    "\<forall>f \<in> set (ss_l ss). field_at w (sp_index f) = field_at (Struct fs) (sp_index f)"
    "\<forall>q d. q \<notin> sp_index ` set (ss_l ss) \<longrightarrow> field_at (Struct gs) q = Leaf d \<longrightarrow> field_at w q = Leaf d" by blast
  have "even (length (field_words show fmt (Struct fs) l))" for l
    by (induction l) (simp_all add: field_words_def)
  with w(1) have "scanStruct pf (field_words show fmt (Struct fs) (ss_l ss)) (Some (Struct gs)) = Return (Some w, None)"
    by (simp add: scanStruct_def spec_of_type [OF tyeq] spec)
  with w(2,3) flatten_words [of "show" fmt "Struct fs" "ss_l ss" "[]"] show ?thesis
    by (auto simp: args_AddFlat_def flattenStruct_def spec)
qed

text \<open>
  A field of the struct itself that comes after an embedded one of the same name takes the name over,
  but the embedded one stays in the list: \<open>AddFlat\<close> writes the name twice, and \<open>ScanSlice\<close> expects
  two columns.
\<close>

lemma embedded_field_twice:
  "map_option (map sp_index \<circ> ss_l) (case structSpecForType
     [SField ''Base'' [] True [] (Struct [SField ''A'' [] False [] (Leaf (DInt 0 1))]),
      SField ''A'' [] False [] (Leaf (DInt 0 2))] of Return ss \<Rightarrow> Some ss | _ \<Rightarrow> None) = Some [[0, 0], [1]]"
  by (simp add: structSpecForType_def compile_default_def add_spec_def Let_def)

text \<open>\<open>Ints\<close> looks at the reply before the error: the error of a failed call becomes \<open>ErrNil\<close>.\<close>

lemma ints_hides_error: "reply_ints pf RNil (Some e) = Return ([], Some ErrNil)"
  by (simp add: reply_ints_def)

section \<open>Property\<close>

text \<open>
  C35. A struct written as the arguments of a command and read back from the reply is the same in every
  field of its specification: for a struct type whose exported fields have different names, of any
  nesting, \<open>AddFlat\<close> gives arguments whose texts, returned as bulk strings, \<open>ScanStruct\<close> stores without
  an error in any struct of the type; and no other variable of that struct changes.
\<close>

theorem struct_reads_back:
  assumes "structSpecForType fs = Return ss" and "distinct (map sp_name (ss_l ss))"
    and "\<forall>f \<in> set (ss_l ss). storable pf show fmt (field_at (Struct fs) (sp_index f))"
    and "zero_val (Struct gs) = zero_val (Struct fs)"
  shows "\<exists>args w. args_AddFlat fmt [] (F_struct fs) = Return args
    \<and> scanStruct pf (map (RBulk \<circ> arg_text show) args) (Some (Struct gs)) = Return (Some w, None)
    \<and> (\<forall>f \<in> set (ss_l ss). field_at w (sp_index f) = field_at (Struct fs) (sp_index f))
    \<and> (\<forall>q d. q \<notin> sp_index ` set (ss_l ss) \<longrightarrow> field_at (Struct gs) q = Leaf d \<longrightarrow> field_at w q = Leaf d)"
  using assms by (rule struct_back)

definition demo_struct :: "int \<Rightarrow> bool \<Rightarrow> string \<Rightarrow> sfield list" where
  "demo_struct a hidden title =
     [SField ''Base'' [] True [] (Struct [SField ''A'' [] False [] (Leaf (DInt 8 a)),
        SField ''hidden'' ''main'' False [] (Leaf (DBool hidden))]),
      SField ''Title'' [] False ''title'' (Leaf (DString title))]"

theorem struct_reads_back_witness:
  "\<exists>args w. args_AddFlat (\<lambda>_. []) [] (F_struct (demo_struct (- 3) True ''x'')) = Return args
    \<and> scanStruct (\<lambda>_ _. (NaN, Some ErrSyntax)) (map (RBulk \<circ> arg_text (\<lambda>_. [])) args)
        (Some (Struct (demo_struct 5 False ''old''))) = Return (Some w, None)
    \<and> field_at w [0, 0] = Leaf (DInt 8 (- 3)) \<and> field_at w [1] = Leaf (DString ''x'') \<and> field_at w [0, 1] = Leaf (DBool False)"
proof -
  let ?f = "\<lparr>sp_name = ''A'', sp_index = [0, 0]\<rparr>" and ?g = "\<lparr>sp_name = ''title'', sp_index = [1]\<rparr>"
  let ?ss = "\<lparr>ss_m = [(''A'', ?f), (''title'', ?g)], ss_l = [?f, ?g]\<rparr>"
  have spec: "structSpecForType (demo_struct (- 3) True ''x'') = Return ?ss"
    by (simp add: demo_struct_def structSpecForType_def compile_default_def add_spec_def Let_def)
  have nm: "distinct (map sp_name (ss_l ?ss))" by simp
  have st: "\<forall>f \<in> set (ss_l ?ss). storable (\<lambda>_ _. (NaN, Some ErrSyntax)) (\<lambda>_. []) (\<lambda>_. [])
      (field_at (Struct (demo_struct (- 3) True ''x'')) (sp_index f))"
    by (simp add: demo_struct_def width_def)
  have z: "zero_val (Struct (demo_struct 5 False ''old'')) = zero_val (Struct (demo_struct (- 3) True ''x''))"
    by (simp add: demo_struct_def)
  from struct_reads_back [OF spec nm st z] obtain args w where w: "args_AddFlat (\<lambda>_. []) [] (F_struct (demo_struct (- 3) True ''x'')) = Return args"
    "scanStruct (\<lambda>_ _. (NaN, Some ErrSyntax)) (map (RBulk \<circ> arg_text (\<lambda>_. [])) args)
        (Some (Struct (demo_struct 5 False ''old''))) = Return (Some w, None)"
    "\<forall>f \<in> set (ss_l ?ss). field_at w (sp_index f) = field_at (Struct (demo_struct (- 3) True ''x'')) (sp_index f)"
    "\<forall>q d. q \<notin> sp_index ` set (ss_l ?ss) \<longrightarrow> field_at (Struct (demo_struct 5 False ''old'')) q = Leaf d \<longrightarrow> field_at w q = Leaf d"
    by blast
  have "field_at w [0, 0] = Leaf (DInt 8 (- 3)) \<and> field_at w [1] = Leaf (DString ''x'') \<and> field_at w [0, 1] = Leaf (DBool False)"
    using w(3) w(4) [rule_format, of "[0, 1]" "DBool False"] by (simp add: demo_struct_def)
  with w(1,2) show ?thesis by blast
qed

end
