(* ===== verification/Regexp.thy ===== *)
theory Regexp
  imports GoLib
begin

text \<open>
  The part of Go's \<open>regexp\<close> the routes are matched with: a regular expression is a sequence of
  characters, \<open>.\<close>, character classes without ranges, each once, optional or repeated, groups that
  are not nested or repeated themselves, and the anchors. The search is leftmost, repetition is
  greedy, and the groups of the match are captured. A pattern with anything else is not compiled.
\<close>

section \<open>Expressions\<close>

datatype atom = Chr char | Dot | Class string | NotClass string

datatype quant = One | Opt | Star | Plus

datatype piece = Atom atom quant | Open | Close | Caret | Dollar

type_synonym regexp = "piece list"

text \<open>\<open>.\<close> matches everything but a line feed.\<close>

fun atom_ok :: "atom \<Rightarrow> char \<Rightarrow> bool" where
  "atom_ok (Chr a) c = (c = a)"
| "atom_ok Dot c = (c \<noteq> CHR 0x0A)"
| "atom_ok (Class cs) c = (c \<in> set cs)"
| "atom_ok (NotClass cs) c = (c \<notin> set cs)"

section \<open>Parsing\<close>

definition metachars :: string where
  "metachars = [CHR 0x5C] @ ''.+*?()|[]{}^$''"

fun quoteMeta :: "string \<Rightarrow> string" where
  "quoteMeta [] = []"
| "quoteMeta (c # cs) = (if c \<in> set metachars then [CHR 0x5C, c] else [c]) @ quoteMeta cs"

text \<open>A quantifier behind an atom; \<open>None\<close> for a second one, which makes it reluctant or is an error.\<close>

fun take_quant :: "string \<Rightarrow> (quant \<times> string) option" where
  "take_quant (c # cs) =
     (if c \<in> {CHR ''?'', CHR ''*'', CHR ''+''} then
        if cs \<noteq> [] \<and> hd cs \<in> {CHR ''?'', CHR ''*'', CHR ''+''} then None
        else Some (if c = CHR ''?'' then Opt else if c = CHR ''*'' then Star else Plus, cs)
      else Some (One, c # cs))"
| "take_quant [] = Some (One, [])"

lemma take_quant_length: "take_quant s = Some (q, t) \<Longrightarrow> length t \<le> length s"
  by (cases s) (auto split: if_splits)

text \<open>The members of a class up to its closing bracket.\<close>

fun take_class :: "string \<Rightarrow> (string \<times> string) option" where
  "take_class [] = None"
| "take_class (c # cs) =
     (if c = CHR '']'' then Some ([], cs)
      else if c \<in> {CHR ''-'', CHR ''['', CHR 0x5C} then None
      else map_option (\<lambda>(ms, rest). (c # ms, rest)) (take_class cs))"

lemma take_class_length: "take_class s = Some (ms, t) \<Longrightarrow> length t < length s"
  by (induction s arbitrary: ms t) (fastforce split: if_splits)+

definition class_of :: "string \<Rightarrow> (atom \<times> string) option" where
  "class_of s =
     (let neg = (s \<noteq> [] \<and> hd s = CHR ''^''); body = (if neg then tl s else s)
      in case take_class body of None \<Rightarrow> None
         | Some (ms, rest) \<Rightarrow> (if ms = [] then None else Some (if neg then NotClass ms else Class ms, rest)))"

lemma class_of_length: "class_of s = Some (a, t) \<Longrightarrow> length t < length s"
  by (cases s) (auto simp: class_of_def Let_def split: option.splits if_splits dest!: take_class_length)

definition atom_of :: "string \<Rightarrow> (atom \<times> string) option" where
  "atom_of s =
     (case s of [] \<Rightarrow> None
      | c # cs \<Rightarrow>
          (if c = CHR 0x5C then
             (case cs of [] \<Rightarrow> None | d # ds \<Rightarrow> if d \<in> set metachars then Some (Chr d, ds) else None)
           else if c = CHR ''.'' then Some (Dot, cs)
           else if c = CHR ''['' then class_of cs
           else if c \<in> set metachars then None
           else Some (Chr c, cs)))"

lemma atom_of_length: "atom_of s = Some (a, t) \<Longrightarrow> length t < length s"
  by (cases s) (auto simp: atom_of_def split: if_splits list.splits dest: class_of_length)

function rx_parse :: "bool \<Rightarrow> string \<Rightarrow> regexp option" where
  "rx_parse open [] = (if open then None else Some [])"
| "rx_parse open (c # cs) =
     (if c = CHR ''('' then
        if open \<or> cs \<noteq> [] \<and> hd cs = CHR ''?'' then None else map_option (Cons Open) (rx_parse True cs)
      else if c = CHR '')'' then
        if \<not> open \<or> cs \<noteq> [] \<and> hd cs \<in> {CHR ''?'', CHR ''*'', CHR ''+''} then None
        else map_option (Cons Close) (rx_parse False cs)
      else if c = CHR ''^'' then map_option (Cons Caret) (rx_parse open cs)
      else if c = CHR ''$'' then map_option (Cons Dollar) (rx_parse open cs)
      else case atom_of (c # cs) of None \<Rightarrow> None
        | Some (a, t) \<Rightarrow>
            (case take_quant t of None \<Rightarrow> None
             | Some (q, u) \<Rightarrow> map_option (Cons (Atom a q)) (rx_parse open u)))"
  by pat_completeness auto
termination
  by (relation "measure (\<lambda>(b, s). length s)")
    (auto simp: less_Suc_eq_le dest!: atom_of_length take_quant_length)

definition rx_compile :: "string \<Rightarrow> regexp option" where
  "rx_compile s = rx_parse False s"

section \<open>Matching\<close>

text \<open>
  \<open>rx_at\<close> matches at the head of \<open>s\<close>; \<open>first\<close> tells whether that is the start of the text, \<open>cur\<close>
  is the reversed text of the open group and \<open>done\<close> the groups that are closed.
\<close>

fun rx_weight :: "piece \<Rightarrow> nat" where
  "rx_weight (Atom a Plus) = 3"
| "rx_weight (Atom a Opt) = 2"
| "rx_weight p = 1"

function rx_at :: "regexp \<Rightarrow> bool \<Rightarrow> string \<Rightarrow> string \<Rightarrow> string list \<Rightarrow> string list option" where
  "rx_at [] first s cur done = Some done"
| "rx_at (Open # ps) first s cur done = rx_at ps first s [] done"
| "rx_at (Close # ps) first s cur done = rx_at ps first s [] (done @ [rev cur])"
| "rx_at (Caret # ps) first s cur done = (if first then rx_at ps first s cur done else None)"
| "rx_at (Dollar # ps) first s cur done = (if s = [] then rx_at ps first s cur done else None)"
| "rx_at (Atom a One # ps) first s cur done =
     (case s of [] \<Rightarrow> None
      | c # t \<Rightarrow> if atom_ok a c then rx_at ps False t (c # cur) done else None)"
| "rx_at (Atom a Opt # ps) first s cur done =
     (case s of [] \<Rightarrow> rx_at ps first s cur done
      | c # t \<Rightarrow>
          if atom_ok a c then
            (case rx_at ps False t (c # cur) done of Some r \<Rightarrow> Some r | None \<Rightarrow> rx_at ps first s cur done)
          else rx_at ps first s cur done)"
| "rx_at (Atom a Star # ps) first s cur done =
     (case s of [] \<Rightarrow> rx_at ps first s cur done
      | c # t \<Rightarrow>
          if atom_ok a c then
            (case rx_at (Atom a Star # ps) False t (c # cur) done of
               Some r \<Rightarrow> Some r | None \<Rightarrow> rx_at ps first s cur done)
          else rx_at ps first s cur done)"
| "rx_at (Atom a Plus # ps) first s cur done = rx_at (Atom a One # Atom a Star # ps) first s cur done"
  by pat_completeness auto
termination
  by (relation "measure (\<lambda>(ps, first, s, cur, done). sum_list (map rx_weight ps) + length s)") auto

text \<open>\<open>FindStringSubmatch\<close>, without the match itself, and \<open>MatchString\<close>.\<close>

fun rx_find :: "regexp \<Rightarrow> bool \<Rightarrow> string \<Rightarrow> string list option" where
  "rx_find r first [] = rx_at r first [] [] []"
| "rx_find r first (c # s) =
     (case rx_at r first (c # s) [] [] of Some g \<Rightarrow> Some g | None \<Rightarrow> rx_find r False s)"

definition rx_submatch :: "regexp \<Rightarrow> string \<Rightarrow> string list option" where
  "rx_submatch r s = rx_find r True s"

definition rx_match :: "regexp \<Rightarrow> string \<Rightarrow> bool" where
  "rx_match r s \<longleftrightarrow> rx_submatch r s \<noteq> None"

section \<open>Lemmas\<close>

lemma rx_find_caret: "rx_find (Caret # r) False s = None"
  by (induction s) simp_all

lemma rx_submatch_caret: "rx_submatch (Caret # r) s = rx_at r True s [] []"
  by (cases s) (simp_all add: rx_submatch_def rx_find_caret split: option.split)

text \<open>A literal prefix.\<close>

lemma rx_at_literal:
  "rx_at (map (\<lambda>c. Atom (Chr c) One) l @ ps) first s cur done =
     (if take (length l) s = l
      then rx_at ps (if l = [] then first else False) (drop (length l) s) (rev l @ cur) done else None)"
proof (induction l arbitrary: first s cur)
  case (Cons c l)
  then show ?case by (cases s) auto
qed simp

text \<open>A repeated class up to the end of the text takes all of it.\<close>

lemma rx_at_star_end:
  "rx_at (Atom a Star # Close # [Dollar]) first s cur done =
     (if list_all (atom_ok a) s then Some (done @ [rev cur @ s]) else None)"
proof (induction s arbitrary: first cur)
  case (Cons c s)
  then show ?case by simp
qed simp

lemma rx_at_plus_end:
  "rx_at (Open # Atom a Plus # Close # [Dollar]) first s cur done =
     (if s \<noteq> [] \<and> list_all (atom_ok a) s then Some (done @ [s]) else None)"
  by (cases s) (simp_all add: rx_at_star_end del: rx_at.simps(8))

end
