(* ===== verification/Mux.thy ===== *)
theory Mux
  imports Regexp Http "HOL-Library.AList"
begin

text \<open>
  Routes and their matching: of the vendored router \<open>gorilla/mux\<close> (\<open>regexp.go\<close>, \<open>route.go\<close> and
  \<open>mux.go\<close>) and \<open>gorilla/context\<close> (\<open>context.go\<close>). Routes belong to one router without a parent
  here; a router nested in a route is in \<open>Subrouter\<close>.
\<close>

section \<open>Requests\<close>

text \<open>What the matchers see of a request; the path is decoded.\<close>

record url_request =
  ur_method :: string
  ur_path :: string
  ur_rawQuery :: string
  ur_host :: string                             \<comment> \<open>the header \<open>Host\<close>\<close>
  ur_urlHost :: "string option"                 \<comment> \<open>the host of an absolute URL\<close>
  ur_scheme :: string
  ur_headers :: "(string \<times> string list) list"

definition getHost :: "url_request \<Rightarrow> string" where
  "getHost r = (case ur_urlHost r of Some h \<Rightarrow> h | None \<Rightarrow> takeWhile (\<lambda>c. c \<noteq> CHR '':'') (ur_host r))"

section \<open>regexp.go\<close>

text \<open>The loop of \<open>braceIndices\<close> at the position \<open>i\<close>.\<close>

fun brace_loop :: "nat \<Rightarrow> int \<Rightarrow> nat \<Rightarrow> (nat \<times> nat) list \<Rightarrow> string \<Rightarrow> (nat \<times> nat) list option" where
  "brace_loop i level idx idxs [] = (if level \<noteq> 0 then None else Some idxs)"
| "brace_loop i level idx idxs (c # s) =
     (if c = CHR ''{'' then brace_loop (Suc i) (level + 1) (if level + 1 = 1 then i else idx) idxs s
      else if c = CHR ''}'' then
        (if level - 1 = 0 then brace_loop (Suc i) (level - 1) idx (idxs @ [(idx, Suc i)]) s
         else if level - 1 < 0 then None
         else brace_loop (Suc i) (level - 1) idx idxs s)
      else brace_loop (Suc i) level idx idxs s)"

definition braceIndices :: "string \<Rightarrow> (nat \<times> nat) list option" where
  "braceIndices s = brace_loop 0 0 0 [] s"

record routeRegexp =
  rr_template :: string
  rr_matchHost :: bool
  rr_matchQuery :: bool
  rr_strictSlash :: bool
  rr_regexp :: regexp
  rr_reverse :: string
  rr_varsN :: "string list"
  rr_varsR :: "regexp list"

text \<open>
  The loop over the variables of a template: the pattern, the reverse template, the names and the
  compiled patterns so far, and the end of what has been used.
\<close>

function vars_loop ::
  "string \<Rightarrow> string \<Rightarrow> (nat \<times> nat) list \<Rightarrow> nat \<Rightarrow> string \<Rightarrow> string \<Rightarrow> string list \<Rightarrow> regexp list
     \<Rightarrow> go_error + nat \<times> string \<times> string \<times> string list \<times> regexp list" where
  "vars_loop tpl defaultPattern [] end pattern reverse varsN varsR = Inr (end, pattern, reverse, varsN, varsR)"
| "vars_loop tpl defaultPattern ((a, b) # idxs) end pattern reverse varsN varsR =
     (let raw = take (a - end) (drop end tpl);
          parts = split2 CHR '':'' (take (b - 1 - (a + 1)) (drop (a + 1) tpl));
          name = hd parts;
          patt = (if length parts = 2 then parts ! 1 else defaultPattern)
      in if name = [] \<or> patt = [] then Inl (ErrOther ''mux: missing name or pattern'')
         else case rx_compile (''^'' @ patt @ ''$'') of
           None \<Rightarrow> Inl (ErrOther ''error parsing regexp'')
         | Some r \<Rightarrow> vars_loop tpl defaultPattern idxs b (pattern @ quoteMeta raw @ ''('' @ patt @ '')'')
             (reverse @ raw @ ''%s'') (varsN @ [name]) (varsR @ [r]))"
  by pat_completeness auto
termination
  by (relation "measure (\<lambda>(tpl, d, idxs, e, p, r, n, rs). length idxs)") auto

definition newRouteRegexp :: "string \<Rightarrow> bool \<Rightarrow> bool \<Rightarrow> bool \<Rightarrow> bool \<Rightarrow> go_error + routeRegexp" where
  "newRouteRegexp tpl matchHost matchPrefix matchQuery strictSlash =
     (case braceIndices tpl of None \<Rightarrow> Inl (ErrOther ''mux: unbalanced braces'')
      | Some idxs \<Rightarrow>
          (let defaultPattern = (if matchQuery then ''[^?&]+'' else if matchHost then ''[^.]+'' else ''[^/]+'');
               prefix = (if matchQuery then True else if matchHost then False else matchPrefix);
               strict = (if prefix \<or> matchHost \<or> matchQuery then False else strictSlash);
               endSlash = (strict \<and> tpl \<noteq> [] \<and> last tpl = CHR ''/'');
               t = (if endSlash then butlast tpl else tpl)
           in case vars_loop t defaultPattern idxs 0 (if matchQuery then [] else ''^'') [] [] [] of
                Inl e \<Rightarrow> Inl e
              | Inr (end, pattern, reverse, varsN, varsR) \<Rightarrow>
                  (let raw = drop end t
                   in case rx_compile (pattern @ quoteMeta raw @ (if strict then ''[/]?'' else [])
                            @ (if prefix then [] else ''$'')) of
                        None \<Rightarrow> Inl (ErrOther ''error parsing regexp'')
                      | Some reg \<Rightarrow> Inr
                          \<lparr>rr_template = tpl, rr_matchHost = matchHost, rr_matchQuery = matchQuery,
                           rr_strictSlash = strict, rr_regexp = reg,
                           rr_reverse = reverse @ raw @ (if endSlash then ''/'' else []),
                           rr_varsN = varsN, rr_varsR = varsR\<rparr>)))"

definition rr_subject :: "routeRegexp \<Rightarrow> url_request \<Rightarrow> string" where
  "rr_subject r q =
     (if \<not> rr_matchHost r then (if rr_matchQuery r then ur_rawQuery q else ur_path q) else getHost q)"

definition rr_Match :: "routeRegexp \<Rightarrow> url_request \<Rightarrow> bool" where
  "rr_Match r q \<longleftrightarrow> rx_match (rr_regexp r) (rr_subject r q)"

record regexpGroup =
  rg_host :: "routeRegexp option"
  rg_path :: "routeRegexp option"
  rg_queries :: "routeRegexp list"

text \<open>A handler, or the redirect to the request's URL with another path.\<close>

datatype 'h dispatch = Handler 'h | Redirect_path string

record 'h routeMatch =
  rm_Handler :: "'h dispatch option"
  rm_Vars :: "(string \<times> string) list"

text \<open>The variables of one expression: the k-th name is given the k-th group.\<close>

definition store_vars :: "routeRegexp \<Rightarrow> url_request \<Rightarrow> 'h routeMatch \<Rightarrow> 'h routeMatch" where
  "store_vars r q m =
     (case rx_submatch (rr_regexp r) (rr_subject r q) of None \<Rightarrow> m
      | Some groups \<Rightarrow> m\<lparr>rm_Vars := fold (\<lambda>(k, v). AList.update k v) (zip (rr_varsN r) groups) (rm_Vars m)\<rparr>)"

definition ends_slash :: "string \<Rightarrow> bool" where
  "ends_slash s \<longleftrightarrow> s \<noteq> [] \<and> last s = CHR ''/''"

definition rg_setMatch :: "regexpGroup \<Rightarrow> url_request \<Rightarrow> 'h routeMatch \<Rightarrow> 'h routeMatch" where
  "rg_setMatch g q m =
     (let m1 = (case rg_host g of None \<Rightarrow> m | Some r \<Rightarrow> store_vars r q m);
          m2 = (case rg_path g of None \<Rightarrow> m1
                | Some r \<Rightarrow>
                    (let m' = store_vars r q m1; p1 = ends_slash (ur_path q); p2 = ends_slash (rr_template r)
                     in if rx_match (rr_regexp r) (ur_path q) \<and> rr_strictSlash r \<and> p1 \<noteq> p2
                        then m'\<lparr>rm_Handler := Some (Redirect_path
                               (if p1 then butlast (ur_path q) else ur_path q @ ''/''))\<rparr>
                        else m'))
      in fold (\<lambda>r. store_vars r q) (rg_queries g) m2)"

section \<open>route.go\<close>

datatype matcher =
    M_regexp routeRegexp
  | M_headers "(string \<times> string) list"
  | M_func "url_request \<Rightarrow> bool"
  | M_methods "string list"
  | M_schemes "string list"

record 'h mux_route =
  mr_handler :: "'h option"
  mr_matchers :: "matcher list"
  mr_regexp :: "regexpGroup option"
  mr_strictSlash :: bool
  mr_buildOnly :: bool
  mr_name :: string
  mr_err :: "go_error option"

subsection \<open>Helpers\<close>

fun matchInArray :: "string list \<Rightarrow> string \<Rightarrow> bool" where
  "matchInArray [] value = False"
| "matchInArray (v # arr) value = (if v = value then True else matchInArray arr value)"

fun matchMap :: "(string \<times> string) list \<Rightarrow> (string \<times> string list) list \<Rightarrow> bool \<Rightarrow> bool" where
  "matchMap [] toMatch canonicalKey = True"
| "matchMap ((k, v) # toCheck) toMatch canonicalKey =
     (case map_of toMatch (if canonicalKey then canonical_key k else k) of
        None \<Rightarrow> False
      | Some values \<Rightarrow>
          (if v \<noteq> [] \<and> \<not> matchInArray values v then False else matchMap toCheck toMatch canonicalKey))"

fun mapFromPairs :: "string list \<Rightarrow> (string \<times> string) list \<Rightarrow> (string \<times> string) list option" where
  "mapFromPairs [] m = Some m"
| "mapFromPairs (k # v # ps) m = mapFromPairs ps (AList.update k v m)"
| "mapFromPairs [x] m = None"

definition uniqueVars :: "string list \<Rightarrow> string list \<Rightarrow> bool" where
  "uniqueVars s1 s2 \<longleftrightarrow> list_all (\<lambda>v1. list_all (\<lambda>v2. v1 \<noteq> v2) s2) s1"

subsection \<open>Matching\<close>

fun m_Match :: "matcher \<Rightarrow> url_request \<Rightarrow> bool" where
  "m_Match (M_regexp r) q = rr_Match r q"
| "m_Match (M_headers m) q = matchMap m (ur_headers q) True"
| "m_Match (M_func f) q = f q"
| "m_Match (M_methods ms) q = matchInArray ms (ur_method q)"
| "m_Match (M_schemes ss) q = matchInArray ss (ur_scheme q)"

fun all_match :: "matcher list \<Rightarrow> url_request \<Rightarrow> bool" where
  "all_match [] q = True"
| "all_match (m # ms) q = (if \<not> m_Match m q then False else all_match ms q)"

definition empty_match :: "'h routeMatch" where
  "empty_match = \<lparr>rm_Handler = None, rm_Vars = []\<rparr>"

definition route_Match :: "'h mux_route \<Rightarrow> url_request \<Rightarrow> 'h routeMatch \<Rightarrow> 'h routeMatch option" where
  "route_Match r q m =
     (if mr_buildOnly r \<or> mr_err r \<noteq> None then None
      else if \<not> all_match (mr_matchers r) q then None
      else let m1 = (if rm_Handler m = None then m\<lparr>rm_Handler := map_option Handler (mr_handler r)\<rparr> else m)
        in Some (case mr_regexp r of None \<Rightarrow> m1 | Some g \<Rightarrow> rg_setMatch g q m1))"

subsection \<open>Building a route\<close>

definition empty_route :: "bool \<Rightarrow> 'h mux_route" where
  "empty_route strict = \<lparr>mr_handler = None, mr_matchers = [], mr_regexp = None, mr_strictSlash = strict,
     mr_buildOnly = False, mr_name = [], mr_err = None\<rparr>"

definition getRegexpGroup :: "'h mux_route \<Rightarrow> regexpGroup" where
  "getRegexpGroup r =
     (case mr_regexp r of Some g \<Rightarrow> g | None \<Rightarrow> \<lparr>rg_host = None, rg_path = None, rg_queries = []\<rparr>)"

definition route_Handler :: "'h \<Rightarrow> 'h mux_route \<Rightarrow> 'h mux_route" where
  "route_Handler h r = (if mr_err r = None then r\<lparr>mr_handler := Some h\<rparr> else r)"

definition route_BuildOnly :: "'h mux_route \<Rightarrow> 'h mux_route" where
  "route_BuildOnly r = r\<lparr>mr_buildOnly := True\<rparr>"

definition addMatcher :: "matcher \<Rightarrow> 'h mux_route \<Rightarrow> 'h mux_route" where
  "addMatcher m r = (if mr_err r = None then r\<lparr>mr_matchers := mr_matchers r @ [m]\<rparr> else r)"

definition trim_slashes :: "string \<Rightarrow> string" where
  "trim_slashes s = rev (dropWhile (\<lambda>c. c = CHR ''/'') (rev s))"

definition unique_in :: "routeRegexp \<Rightarrow> routeRegexp option \<Rightarrow> bool" where
  "unique_in rr other = (case other of None \<Rightarrow> True | Some o' \<Rightarrow> uniqueVars (rr_varsN rr) (rr_varsN o'))"

definition duplicated :: go_error where
  "duplicated = ErrOther ''mux: duplicated route variable''"

definition addRegexpMatcher ::
  "string \<Rightarrow> bool \<Rightarrow> bool \<Rightarrow> bool \<Rightarrow> 'h mux_route \<Rightarrow> 'h mux_route \<times> go_error option" where
  "addRegexpMatcher tpl matchHost matchPrefix matchQuery r =
     (if mr_err r \<noteq> None then (r, mr_err r)
      else let g = getRegexpGroup r; r0 = r\<lparr>mr_regexp := Some g\<rparr>; plain = (\<not> matchHost \<and> \<not> matchQuery)
        in if plain \<and> (tpl = [] \<or> hd tpl \<noteq> CHR ''/'') then (r0, Some (ErrOther ''mux: path must start with a slash''))
           else let tpl' = (case rg_path g of
                      Some p \<Rightarrow> if plain then trim_slashes (rr_template p) @ tpl else tpl | None \<Rightarrow> tpl)
             in case newRouteRegexp tpl' matchHost matchPrefix matchQuery (mr_strictSlash r) of
                  Inl e \<Rightarrow> (r0, Some e)
                | Inr rr \<Rightarrow>
                    (if \<not> list_all (\<lambda>q. uniqueVars (rr_varsN rr) (rr_varsN q)) (rg_queries g) then (r0, Some duplicated)
                     else if matchHost then
                       (if \<not> unique_in rr (rg_path g) then (r0, Some duplicated)
                        else (addMatcher (M_regexp rr) (r0\<lparr>mr_regexp := Some (g\<lparr>rg_host := Some rr\<rparr>)\<rparr>), None))
                     else if \<not> unique_in rr (rg_host g) then (r0, Some duplicated)
                     else if matchQuery then
                       (addMatcher (M_regexp rr) (r0\<lparr>mr_regexp := Some (g\<lparr>rg_queries := rg_queries g @ [rr]\<rparr>)\<rparr>), None)
                     else (addMatcher (M_regexp rr) (r0\<lparr>mr_regexp := Some (g\<lparr>rg_path := Some rr\<rparr>)\<rparr>), None)))"

definition with_err :: "'h mux_route \<times> go_error option \<Rightarrow> 'h mux_route" where
  "with_err x = (fst x)\<lparr>mr_err := snd x\<rparr>"

definition route_Path :: "string \<Rightarrow> 'h mux_route \<Rightarrow> 'h mux_route" where
  "route_Path tpl r = with_err (addRegexpMatcher tpl False False False r)"

definition route_PathPrefix :: "string \<Rightarrow> 'h mux_route \<Rightarrow> 'h mux_route" where
  "route_PathPrefix tpl r = with_err (addRegexpMatcher tpl False True False r)"

definition route_Host :: "string \<Rightarrow> 'h mux_route \<Rightarrow> 'h mux_route" where
  "route_Host tpl r = with_err (addRegexpMatcher tpl True False False r)"

definition route_Headers :: "string list \<Rightarrow> 'h mux_route \<Rightarrow> 'h mux_route" where
  "route_Headers pairs r =
     (if mr_err r \<noteq> None then r
      else case mapFromPairs pairs [] of
        None \<Rightarrow> r\<lparr>mr_err := Some (ErrOther ''mux: number of parameters must be multiple of 2'')\<rparr>
      | Some headers \<Rightarrow> addMatcher (M_headers headers) r)"

definition route_MatcherFunc :: "(url_request \<Rightarrow> bool) \<Rightarrow> 'h mux_route \<Rightarrow> 'h mux_route" where
  "route_MatcherFunc f r = addMatcher (M_func f) r"

definition route_Methods :: "string list \<Rightarrow> 'h mux_route \<Rightarrow> 'h mux_route" where
  "route_Methods methods r = addMatcher (M_methods (map (map to_upper) methods)) r"

definition route_Schemes :: "string list \<Rightarrow> 'h mux_route \<Rightarrow> 'h mux_route" where
  "route_Schemes schemes r = addMatcher (M_schemes (map (map to_lower) schemes)) r"

text \<open>\<open>Queries\<close> returns a nil route when the number of its arguments is odd.\<close>

fun queries_loop :: "string list \<Rightarrow> 'h mux_route \<Rightarrow> 'h mux_route" where
  "queries_loop (k # v # ps) r =
     (let r' = with_err (addRegexpMatcher (k @ ''='' @ v) False True True r)
      in if mr_err r' \<noteq> None then r' else queries_loop ps r')"
| "queries_loop _ r = r"

definition route_Queries :: "string list \<Rightarrow> 'h mux_route \<Rightarrow> 'h mux_route option" where
  "route_Queries pairs r = (if odd (length pairs) then None else Some (queries_loop pairs r))"

end
