(* ===== verification/Router.thy ===== *)
theory Router
  imports Mux Server
begin

text \<open>
  Dispatch: the contexts of requests (\<open>gorilla/context\<close>), the router of \<open>gorilla/mux\<close> with its
  canonical paths, and the routes the server registers in \<open>app\<close>. The theorem says which requests
  reach which handler and with which key.
\<close>

section \<open>context.go\<close>

text \<open>The values stored for each request, and the second at which its first was stored.\<close>

record ('k,'v) contexts =
  cx_data :: "(nat \<times> ('k \<times> 'v) list) list"
  cx_datat :: "(nat \<times> int) list"

definition ctx_Set :: "int \<Rightarrow> nat \<Rightarrow> 'k \<Rightarrow> 'v \<Rightarrow> ('k, 'v) contexts \<Rightarrow> ('k, 'v) contexts" where
  "ctx_Set now r key val cx =
     (let cx1 = (if map_of (cx_data cx) r = None
        then cx\<lparr>cx_data := AList.update r [] (cx_data cx), cx_datat := AList.update r now (cx_datat cx)\<rparr> else cx)
      in cx1\<lparr>cx_data := AList.update r (AList.update key val (the (map_of (cx_data cx1) r))) (cx_data cx1)\<rparr>)"

definition ctx_Get :: "nat \<Rightarrow> 'k \<Rightarrow> ('k, 'v) contexts \<Rightarrow> 'v option" where
  "ctx_Get r key cx = (case map_of (cx_data cx) r of Some ctx \<Rightarrow> map_of ctx key | None \<Rightarrow> None)"

definition ctx_GetOk :: "nat \<Rightarrow> 'k \<Rightarrow> ('k, 'v) contexts \<Rightarrow> 'v option \<times> bool" where
  "ctx_GetOk r key cx =
     (case map_of (cx_data cx) r of Some ctx \<Rightarrow> (map_of ctx key, map_of ctx key \<noteq> None) | None \<Rightarrow> (None, False))"

definition ctx_GetAll :: "nat \<Rightarrow> ('k, 'v) contexts \<Rightarrow> ('k \<times> 'v) list option" where
  "ctx_GetAll r cx = map_of (cx_data cx) r"

definition ctx_GetAllOk :: "nat \<Rightarrow> ('k, 'v) contexts \<Rightarrow> ('k \<times> 'v) list \<times> bool" where
  "ctx_GetAllOk r cx = (case map_of (cx_data cx) r of Some ctx \<Rightarrow> (ctx, True) | None \<Rightarrow> ([], False))"

definition ctx_Delete :: "nat \<Rightarrow> 'k \<Rightarrow> ('k, 'v) contexts \<Rightarrow> ('k, 'v) contexts" where
  "ctx_Delete r key cx =
     (case map_of (cx_data cx) r of None \<Rightarrow> cx
      | Some ctx \<Rightarrow> cx\<lparr>cx_data := AList.update r (AList.delete key ctx) (cx_data cx)\<rparr>)"

definition ctx_clear :: "nat \<Rightarrow> ('k, 'v) contexts \<Rightarrow> ('k, 'v) contexts" where
  "ctx_clear r cx = cx\<lparr>cx_data := AList.delete r (cx_data cx), cx_datat := AList.delete r (cx_datat cx)\<rparr>"

definition ctx_Clear :: "nat \<Rightarrow> ('k, 'v) contexts \<Rightarrow> ('k, 'v) contexts" where
  "ctx_Clear r cx = ctx_clear r cx"

text \<open>A handler that forgets the values of its request at the end, also when it panics.\<close>

definition ctx_ClearHandler ::
  "(nat \<Rightarrow> ('k, 'v) contexts \<Rightarrow> ('k, 'v) contexts \<times> 'a go) \<Rightarrow> nat \<Rightarrow> ('k, 'v) contexts \<Rightarrow> ('k, 'v) contexts \<times> 'a go" where
  "ctx_ClearHandler h r cx = (let (cx', result) = h r cx in (ctx_Clear r cx', result))"

text \<open>The requests older than \<open>maxAge\<close> seconds; the time of an unknown request is 0.\<close>

definition expired :: "int \<Rightarrow> ('k, 'v) contexts \<Rightarrow> nat \<Rightarrow> bool" where
  "expired least cx r = ((case map_of (cx_datat cx) r of None \<Rightarrow> 0 | Some t \<Rightarrow> t) < least)"

definition ctx_Purge :: "int \<Rightarrow> int \<Rightarrow> ('k, 'v) contexts \<Rightarrow> ('k, 'v) contexts \<times> int" where
  "ctx_Purge now maxAge cx =
     (if maxAge \<le> 0 then (cx\<lparr>cx_data := [], cx_datat := []\<rparr>, int (length (cx_data cx)))
      else let old = filter (expired (now - maxAge) cx) (map fst (cx_data cx))
        in (fold ctx_clear old cx, int (length old)))"

section \<open>mux.go\<close>

record 'h router =
  rt_NotFound :: "'h option"
  rt_routes :: "'h mux_route list"
  rt_strictSlash :: bool
  rt_KeepContext :: bool

definition newRouter :: "'h router" where
  "newRouter = \<lparr>rt_NotFound = None, rt_routes = [], rt_strictSlash = False, rt_KeepContext = False\<rparr>"

definition router_StrictSlash :: "bool \<Rightarrow> 'h router \<Rightarrow> 'h router" where
  "router_StrictSlash value R = R\<lparr>rt_strictSlash := value\<rparr>"

text \<open>A new route, configured by \<open>f\<close>: the methods of a route change the one in the router's list.\<close>

definition router_NewRoute :: "('h mux_route \<Rightarrow> 'h mux_route) \<Rightarrow> 'h router \<Rightarrow> 'h router" where
  "router_NewRoute f R = R\<lparr>rt_routes := rt_routes R @ [f (empty_route (rt_strictSlash R))]\<rparr>"

definition router_HandleFunc :: "string \<Rightarrow> 'h \<Rightarrow> ('h mux_route \<Rightarrow> 'h mux_route) \<Rightarrow> 'h router \<Rightarrow> 'h router" where
  "router_HandleFunc path h f R = router_NewRoute (\<lambda>r. f (route_Handler h (route_Path path r))) R"

fun routes_Match :: "'h mux_route list \<Rightarrow> url_request \<Rightarrow> 'h routeMatch \<Rightarrow> ('h mux_route \<times> 'h routeMatch) option" where
  "routes_Match [] q m = None"
| "routes_Match (r # rs) q m =
     (case route_Match r q m of Some m' \<Rightarrow> Some (r, m') | None \<Rightarrow> routes_Match rs q m)"

definition router_Match :: "'h router \<Rightarrow> url_request \<Rightarrow> ('h mux_route \<times> 'h routeMatch) option" where
  "router_Match R q = routes_Match (rt_routes R) q empty_match"

text \<open>
  \<open>path.Clean\<close> of a rooted path: empty and \<open>.\<close> elements are dropped, \<open>..\<close> drops the element before.
\<close>

fun clean_elems :: "string list \<Rightarrow> string list \<Rightarrow> string list" where
  "clean_elems done [] = done"
| "clean_elems done (e # es) =
     (if e = [] \<or> e = ''.'' then clean_elems done es
      else if e = ''..'' then clean_elems (butlast done) es
      else clean_elems (done @ [e]) es)"

definition path_Clean :: "string \<Rightarrow> string" where
  "path_Clean p = ''/'' @ join ''/'' (clean_elems [] (split_on CHR ''/'' p))"

definition cleanPath :: "string \<Rightarrow> string" where
  "cleanPath p =
     (if p = [] then ''/''
      else let p' = (if hd p \<noteq> CHR ''/'' then ''/'' @ p else p); np = path_Clean p'
        in if last p' = CHR ''/'' \<and> np \<noteq> ''/'' then np @ ''/'' else np)"

text \<open>What is stored for a request, and what \<open>Vars\<close> reads.\<close>

datatype context_key = VarsKey | RouteKey

datatype 'h context_val = Vars_val "(string \<times> string) list" | Route_val "'h mux_route"

type_synonym 'h mux_context = "(context_key, 'h context_val) contexts"

definition mux_setVars :: "int \<Rightarrow> nat \<Rightarrow> (string \<times> string) list \<Rightarrow> 'h mux_context \<Rightarrow> 'h mux_context" where
  "mux_setVars now r val cx = ctx_Set now r VarsKey (Vars_val val) cx"

definition mux_setCurrentRoute :: "int \<Rightarrow> nat \<Rightarrow> 'h mux_route \<Rightarrow> 'h mux_context \<Rightarrow> 'h mux_context" where
  "mux_setCurrentRoute now r val cx = ctx_Set now r RouteKey (Route_val val) cx"

definition mux_Vars :: "nat \<Rightarrow> 'h mux_context \<Rightarrow> (string \<times> string) list" where
  "mux_Vars r cx = (case ctx_Get r VarsKey cx of Some (Vars_val vs) \<Rightarrow> vs | _ \<Rightarrow> [])"

definition mux_CurrentRoute :: "nat \<Rightarrow> 'h mux_context \<Rightarrow> 'h mux_route option" where
  "mux_CurrentRoute r cx = (case ctx_Get r RouteKey cx of Some (Route_val x) \<Rightarrow> Some x | _ \<Rightarrow> None)"

text \<open>
  How a request is served: by a redirect to the canonical path, by a handler that sees the given
  contexts, or by the handler for what is not found.
\<close>

datatype 'h served_by = Moved string | By "'h dispatch" "'h mux_context" | Not_found "'h mux_context"

definition router_ServeHTTP ::
  "'h router \<Rightarrow> int \<Rightarrow> nat \<Rightarrow> url_request \<Rightarrow> 'h mux_context \<Rightarrow> 'h served_by \<times> 'h mux_context" where
  "router_ServeHTTP R now r q cx =
     (let p = cleanPath (ur_path q)
      in if p \<noteq> ur_path q then (Moved p, cx)
         else let (cx1, handler) = (case router_Match R q of
                 Some (rt, m) \<Rightarrow>
                   (mux_setCurrentRoute now r rt (mux_setVars now r (rm_Vars m) cx), rm_Handler m)
               | None \<Rightarrow> (cx, None));
             h = (case handler of Some x \<Rightarrow> Some x | None \<Rightarrow> map_option Handler (rt_NotFound R))
           in (case h of Some x \<Rightarrow> By x cx1 | None \<Rightarrow> Not_found cx1,
               if \<not> rt_KeepContext R then ctx_Clear r cx1 else cx1))"

section \<open>The routes of the server\<close>

definition app_router :: "route router" where
  "app_router =
     router_HandleFunc ''/streams/{key:.+}'' R_put (route_Methods [''PUT''])
      (router_HandleFunc ''/streams/{key:.+}'' R_pub (route_Methods [''POST''])
       (router_HandleFunc ''/streams/{key:.+}'' R_sub (route_Methods [''GET''])
        (router_HandleFunc ''/streams'' R_streams (\<lambda>r. r)
         (router_HandleFunc ''/health'' R_health (\<lambda>r. r) newRouter))))"

text \<open>
  \<open>URL.String\<close> of a request's URL, whose path is decoded: bytes other than the unreserved ones are
  written in hex.
\<close>

definition url_plain :: "char \<Rightarrow> bool" where
  "url_plain c \<longleftrightarrow>
     (let n = (of_char c :: nat)
      in (97 \<le> n \<and> n \<le> 122) \<or> (65 \<le> n \<and> n \<le> 90) \<or> (48 \<le> n \<and> n \<le> 57) \<or> c \<in> set ''-_.~$&+,/:;=@'')"

fun escape_path :: "string \<Rightarrow> string" where
  "escape_path [] = []"
| "escape_path (c # s) =
     (if url_plain c then [c]
      else [CHR ''%'', ''0123456789ABCDEF'' ! (of_char c div 16), ''0123456789ABCDEF'' ! (of_char c mod 16)])
     @ escape_path s"

definition url_String :: "string \<Rightarrow> string \<Rightarrow> string" where
  "url_String p query = escape_path p @ (if query \<noteq> [] then ''?'' @ query else [])"

text \<open>A request in origin form: its URL has no host and no scheme.\<close>

definition url_of :: "string \<Rightarrow> request \<Rightarrow> url_request" where
  "url_of path r = \<lparr>ur_method = hr_method r, ur_path = path, ur_rawQuery = hr_query r, ur_host = hr_host r,
     ur_urlHost = None, ur_scheme = [], ur_headers = map (\<lambda>(k, v). (k, [v])) (hr_headers r)\<rparr>"

definition moved_to :: "string \<Rightarrow> ('w, 'h) serv \<Rightarrow> ('w, 'h) serv" where
  "moved_to url s = writeHeader 301 (setHeader ''Location'' url s)"

text \<open>
  The router in front of the handlers: the redirects are its own, a handler sees the key that
  \<open>Vars\<close> gives it.
\<close>

definition serve_routed ::
  "('w, 'h, 'u) config \<Rightarrow> int \<Rightarrow> nat \<Rightarrow> route mux_context \<Rightarrow> string \<Rightarrow> request \<Rightarrow> ('w, 'h) serv
     \<Rightarrow> ('w, 'h) serv \<times> route mux_context" where
  "serve_routed cf now n cx path r s =
     (let (served, cx') = router_ServeHTTP app_router now n (url_of path r) cx
      in (case served of
            Moved p \<Rightarrow> moved_to (url_String p (hr_query r)) s
          | By (Redirect_path p) cx1 \<Rightarrow>
              http_Redirect r (url_String p (hr_query r)) 301 ''Moved Permanently'' s
          | By (Handler rt) cx1 \<Rightarrow>
              (case app_handler cf rt of None \<Rightarrow> s
               | Some fn \<Rightarrow> fn (r\<lparr>hr_key := (case map_of (mux_Vars n cx1) ''key'' of None \<Rightarrow> [] | Some k \<Rightarrow> k)\<rparr>) s)
          | Not_found cx1 \<Rightarrow> http_Error ''404 page not found'' 404 s, cx'))"

section \<open>Lemmas\<close>

text \<open>The expressions the three templates compile to.\<close>

definition rx_literal :: "string \<Rightarrow> regexp" where
  "rx_literal l = map (\<lambda>c. Atom (Chr c) One) l"

definition key_regexp :: routeRegexp where
  "key_regexp = \<lparr>rr_template = ''/streams/{key:.+}'', rr_matchHost = False, rr_matchQuery = False,
     rr_strictSlash = False, rr_regexp = Caret # rx_literal ''/streams/'' @ [Open, Atom Dot Plus, Close, Dollar],
     rr_reverse = ''/streams/%s'', rr_varsN = [''key''], rr_varsR = [[Caret, Atom Dot Plus, Dollar]]\<rparr>"

definition path_regexp :: "string \<Rightarrow> routeRegexp" where
  "path_regexp l = \<lparr>rr_template = l, rr_matchHost = False, rr_matchQuery = False,
     rr_strictSlash = False, rr_regexp = Caret # rx_literal l @ [Dollar],
     rr_reverse = l, rr_varsN = [], rr_varsR = []\<rparr>"

lemma key_template: "newRouteRegexp ''/streams/{key:.+}'' False False False False = Inr key_regexp"
  by code_simp

lemma path_template:
  "newRouteRegexp ''/health'' False False False False = Inr (path_regexp ''/health'')"
  "newRouteRegexp ''/streams'' False False False False = Inr (path_regexp ''/streams'')"
  by code_simp+

definition app_route :: "routeRegexp \<Rightarrow> route \<Rightarrow> matcher list \<Rightarrow> route mux_route" where
  "app_route rr h ms = \<lparr>mr_handler = Some h, mr_matchers = M_regexp rr # ms,
     mr_regexp = Some \<lparr>rg_host = None, rg_path = Some rr, rg_queries = []\<rparr>,
     mr_strictSlash = False, mr_buildOnly = False, mr_name = [], mr_err = None\<rparr>"

lemma route_Path_app:
  "newRouteRegexp tpl False False False False = Inr rr \<Longrightarrow> tpl \<noteq> [] \<Longrightarrow> hd tpl = CHR ''/'' \<Longrightarrow>
   route_Handler h (route_Path tpl (empty_route False)) = app_route rr h []"
  by (simp add: route_Path_def addRegexpMatcher_def empty_route_def getRegexpGroup_def with_err_def
      unique_in_def addMatcher_def route_Handler_def app_route_def Let_def)

lemma app_routes:
  "rt_routes app_router =
     [app_route (path_regexp ''/health'') R_health [], app_route (path_regexp ''/streams'') R_streams [],
      app_route key_regexp R_sub [M_methods [''GET'']], app_route key_regexp R_pub [M_methods [''POST'']],
      app_route key_regexp R_put [M_methods [''PUT'']]]"
proof -
  have up: "map to_upper ''GET'' = ''GET''" "map to_upper ''POST'' = ''POST''" "map to_upper ''PUT'' = ''PUT''"
    by (simp_all add: to_upper_def)
  show ?thesis
    by (simp add: app_router_def router_HandleFunc_def router_NewRoute_def newRouter_def
        route_Path_app [OF key_template] route_Path_app [OF path_template(1)] route_Path_app [OF path_template(2)]
        route_Methods_def up)
      (simp add: app_route_def addMatcher_def to_upper_def)
qed

lemma match_literal:
  "rx_at (rx_literal l @ ps) True s [] [] = (if take (length l) s = l
     then rx_at ps (l = []) (drop (length l) s) (rev l) [] else None)"
  unfolding rx_literal_def rx_at_literal by simp

lemma path_match: "rx_submatch (rr_regexp (path_regexp l)) s = (if s = l then Some [] else None)"
proof -
  have "take (length l) s = l \<and> drop (length l) s = [] \<longleftrightarrow> s = l"
    by (metis append_Nil2 append_take_drop_id drop_all order_refl take_all_iff)
  then show ?thesis
    by (auto simp: path_regexp_def rx_submatch_caret match_literal)
qed

definition stream_key :: "string \<Rightarrow> string option" where
  "stream_key p = (if take 9 p = ''/streams/'' \<and> drop 9 p \<noteq> [] \<and> CHR 0x0A \<notin> set (drop 9 p)
     then Some (drop 9 p) else None)"

lemma key_match: "rx_submatch (rr_regexp key_regexp) s = map_option (\<lambda>k. [k]) (stream_key s)"
proof -
  have dots: "list_all (atom_ok Dot) t \<longleftrightarrow> CHR 0x0A \<notin> set t" for t
    by (induction t) auto
  have "rx_submatch (rr_regexp key_regexp) s
      = (if take 9 s = ''/streams/'' then rx_at [Open, Atom Dot Plus, Close, Dollar] False (drop 9 s) (rev ''/streams/'') []
         else None)"
    by (simp add: key_regexp_def rx_submatch_caret match_literal numeral_eq_Suc del: rx_at.simps)
  then show ?thesis
    by (simp add: rx_at_plus_end dots stream_key_def del: rx_at.simps)
qed

section \<open>Canonical paths\<close>

definition clean_elem :: "string \<Rightarrow> bool" where
  "clean_elem e \<longleftrightarrow> e \<noteq> [] \<and> e \<noteq> ''.'' \<and> e \<noteq> ''..'' \<and> CHR ''/'' \<notin> set e"

lemma clean_elems_clean:
  "\<forall>e \<in> set done. clean_elem e \<Longrightarrow> \<forall>e \<in> set es. CHR ''/'' \<notin> set e
     \<Longrightarrow> \<forall>e \<in> set (clean_elems done es). clean_elem e"
proof (induction es arbitrary: "done")
  case (Cons e es)
  have "\<forall>x \<in> set (butlast done). clean_elem x" using Cons.prems(1) by (meson in_set_butlastD)
  moreover have "\<forall>x \<in> set (done @ [e]). clean_elem x" if "e \<noteq> []" "e \<noteq> ''.''" "e \<noteq> ''..''"
    using Cons.prems that by (simp add: clean_elem_def)
  moreover have es: "\<forall>x \<in> set es. CHR ''/'' \<notin> set x" using Cons.prems(2) by simp
  ultimately show ?case
    by (simp only: clean_elems.simps split: if_split)
      (blast intro: Cons.IH [rule_format] Cons.prems(1) [rule_format])
qed simp

lemma clean_elems_id: "\<forall>e \<in> set es. clean_elem e \<Longrightarrow> clean_elems done es = done @ es"
  by (induction es arbitrary: "done") (auto simp: clean_elem_def)

lemma clean_elems_snoc_empty: "clean_elems done (es @ [[]]) = clean_elems done es"
  by (induction "done" es rule: clean_elems.induct) auto

lemma split_on_slash: "split_on CHR ''/'' (CHR ''/'' # t) = [] # split_on CHR ''/'' t"
  by simp

lemma split_on_snoc: "split_on c (s @ [c]) = split_on c s @ [[]]"
  by (induction s) (auto simp: hd_append tl_append split: list.splits)

lemma clean_elems_join:
  assumes "\<forall>e \<in> set es. clean_elem e"
  shows "clean_elems [] (split_on CHR ''/'' (join ''/'' es)) = es"
proof (cases "es = []")
  case False
  then have "split_on CHR ''/'' (join ''/'' es) = es"
    using assms by (intro split_on_join) (auto simp: clean_elem_def)
  then show ?thesis using clean_elems_id [OF assms] by simp
qed simp

lemma join_NilD: "join sep es = [] \<Longrightarrow> es = [] \<or> last es = []"
  by (induction sep es rule: join.induct) auto

lemma last_join: "es \<noteq> [] \<Longrightarrow> last es \<noteq> [] \<Longrightarrow> last (join sep es) = last (last es)"
  by (induction sep es rule: join.induct) (auto simp: last_append dest: join_NilD)

lemma join_Nil_iff: "\<forall>e \<in> set es. e \<noteq> [] \<Longrightarrow> join sep es = [] \<longleftrightarrow> es = []"
  by (cases "(sep, es)" rule: join.cases) auto

lemma cleanPath_idem [simp]: "cleanPath (cleanPath p) = cleanPath p"
proof (cases "p = []")
  case True
  then show ?thesis by (simp add: cleanPath_def path_Clean_def)
next
  case False
  define p' where "p' = (if hd p \<noteq> CHR ''/'' then ''/'' @ p else p)"
  define es where "es = clean_elems [] (split_on CHR ''/'' p')"
  have clean: "\<forall>e \<in> set es. clean_elem e"
    unfolding es_def by (rule clean_elems_clean) (auto dest: split_on_free)
  have np: "path_Clean p' = ''/'' @ join ''/'' es" by (simp add: path_Clean_def es_def)
  have p: "cleanPath p = (if last p' = CHR ''/'' \<and> es \<noteq> [] then ''/'' @ join ''/'' es @ ''/'' else ''/'' @ join ''/'' es)"
    using False clean by (auto simp: cleanPath_def Let_def p'_def [symmetric] np join_Nil_iff clean_elem_def)
  have same: "path_Clean (''/'' @ join ''/'' es) = ''/'' @ join ''/'' es"
      "path_Clean (''/'' @ join ''/'' es @ ''/'') = ''/'' @ join ''/'' es"
    using clean_elems_join [OF clean]
    by (simp_all add: path_Clean_def split_on_snoc clean_elems_snoc_empty)
  have no_slash: "last (''/'' @ join ''/'' es) \<noteq> CHR ''/''" if "es \<noteq> []"
  proof -
    have "clean_elem (last es)" using clean that by auto
    then have "last es \<noteq> []" "CHR ''/'' \<notin> set (last es)" by (auto simp: clean_elem_def)
    then have "last (join ''/'' es) \<noteq> CHR ''/''" using that last_join [of es "''/''"] last_in_set by metis
    moreover have "join ''/'' es \<noteq> []" using clean that by (subst join_Nil_iff) (auto simp: clean_elem_def)
    ultimately show ?thesis by simp
  qed
  show ?thesis
    using same no_slash clean unfolding p
    by (cases "es = []") (auto simp: cleanPath_def join_Nil_iff clean_elem_def)
qed

section \<open>Properties\<close>

text \<open>Which route a canonical path takes under a method, and with which key.\<close>

definition route_of :: "string \<Rightarrow> string \<Rightarrow> (route \<times> string) option" where
  "route_of meth path =
     (if path = ''/health'' then Some (R_health, [])
      else if path = ''/streams'' then Some (R_streams, [])
      else case stream_key path of None \<Rightarrow> None
       | Some key \<Rightarrow>
           (if meth = ''GET'' then Some (R_sub, key) else if meth = ''POST'' then Some (R_pub, key)
            else if meth = ''PUT'' then Some (R_put, key) else None))"

lemma route_Match_app:
  "route_Match (app_route (path_regexp l) h []) q empty_match =
     (if ur_path q = l then Some \<lparr>rm_Handler = Some (Handler h), rm_Vars = []\<rparr> else None)"
  "route_Match (app_route key_regexp h [M_methods [x]]) q empty_match =
     (case stream_key (ur_path q) of None \<Rightarrow> None
      | Some k \<Rightarrow> if ur_method q = x then Some \<lparr>rm_Handler = Some (Handler h), rm_Vars = [(''key'', k)]\<rparr> else None)"
proof -
  have sub: "rr_subject (path_regexp l) q = ur_path q" "rr_subject key_regexp q = ur_path q"
    "rr_strictSlash (path_regexp l) = False" "rr_strictSlash key_regexp = False"
    "rr_varsN (path_regexp l) = []" "rr_varsN key_regexp = [''key'']"
    by (simp_all add: rr_subject_def path_regexp_def key_regexp_def)
  show "route_Match (app_route (path_regexp l) h []) q empty_match =
     (if ur_path q = l then Some \<lparr>rm_Handler = Some (Handler h), rm_Vars = []\<rparr> else None)"
    by (simp add: route_Match_def app_route_def rr_Match_def rx_match_def sub path_match empty_match_def
        rg_setMatch_def store_vars_def)
  show "route_Match (app_route key_regexp h [M_methods [x]]) q empty_match =
     (case stream_key (ur_path q) of None \<Rightarrow> None
      | Some k \<Rightarrow> if ur_method q = x then Some \<lparr>rm_Handler = Some (Handler h), rm_Vars = [(''key'', k)]\<rparr> else None)"
    by (auto simp: route_Match_def app_route_def rr_Match_def rx_match_def sub key_match empty_match_def
        rg_setMatch_def store_vars_def split: option.splits)
qed

lemma app_router_Match:
  "map_option snd (router_Match app_router q) =
     map_option (\<lambda>(rt, k). \<lparr>rm_Handler = Some (Handler rt),
         rm_Vars = (if rt = R_health \<or> rt = R_streams then [] else [(''key'', k)])\<rparr>)
       (route_of (ur_method q) (ur_path q))"
  by (auto simp: router_Match_def app_routes route_Match_app route_of_def split: option.splits)

lemma ctx_Get_Set:
  "ctx_Get r k (ctx_Set now r j v cx) = (if k = j then Some v else ctx_Get r k cx)"
  by (auto simp: ctx_Get_def ctx_Set_def Let_def AList.update_conv' split: option.splits)

lemma ctx_Clear_Set [simp]: "ctx_Clear r (ctx_Set now r j v cx) = ctx_Clear r cx"
  by (simp add: ctx_Clear_def ctx_clear_def ctx_Set_def Let_def AList.delete_update_same)

lemma serve_routed_cases:
  "serve_routed cf now n cx path r s =
     (if cleanPath path \<noteq> path then (moved_to (url_String (cleanPath path) (hr_query r)) s, cx)
      else (case route_of (hr_method r) path of
              None \<Rightarrow> http_Error ''404 page not found'' 404 s
            | Some (rt, key) \<Rightarrow>
                (case app_handler cf rt of None \<Rightarrow> s | Some fn \<Rightarrow> fn (r\<lparr>hr_key := key\<rparr>) s),
            ctx_Clear n cx))"
proof (cases "cleanPath path = path")
  case True
  define q where "q = url_of path r"
  have q: "ur_path q = path" "ur_method q = hr_method r" by (simp_all add: q_def url_of_def)
  have cfg: "\<not> rt_KeepContext app_router" "rt_NotFound app_router = None"
    by (simp_all add: app_router_def router_HandleFunc_def router_NewRoute_def newRouter_def)
  show ?thesis
  proof (cases "router_Match app_router q")
    case None
    then show ?thesis
      using True app_router_Match [of q] cfg
      by (simp add: serve_routed_def router_ServeHTTP_def q_def [symmetric] q Let_def)
  next
    case (Some x)
    obtain rt m where x: "x = (rt, m)" by (cases x)
    obtain h k where hk: "route_of (hr_method r) path = Some (h, k)"
      and m: "m = \<lparr>rm_Handler = Some (Handler h), rm_Vars = (if h = R_health \<or> h = R_streams then [] else [(''key'', k)])\<rparr>"
      using app_router_Match [of q] Some by (cases "route_of (hr_method r) path") (auto simp: x q)
    have key: "h = R_health \<or> h = R_streams \<Longrightarrow> k = []"
      using hk by (auto simp: route_of_def split: if_splits option.splits)
    show ?thesis
      using True Some cfg hk key
      by (auto simp: serve_routed_def router_ServeHTTP_def q_def [symmetric] q Let_def x m
          mux_setVars_def mux_setCurrentRoute_def mux_Vars_def ctx_Get_Set split: option.splits)
  qed
next
  case False
  then show ?thesis by (simp add: serve_routed_def router_ServeHTTP_def url_of_def Let_def)
qed

text \<open>
  C12. The router leads every request to the handler the server has registered for it: a path that
  is not canonical is answered 301 with the canonical path and the query; \<open>/health\<close> and
  \<open>/streams\<close> go to their handlers under every method; below \<open>/streams/\<close> everything that follows,
  slashes included, is the key that the handlers of \<open>GET\<close>, \<open>POST\<close> and \<open>PUT\<close> are given, unless
  it is empty or has a line feed; everything else is answered 404. The values stored for the
  request are cleared.
\<close>

theorem routes_exact:
  "serve_routed cf now n cx path r s =
     (if cleanPath path \<noteq> path then (moved_to (url_String (cleanPath path) (hr_query r)) s, cx)
      else (case route_of (hr_method r) path of
              None \<Rightarrow> http_Error ''404 page not found'' 404 s
            | Some (rt, key) \<Rightarrow>
                (case app_handler cf rt of None \<Rightarrow> s | Some fn \<Rightarrow> fn (r\<lparr>hr_key := key\<rparr>) s),
            ctx_Clear n cx))"
  by (rule serve_routed_cases)

text \<open>
  A client is sent to another path at most once: whatever the routes, the request for the path
  it was redirected to is not redirected to a canonical path again.
\<close>

theorem moved_only_once:
  assumes "fst (router_ServeHTTP R now n q cx) = Moved p"
  shows "fst (router_ServeHTTP R' now' n' (q'\<lparr>ur_path := p\<rparr>) cx') \<noteq> Moved p'"
proof -
  have "cleanPath p = p"
    using assms by (auto simp: router_ServeHTTP_def Let_def split: if_splits option.splits prod.splits)
  then show ?thesis by (simp add: router_ServeHTTP_def Let_def split: option.splits prod.splits)
qed

text \<open>A key with an empty element.\<close>

definition demo_url :: url_request where
  "demo_url = \<lparr>ur_method = ''POST'', ur_path = ''/streams/a//b'', ur_rawQuery = [], ur_host = ''busl'',
     ur_urlHost = None, ur_scheme = [], ur_headers = []\<rparr>"

theorem moved_only_once_witness:
  "\<forall>cx p. fst (router_ServeHTTP app_router 0 0 demo_url cx) = Moved ''/streams/a/b''
     \<and> fst (router_ServeHTTP app_router 1 1 (demo_url\<lparr>ur_path := ''/streams/a/b''\<rparr>) cx) \<noteq> Moved p"
proof (intro allI)
  fix cx p
  have c: "cleanPath ''/streams/a//b'' = ''/streams/a/b''" by code_simp
  have m: "fst (router_ServeHTTP app_router 0 0 demo_url cx) = Moved ''/streams/a/b''"
    by (simp add: router_ServeHTTP_def demo_url_def c)
  with moved_only_once [OF m, of app_router 1 1 demo_url cx p]
  show "fst (router_ServeHTTP app_router 0 0 demo_url cx) = Moved ''/streams/a/b''
     \<and> fst (router_ServeHTTP app_router 1 1 (demo_url\<lparr>ur_path := ''/streams/a/b''\<rparr>) cx) \<noteq> Moved p" by blast
qed

end
