(* ===== verification/MuxUrl.thy ===== *)
theory MuxUrl
  imports Router
begin

text \<open>
  The building of URLs, the named routes and the other ways to register a route of \<open>gorilla/mux\<close>
  (\<open>regexp.go\<close>, \<open>route.go\<close>, \<open>mux.go\<close>), for a router without a parent. A function of the user that changes
  the variables before they are used (\<open>BuildVarsFunc\<close>) is an argument.
\<close>

section \<open>regexp.go\<close>

text \<open>
  \<open>fmt.Sprintf\<close> with a format that has no verb but \<open>%s\<close>, and as many of them as there are values;
  \<open>None\<close> is a text with a complaint of \<open>fmt\<close> in it.
\<close>

fun sprintf_s :: "string \<Rightarrow> string list \<Rightarrow> string option" where
  "sprintf_s [] vs = (if vs = [] then Some [] else None)"
| "sprintf_s (c # s) vs =
     (if c \<noteq> CHR ''%'' then map_option (Cons c) (sprintf_s s vs)
      else case s of
        d # t \<Rightarrow>
          (if d = CHR ''%'' then map_option (Cons d) (sprintf_s t vs)
           else if d = CHR ''s'' then (case vs of [] \<Rightarrow> None | v # ws \<Rightarrow> map_option ((@) v) (sprintf_s t ws))
           else None)
      | [] \<Rightarrow> None)"

text \<open>The values of the variables, in their order; the name of one that is missing.\<close>

fun url_values :: "(string \<times> string) list \<Rightarrow> string list \<Rightarrow> string + string list" where
  "url_values m [] = Inr []"
| "url_values m (v # vs) =
     (case map_of m v of None \<Rightarrow> Inl v
      | Some value \<Rightarrow> (case url_values m vs of Inl e \<Rightarrow> Inl e | Inr r \<Rightarrow> Inr (value # r)))"

fun all_validate :: "(string \<times> string) list \<Rightarrow> string list \<Rightarrow> regexp list \<Rightarrow> bool" where
  "all_validate m (v # vs) (r # rs) =
     (if \<not> rx_match r (case map_of m v of None \<Rightarrow> [] | Some x \<Rightarrow> x) then False else all_validate m vs rs)"
| "all_validate m _ _ = True"

definition rr_url :: "routeRegexp \<Rightarrow> (string \<times> string) list \<Rightarrow> go_error + string" where
  "rr_url r m =
     (case url_values m (rr_varsN r) of
        Inl v \<Rightarrow> Inl (ErrOther ''mux: missing route variable'')
      | Inr urlValues \<Rightarrow>
          (case sprintf_s (rr_reverse r) urlValues of
             None \<Rightarrow> Inl (ErrOther ''mux: the template has a percent sign'')
           | Some rv \<Rightarrow>
               (if \<not> rx_match (rr_regexp r) rv \<and> \<not> all_validate m (rr_varsN r) (rr_varsR r)
                then Inl (ErrOther ''mux: variable does not match'') else Inr rv)))"

section \<open>route.go\<close>

record url_parts =
  up_Scheme :: string
  up_Host :: string
  up_Path :: string

type_synonym build_vars = "((string \<times> string) list \<Rightarrow> (string \<times> string) list) option"

definition route_buildVars :: "build_vars \<Rightarrow> (string \<times> string) list \<Rightarrow> (string \<times> string) list" where
  "route_buildVars f m = (case f of None \<Rightarrow> m | Some g \<Rightarrow> g m)"

definition route_prepareVars :: "build_vars \<Rightarrow> string list \<Rightarrow> go_error + (string \<times> string) list" where
  "route_prepareVars f pairs =
     (case mapFromPairs pairs [] of
        None \<Rightarrow> Inl (ErrOther ''mux: number of parameters must be multiple of 2'')
      | Some m \<Rightarrow> Inr (route_buildVars f m))"

definition route_URL :: "build_vars \<Rightarrow> 'h mux_route \<Rightarrow> string list \<Rightarrow> go_error + url_parts" where
  "route_URL f r pairs =
     (case mr_err r of Some e \<Rightarrow> Inl e
      | None \<Rightarrow>
          (case mr_regexp r of None \<Rightarrow> Inl (ErrOther ''mux: route does not have a host or path'')
           | Some g \<Rightarrow>
               (case route_prepareVars f pairs of Inl e \<Rightarrow> Inl e
                | Inr m \<Rightarrow>
                    (case (case rg_host g of None \<Rightarrow> Inr ([], []) | Some h \<Rightarrow>
                             (case rr_url h m of Inl e \<Rightarrow> Inl e | Inr host \<Rightarrow> Inr (''http'', host))) of
                       Inl e \<Rightarrow> Inl e
                     | Inr (scheme, host) \<Rightarrow>
                         (case (case rg_path g of None \<Rightarrow> Inr [] | Some p \<Rightarrow> rr_url p m) of
                            Inl e \<Rightarrow> Inl e
                          | Inr path \<Rightarrow> Inr \<lparr>up_Scheme = scheme, up_Host = host, up_Path = path\<rparr>)))))"

definition route_URLHost :: "build_vars \<Rightarrow> 'h mux_route \<Rightarrow> string list \<Rightarrow> go_error + url_parts" where
  "route_URLHost f r pairs =
     (case mr_err r of Some e \<Rightarrow> Inl e
      | None \<Rightarrow>
          (case Option.bind (mr_regexp r) rg_host of None \<Rightarrow> Inl (ErrOther ''mux: route does not have a host'')
           | Some h \<Rightarrow>
               (case route_prepareVars f pairs of Inl e \<Rightarrow> Inl e
                | Inr m \<Rightarrow>
                    (case rr_url h m of Inl e \<Rightarrow> Inl e
                     | Inr host \<Rightarrow> Inr \<lparr>up_Scheme = ''http'', up_Host = host, up_Path = []\<rparr>))))"

definition route_URLPath :: "build_vars \<Rightarrow> 'h mux_route \<Rightarrow> string list \<Rightarrow> go_error + url_parts" where
  "route_URLPath f r pairs =
     (case mr_err r of Some e \<Rightarrow> Inl e
      | None \<Rightarrow>
          (case Option.bind (mr_regexp r) rg_path of None \<Rightarrow> Inl (ErrOther ''mux: route does not have a path'')
           | Some p \<Rightarrow>
               (case route_prepareVars f pairs of Inl e \<Rightarrow> Inl e
                | Inr m \<Rightarrow>
                    (case rr_url p m of Inl e \<Rightarrow> Inl e
                     | Inr path \<Rightarrow> Inr \<lparr>up_Scheme = [], up_Host = [], up_Path = path\<rparr>))))"

section \<open>Named routes\<close>

text \<open>\<open>namedRoutes\<close> maps a name to the route at a position of the router's list.\<close>

record 'h named_router =
  nr_router :: "'h router"
  nr_named :: "(string \<times> nat) list"

definition route_Name :: "nat \<Rightarrow> string \<Rightarrow> 'h named_router \<Rightarrow> 'h named_router" where
  "route_Name i name R =
     (let rs = rt_routes (nr_router R); r = rs ! i;
          r1 = (if mr_name r \<noteq> [] then r\<lparr>mr_err := Some (ErrOther ''mux: route already has name'')\<rparr> else r)
      in if mr_err r1 = None
         then R\<lparr>nr_router := (nr_router R)\<lparr>rt_routes := rs[i := r1\<lparr>mr_name := name\<rparr>]\<rparr>,
                nr_named := AList.update name i (nr_named R)\<rparr>
         else R\<lparr>nr_router := (nr_router R)\<lparr>rt_routes := rs[i := r1]\<rparr>\<rparr>)"

definition router_Get :: "string \<Rightarrow> 'h named_router \<Rightarrow> 'h mux_route option" where
  "router_Get name R = map_option (\<lambda>i. rt_routes (nr_router R) ! i) (map_of (nr_named R) name)"

definition router_GetRoute :: "string \<Rightarrow> 'h named_router \<Rightarrow> 'h mux_route option" where
  "router_GetRoute name R = router_Get name R"

section \<open>Getters\<close>

definition route_GetError :: "'h mux_route \<Rightarrow> go_error option" where
  "route_GetError r = mr_err r"

definition route_GetHandler :: "'h mux_route \<Rightarrow> 'h option" where
  "route_GetHandler r = mr_handler r"

definition route_GetName :: "'h mux_route \<Rightarrow> string" where
  "route_GetName r = mr_name r"

section \<open>Registering routes\<close>

definition route_HandlerFunc :: "'h \<Rightarrow> 'h mux_route \<Rightarrow> 'h mux_route" where
  "route_HandlerFunc f r = route_Handler f r"

text \<open>The method registers an empty route and returns what one method of the route makes of it; \<open>f\<close> is
  what the caller does with that.\<close>

definition router_Handle :: "string \<Rightarrow> 'h \<Rightarrow> ('h mux_route \<Rightarrow> 'h mux_route) \<Rightarrow> 'h router \<Rightarrow> 'h router" where
  "router_Handle path h f R = router_NewRoute (\<lambda>r. f (route_Handler h (route_Path path r))) R"

definition router_Headers :: "string list \<Rightarrow> ('h mux_route \<Rightarrow> 'h mux_route) \<Rightarrow> 'h router \<Rightarrow> 'h router" where
  "router_Headers pairs f R = router_NewRoute (f \<circ> route_Headers pairs) R"

definition router_Host :: "string \<Rightarrow> ('h mux_route \<Rightarrow> 'h mux_route) \<Rightarrow> 'h router \<Rightarrow> 'h router" where
  "router_Host tpl f R = router_NewRoute (f \<circ> route_Host tpl) R"

definition router_MatcherFunc :: "(url_request \<Rightarrow> bool) \<Rightarrow> ('h mux_route \<Rightarrow> 'h mux_route) \<Rightarrow> 'h router \<Rightarrow> 'h router" where
  "router_MatcherFunc m f R = router_NewRoute (f \<circ> route_MatcherFunc m) R"

definition router_Methods :: "string list \<Rightarrow> ('h mux_route \<Rightarrow> 'h mux_route) \<Rightarrow> 'h router \<Rightarrow> 'h router" where
  "router_Methods methods f R = router_NewRoute (f \<circ> route_Methods methods) R"

definition router_Path :: "string \<Rightarrow> ('h mux_route \<Rightarrow> 'h mux_route) \<Rightarrow> 'h router \<Rightarrow> 'h router" where
  "router_Path tpl f R = router_NewRoute (f \<circ> route_Path tpl) R"

definition router_PathPrefix :: "string \<Rightarrow> ('h mux_route \<Rightarrow> 'h mux_route) \<Rightarrow> 'h router \<Rightarrow> 'h router" where
  "router_PathPrefix tpl f R = router_NewRoute (f \<circ> route_PathPrefix tpl) R"

definition router_Schemes :: "string list \<Rightarrow> ('h mux_route \<Rightarrow> 'h mux_route) \<Rightarrow> 'h router \<Rightarrow> 'h router" where
  "router_Schemes schemes f R = router_NewRoute (f \<circ> route_Schemes schemes) R"

text \<open>
  \<open>Queries\<close> of an odd number of arguments leaves a broken route registered and returns nil, on which no
  method can be called.
\<close>

definition router_Queries :: "string list \<Rightarrow> ('h mux_route \<Rightarrow> 'h mux_route) \<Rightarrow> 'h router \<Rightarrow> 'h router" where
  "router_Queries pairs f R =
     router_NewRoute (\<lambda>r. case route_Queries pairs r of Some r' \<Rightarrow> f r'
       | None \<Rightarrow> r\<lparr>mr_err := Some (ErrOther ''mux: number of parameters must be multiple of 2'')\<rparr>) R"

section \<open>Lemmas\<close>

lemma rx_at_star_only:
  "rx_at (Atom a Star # [Dollar]) first s cur done = (if list_all (atom_ok a) s then Some done else None)"
  by (induction s arbitrary: first cur) simp_all

lemma rx_match_plus: "rx_match [Caret, Atom a Plus, Dollar] s \<longleftrightarrow> s \<noteq> [] \<and> list_all (atom_ok a) s"
  by (cases s) (simp_all add: rx_match_def rx_submatch_caret rx_at_star_only del: rx_at.simps(8))

lemma dots_ok: "list_all (atom_ok Dot) t \<longleftrightarrow> CHR 0x0A \<notin> set t"
  by (induction t) auto

lemma key_url: "rr_url key_regexp [(''key'', k)] =
    (if k \<noteq> [] \<and> CHR 0x0A \<notin> set k then Inr (''/streams/'' @ k) else Inl (ErrOther ''mux: variable does not match''))"
proof -
  have f: "sprintf_s ''/streams/%s'' [k] = Some (''/streams/'' @ k)" by simp
  have m: "rx_match (rr_regexp key_regexp) (''/streams/'' @ k) \<longleftrightarrow> k \<noteq> [] \<and> CHR 0x0A \<notin> set k"
    by (simp add: rx_match_def key_match stream_key_def)
  have v: "all_validate [(''key'', k)] (rr_varsN key_regexp) (rr_varsR key_regexp) \<longleftrightarrow> k \<noteq> [] \<and> CHR 0x0A \<notin> set k"
    by (simp add: key_regexp_def rx_match_plus dots_ok)
  have n: "rr_varsN key_regexp = [''key'']" "rr_reverse key_regexp = ''/streams/%s''" by (simp_all add: key_regexp_def)
  show ?thesis unfolding rr_url_def n(2) using m v by (simp add: n f del: sprintf_s.simps)
qed

section \<open>Properties\<close>



end
