(* ===== verification/Subrouter.thy ===== *)
theory Subrouter
  imports MuxUrl
begin

text \<open>
  Subrouters of \<open>gorilla/mux\<close> (\<open>route.go\<close>, \<open>mux.go\<close>): a route may have a router among its matchers,
  whose routes inherit the expressions of the route's host, path and queries. Matching passes one
  \<open>RouteMatch\<close> through all levels, which a matcher changes even when a later one fails.
\<close>

section \<open>Routers nested in routes\<close>

text \<open>
  A route with its matchers in their order; the list \<open>mr_matchers\<close> of the record itself is not used.
\<close>

datatype 'h sub_route = Sub_route "'h mux_route" "'h sub_matcher list"
  and 'h sub_matcher = Plain_matcher matcher | Router_matcher "'h sub_route list"

record 'h sub_match =
  sm_Route :: "'h mux_route option"
  sm_match :: "'h routeMatch"

definition sub_empty :: "'h sub_match" where
  "sub_empty = \<lparr>sm_Route = None, sm_match = empty_match\<rparr>"

text \<open>What a route adds once all of its matchers have matched.\<close>

definition sub_collect :: "'h mux_route \<Rightarrow> url_request \<Rightarrow> 'h sub_match \<Rightarrow> 'h sub_match" where
  "sub_collect r q m =
     (let m1 = (if sm_Route m = None then m\<lparr>sm_Route := Some r\<rparr> else m);
          m2 = (if rm_Handler (sm_match m1) = None
                then m1\<lparr>sm_match := (sm_match m1)\<lparr>rm_Handler := map_option Handler (mr_handler r)\<rparr>\<rparr> else m1)
      in case mr_regexp r of None \<Rightarrow> m2 | Some g \<Rightarrow> m2\<lparr>sm_match := rg_setMatch g q (sm_match m2)\<rparr>)"

fun sub_route_Match :: "'h sub_route \<Rightarrow> url_request \<Rightarrow> 'h sub_match \<Rightarrow> bool \<times> 'h sub_match"
  and sub_all_match :: "'h sub_matcher list \<Rightarrow> url_request \<Rightarrow> 'h sub_match \<Rightarrow> bool \<times> 'h sub_match"
  and sub_m_Match :: "'h sub_matcher \<Rightarrow> url_request \<Rightarrow> 'h sub_match \<Rightarrow> bool \<times> 'h sub_match"
  and sub_router_Match :: "'h sub_route list \<Rightarrow> url_request \<Rightarrow> 'h sub_match \<Rightarrow> bool \<times> 'h sub_match" where
  "sub_route_Match (Sub_route r ms) q m =
     (if mr_buildOnly r \<or> mr_err r \<noteq> None then (False, m)
      else case sub_all_match ms q m of
        (False, m') \<Rightarrow> (False, m')
      | (True, m') \<Rightarrow> (True, sub_collect r q m'))"
| "sub_all_match [] q m = (True, m)"
| "sub_all_match (x # ms) q m =
     (case sub_m_Match x q m of (False, m') \<Rightarrow> (False, m') | (True, m') \<Rightarrow> sub_all_match ms q m')"
| "sub_m_Match (Plain_matcher x) q m = (m_Match x q, m)"
| "sub_m_Match (Router_matcher rs) q m = sub_router_Match rs q m"
| "sub_router_Match [] q m = (False, m)"
| "sub_router_Match (r # rs) q m =
     (case sub_route_Match r q m of (True, m') \<Rightarrow> (True, m') | (False, m') \<Rightarrow> sub_router_Match rs q m')"

section \<open>Building\<close>

text \<open>
  \<open>getRegexpGroup\<close> of a route whose router has a parent: the first matcher of the route that needs the
  expressions copies the parent's. A router without a parent has none.
\<close>

definition router_getRegexpGroup :: "'h mux_route option \<Rightarrow> regexpGroup option" where
  "router_getRegexpGroup parent = (case parent of None \<Rightarrow> None | Some p \<Rightarrow> Some (getRegexpGroup p))"

definition inherit :: "'h mux_route option \<Rightarrow> 'h mux_route \<Rightarrow> 'h mux_route" where
  "inherit parent r =
     (if mr_err r = None \<and> mr_regexp r = None then r\<lparr>mr_regexp := router_getRegexpGroup parent\<rparr> else r)"

definition sub_addRegexpMatcher ::
  "'h mux_route option \<Rightarrow> string \<Rightarrow> bool \<Rightarrow> bool \<Rightarrow> bool \<Rightarrow> 'h mux_route \<Rightarrow> 'h mux_route \<times> go_error option" where
  "sub_addRegexpMatcher parent tpl matchHost matchPrefix matchQuery r =
     addRegexpMatcher tpl matchHost matchPrefix matchQuery (inherit parent r)"

text \<open>A route built by the methods of \<open>mux_route\<close>, and the same with a subrouter as its last matcher.\<close>

definition plain_route :: "'h mux_route \<Rightarrow> 'h sub_route" where
  "plain_route r = Sub_route r (map Plain_matcher (mr_matchers r))"

definition route_Subrouter :: "'h sub_route list \<Rightarrow> 'h mux_route \<Rightarrow> 'h sub_route" where
  "route_Subrouter rs r =
     (if mr_err r = None then Sub_route r (map Plain_matcher (mr_matchers r) @ [Router_matcher rs])
      else plain_route r)"

text \<open>\<open>buildVars\<close> along the chain of parents, the outermost function first.\<close>

fun chain_buildVars :: "build_vars list \<Rightarrow> (string \<times> string) list \<Rightarrow> (string \<times> string) list" where
  "chain_buildVars [] m = m"
| "chain_buildVars (f # parents) m = route_buildVars f (chain_buildVars parents m)"

section \<open>A flat reference\<close>

text \<open>
  The routes of a tree in which every subrouter is the last matcher of its route, as \<open>Subrouter\<close> makes
  them, laid out flat: the matchers on the way to a leaf, and the routes from the leaf outwards.
\<close>

fun flat_route :: "'h sub_route \<Rightarrow> (matcher list \<times> 'h mux_route list) list"
  and flat_matchers :: "'h sub_matcher list \<Rightarrow> (matcher list \<times> 'h mux_route list) list"
  and flat_router :: "'h sub_route list \<Rightarrow> (matcher list \<times> 'h mux_route list) list" where
  "flat_route (Sub_route r ms) =
     (if mr_buildOnly r \<or> mr_err r \<noteq> None then []
      else map (\<lambda>(xs, rs). (xs, rs @ [r])) (flat_matchers ms))"
| "flat_matchers [] = [([], [])]"
| "flat_matchers (Plain_matcher x # ms) = map (\<lambda>(xs, rs). (x # xs, rs)) (flat_matchers ms)"
| "flat_matchers (Router_matcher rs # ms) = flat_router rs"
| "flat_router [] = []"
| "flat_router (r # rs) = flat_route r @ flat_router rs"

fun sub_last :: "'h sub_route \<Rightarrow> bool"
  and subs_last :: "'h sub_matcher list \<Rightarrow> bool"
  and all_last :: "'h sub_route list \<Rightarrow> bool" where
  "sub_last (Sub_route r ms) = subs_last ms"
| "subs_last [] = True"
| "subs_last (Plain_matcher x # ms) = subs_last ms"
| "subs_last (Router_matcher rs # ms) = (ms = [] \<and> all_last rs)"
| "all_last [] = True"
| "all_last (r # rs) = (sub_last r \<and> all_last rs)"

definition first_flat :: "(matcher list \<times> 'h mux_route list) list \<Rightarrow> url_request \<Rightarrow> 'h mux_route list option" where
  "first_flat fs q = map_option snd (List.find (\<lambda>(xs, rs). all_match xs q) fs)"

definition flat_result :: "'h mux_route list option \<Rightarrow> url_request \<Rightarrow> 'h sub_match \<Rightarrow> bool \<times> 'h sub_match" where
  "flat_result found q m = (case found of None \<Rightarrow> (False, m) | Some rs \<Rightarrow> (True, fold (\<lambda>r. sub_collect r q) rs m))"

lemma first_flat_append:
  "first_flat (fs @ gs) q = (case first_flat fs q of None \<Rightarrow> first_flat gs q | Some rs \<Rightarrow> Some rs)"
  by (induction fs) (auto simp: first_flat_def)

lemma first_flat_outer:
  "first_flat (map (\<lambda>(xs, rs). (xs, rs @ [r])) fs) q = map_option (\<lambda>rs. rs @ [r]) (first_flat fs q)"
  by (induction fs) (auto simp: first_flat_def)

lemma first_flat_cons:
  "first_flat (map (\<lambda>(xs, rs). (x # xs, rs)) fs) q = (if m_Match x q then first_flat fs q else None)"
  by (cases "m_Match x q"; induction fs) (auto simp: first_flat_def)

lemma first_flat_Nil [simp]: "first_flat [] q = None" "first_flat [([], rs)] q = Some rs"
  by (simp_all add: first_flat_def)

lemma sub_matches_flat:
  "sub_last r \<Longrightarrow> sub_route_Match r q m = flat_result (first_flat (flat_route r) q) q m"
  "subs_last ms \<Longrightarrow> sub_all_match ms q m = flat_result (first_flat (flat_matchers ms) q) q m"
  "subs_last [x] \<Longrightarrow> sub_m_Match x q m = flat_result (first_flat (flat_matchers [x]) q) q m"
  "all_last rs \<Longrightarrow> sub_router_Match rs q m = flat_result (first_flat (flat_router rs) q) q m"
proof (induction r q m and ms q m and x q m and rs q m
    rule: sub_route_Match_sub_all_match_sub_m_Match_sub_router_Match.induct)
  case (1 r ms q m)
  then show ?case
    by (auto simp: first_flat_outer flat_result_def split: option.splits)
next
  case (3 x ms q m)
  then show ?case
    by (cases x) (auto simp: first_flat_cons flat_result_def split: option.splits prod.splits)
next
  case (7 r rs q m)
  then show ?case
    by (auto simp: first_flat_append flat_result_def split: option.splits) blast+
qed (auto simp: flat_result_def first_flat_def)

text \<open>A router without subrouters matches as before.\<close>

lemma sub_all_plain: "sub_all_match (map Plain_matcher ms) q m = (all_match ms q, m)"
  by (induction ms) auto

lemma plain_router:
  "sub_router_Match (map plain_route rs) q sub_empty =
     (case routes_Match rs q empty_match of None \<Rightarrow> (False, sub_empty)
      | Some (r, m) \<Rightarrow> (True, \<lparr>sm_Route = Some r, sm_match = m\<rparr>))"
  by (induction rs)
    (auto simp: plain_route_def sub_all_plain route_Match_def sub_collect_def sub_empty_def Let_def split: option.splits)

lemma flat_path_not_Nil:
  "(xs, path) \<in> set (flat_route r) \<Longrightarrow> path \<noteq> []"
  by (cases r) (auto split: if_splits)

lemma flat_router_not_Nil: "(xs, path) \<in> set (flat_router rs) \<Longrightarrow> path \<noteq> []"
  by (induction rs) (auto dest: flat_path_not_Nil)

lemma collect_Route: "sm_Route (fold (\<lambda>r. sub_collect r q) path m) = (case sm_Route m of Some r \<Rightarrow> Some r
    | None \<Rightarrow> (case path of [] \<Rightarrow> None | r # rs \<Rightarrow> Some r))"
proof (induction path arbitrary: m)
  case (Cons r path)
  have "sm_Route (sub_collect r q m) = (case sm_Route m of Some r' \<Rightarrow> Some r' | None \<Rightarrow> Some r)"
    by (auto simp: sub_collect_def Let_def split: option.splits)
  with Cons.IH [of "sub_collect r q m"] show ?case by (auto split: option.splits)
qed (simp split: option.splits)

lemma first_flat_Some: "first_flat fs q = Some path \<Longrightarrow> \<exists>xs. (xs, path) \<in> set fs \<and> all_match xs q"
  by (auto simp: first_flat_def find_Some_iff set_conv_nth)

lemma router_flat:
  assumes "all_last rs"
  shows "case first_flat (flat_router rs) q of
      None \<Rightarrow> sub_router_Match rs q sub_empty = (False, sub_empty)
    | Some path \<Rightarrow> path \<noteq> [] \<and> sub_router_Match rs q sub_empty = (True, fold (\<lambda>r. sub_collect r q) path sub_empty)
        \<and> sm_Route (snd (sub_router_Match rs q sub_empty)) = Some (hd path)"
proof (cases "first_flat (flat_router rs) q")
  case (Some path)
  with first_flat_Some flat_router_not_Nil have "path \<noteq> []" by blast
  with Some sub_matches_flat(4) [OF assms, of q sub_empty] show ?thesis
    using collect_Route [of q path sub_empty] by (cases path) (auto simp: flat_result_def sub_empty_def)
qed (use sub_matches_flat(4) [OF assms, of q sub_empty] in \<open>simp add: flat_result_def\<close>)

section \<open>Examples\<close>

definition demo_get :: "string \<Rightarrow> url_request" where
  "demo_get path = \<lparr>ur_method = ''GET'', ur_path = path, ur_rawQuery = [], ur_host = ''h'', ur_urlHost = None,
     ur_scheme = [], ur_headers = []\<rparr>"

text \<open>A route for a prefix with a subrouter that has one route, as its caller builds it.\<close>

definition demo_tree :: "string \<Rightarrow> string \<Rightarrow> nat sub_route list" where
  "demo_tree pre tpl =
     (let outer = route_PathPrefix pre (empty_route False);
          inner = route_Handler 1 (with_err (sub_addRegexpMatcher (Some outer) tpl False False False (empty_route False)))
      in [route_Subrouter [plain_route inner] outer])"

definition demo_vars :: "nat sub_route list \<Rightarrow> string \<Rightarrow> (nat dispatch option \<times> (string \<times> string) list) option" where
  "demo_vars rs path =
     (case sub_router_Match rs (demo_get path) sub_empty of (False, m) \<Rightarrow> None
      | (True, m) \<Rightarrow> Some (rm_Handler (sm_match m), rm_Vars (sm_match m)))"

lemma demo_sub: "demo_vars (demo_tree ''/a/{x}'' ''/b'') ''/a/1/b'' = Some (Some (Handler 1), [(''x'', ''1'')])"
  by code_simp

text \<open>
  The prefix is matched again once the inner route has matched: a variable whose pattern reaches beyond
  the prefix gets what the prefix alone matches, not the part of the path it stands for.
\<close>

lemma prefix_overwrites_variable:
  "demo_vars (demo_tree ''/{x:.+}'' ''/b'') ''/1/b'' = Some (Some (Handler 1), [(''x'', ''1/b'')])"
  by code_simp

text \<open>
  A route whose subrouter has matched and whose next matcher then fails leaves its route and its handler
  behind: the request, which only the second route matches, goes to the handler of the first.
\<close>

lemma failed_route_leaves_handler:
  "let leaf = route_Handler (1 :: nat) (empty_route False); other = route_Handler 2 (empty_route False);
       (ok, m) = sub_router_Match [Sub_route (empty_route False) [Router_matcher [plain_route leaf], Plain_matcher (M_methods [''POST''])],
         plain_route other] (demo_get ''/'') sub_empty
   in ok \<and> rm_Handler (sm_match m) = Some (Handler 1) \<and> map_option mr_handler (sm_Route m) = Some (Some 1)"
  by code_simp

section \<open>Property\<close>

text \<open>
  C37. Nested routers route as the flat list of their leaves: where every subrouter is the last matcher
  of its route, the request goes to the first leaf, in the order of registration, all of whose matchers
  on the way down match and none of whose routes is broken or only for building; the leaf is the current
  route, and the routes from it outwards add their handler and variables. A router without subrouters
  does what \<open>router_Match\<close> does.
\<close>

theorem subrouter_flat:
  assumes "all_last rs"
  shows "(case first_flat (flat_router rs) q of
      None \<Rightarrow> sub_router_Match rs q sub_empty = (False, sub_empty)
    | Some path \<Rightarrow> path \<noteq> [] \<and> sub_router_Match rs q sub_empty = (True, fold (\<lambda>r. sub_collect r q) path sub_empty)
        \<and> sm_Route (snd (sub_router_Match rs q sub_empty)) = Some (hd path))
    \<and> sub_router_Match (map plain_route (rt_routes R)) q sub_empty =
        (case router_Match R q of None \<Rightarrow> (False, sub_empty)
         | Some (r, m) \<Rightarrow> (True, \<lparr>sm_Route = Some r, sm_match = m\<rparr>))"
  using router_flat [OF assms] plain_router [of "rt_routes R" q] by (simp add: router_Match_def)

theorem subrouter_flat_witness:
  "\<exists>leaf outer. sub_router_Match (demo_tree ''/a/{x}'' ''/b'') (demo_get ''/a/1/b'') sub_empty
      = (True, sub_collect outer (demo_get ''/a/1/b'') (sub_collect leaf (demo_get ''/a/1/b'') sub_empty))
    \<and> sm_Route (snd (sub_router_Match (demo_tree ''/a/{x}'' ''/b'') (demo_get ''/a/1/b'') sub_empty)) = Some leaf"
proof -
  have l: "all_last (demo_tree ''/a/{x}'' ''/b'')" by code_simp
  have "map_option length (first_flat (flat_router (demo_tree ''/a/{x}'' ''/b'')) (demo_get ''/a/1/b'')) = Some 2"
    by code_simp
  then obtain leaf outer where "first_flat (flat_router (demo_tree ''/a/{x}'' ''/b'')) (demo_get ''/a/1/b'') = Some [leaf, outer]"
    by (auto simp: numeral_2_eq_2 length_Suc_conv)
  with subrouter_flat [OF l, of "demo_get ''/a/1/b''" newRouter] show ?thesis by auto
qed

end
