(* ===== verification/Rollbar.thy ===== *)
theory Rollbar
  imports GoLib "HOL-Library.AList" "HOL-Library.List_Lexorder" "HOL-Library.Char_ord" "HOL-Library.Word"
begin

unbundle bit_operations_syntax

text \<open>
  Reports of errors: the vendored package \<open>heroku/rollbar\<close> (\<open>rollbar.go\<close>, \<open>stack.go\<close>), which builds
  the JSON of an error or a message. The frames of the running goroutine (\<open>runtime.Caller\<close>), the
  clock and the parts of a request's URL are arguments. The queue of the reports is in
  \<open>RollbarQueue\<close>.
\<close>

section \<open>What the package uses of the standard library\<close>

text \<open>\<open>hash/crc32\<close> with the IEEE polynomial and \<open>hash/adler32\<close>.\<close>

fun crc_bits :: "nat \<Rightarrow> 32 word \<Rightarrow> 32 word" where
  "crc_bits 0 c = c"
| "crc_bits (Suc n) c = crc_bits n (if bit c 0 then drop_bit 1 c XOR 0xEDB88320 else drop_bit 1 c)"

definition crc32_update :: "32 word \<Rightarrow> char \<Rightarrow> 32 word" where
  "crc32_update c b = crc_bits 8 (c XOR of_nat (of_char b))"

definition crc32 :: "bytes \<Rightarrow> 32 word" where
  "crc32 s = NOT (foldl crc32_update (NOT 0) s)"

definition adler32 :: "bytes \<Rightarrow> nat" where
  "adler32 s = (let (a, b) = foldl (\<lambda>(a, b) c. let a' = (a + of_char c) mod 65521 in (a', (b + a') mod 65521)) (1, 0) s
     in b * 65536 + a)"

text \<open>\<open>%x\<close> of a number.\<close>

fun hex_nat :: "nat \<Rightarrow> string" where
  "hex_nat n = (if n < 16 then [hex_char n] else hex_nat (n div 16) @ [hex_char (n mod 16)])"

declare hex_nat.simps [simp del]

lemma crc32_check: "crc32 ''a'' = 0xE8B7BE43"
  by code_simp

lemma adler32_check: "adler32 ''Wikipedia'' = 0x11E60398"
  by (simp add: adler32_def Let_def)

section \<open>stack.go\<close>

record frame =
  fr_Filename :: string
  fr_Method :: string
  fr_Line :: int

definition knownFilePathPatterns :: "string list" where
  "knownFilePathPatterns = [''github.com/'', ''code.google.com/'', ''bitbucket.org/'', ''launchpad.net/'']"

fun known_path :: "string list \<Rightarrow> string \<Rightarrow> string" where
  "known_path [] s = s"
| "known_path (p # ps) s = (case str_index p s of Some idx \<Rightarrow> drop idx s | None \<Rightarrow> known_path ps s)"

definition shortenFilePath :: "string \<Rightarrow> string" where
  "shortenFilePath s =
     (case str_index ''/src/pkg/'' s of Some idx \<Rightarrow> drop (idx + 5) s
      | None \<Rightarrow> known_path knownFilePathPatterns s)"

text \<open>The name of the function of a program counter, if it is known, behind its last slash.\<close>

definition functionName :: "string option \<Rightarrow> string" where
  "functionName fn =
     (case fn of None \<Rightarrow> ''???'' | Some name \<Rightarrow> rev (takeWhile (\<lambda>c. c \<noteq> CHR ''/'') (rev name)))"

text \<open>The frames of a goroutine, the innermost first: function, file and line.\<close>

type_synonym callers = "(string option \<times> string \<times> int) list"

definition buildStack :: "callers \<Rightarrow> nat \<Rightarrow> frame list" where
  "buildStack cs skip = map (\<lambda>(pc, file, line).
     \<lparr>fr_Filename = shortenFilePath file, fr_Method = functionName pc, fr_Line = line\<rparr>) (drop skip cs)"

definition stack_Fingerprint :: "frame list \<Rightarrow> string" where
  "stack_Fingerprint s = hex_nat (unat (crc32
     (concat (map (\<lambda>f. fr_Filename f @ fr_Method f @ itoa (fr_Line f)) s))))"

section \<open>rollbar.go: the body of a report\<close>

datatype json =
    J_str string
  | J_int int
  | J_arr "json list"
  | J_obj "(string \<times> json) list"
  | J_frames "frame list"

text \<open>
  Errors as the package sees them: the name of their type, their text and, for those that implement
  \<open>CauseStacker\<close>, the cause and a stack of their own.
\<close>

datatype rb_error =
    Rb_plain string string
  | Rb_caused string string "rb_error option" "frame list option"

fun rb_class :: "rb_error \<Rightarrow> string" where
  "rb_class (Rb_plain c m) = c" | "rb_class (Rb_caused c m e s) = c"

fun rb_text :: "rb_error \<Rightarrow> string" where
  "rb_text (Rb_plain c m) = m" | "rb_text (Rb_caused c m e s) = m"

fun is_causeStacker :: "rb_error option \<Rightarrow> bool" where
  "is_causeStacker (Some (Rb_caused c m e s)) = True" | "is_causeStacker _ = False"

record settings =
  st_Token :: string
  st_Environment :: string
  st_CodeVersion :: string
  st_ServerHost :: string
  st_ServerRoot :: string
  st_platform :: string

definition buildBody :: "settings \<Rightarrow> int \<Rightarrow> string \<Rightarrow> string \<Rightarrow> (string \<times> json) list \<Rightarrow> (string \<times> json) list \<Rightarrow> json" where
  "buildBody st timestamp level title extras added =
     (let meta = [(''environment'', J_str (st_Environment st)), (''title'', J_str title),
            (''level'', J_str level), (''timestamp'', J_int timestamp), (''platform'', J_str (st_platform st)),
            (''language'', J_str ''go''), (''code_version'', J_str (st_CodeVersion st)),
            (''server'', J_obj [(''host'', J_str (st_ServerHost st)), (''root'', J_str (st_ServerRoot st))]),
            (''notifier'', J_obj [(''name'', J_str ''heroku/rollbar''), (''version'', J_str ''0.3.0'')])]
      in J_obj [(''access_token'', J_str (st_Token st)),
            (''data'', J_obj (fold (\<lambda>(k, v). AList.update k v) (extras @ added) meta))])"

definition errorClass :: "rb_error \<Rightarrow> string" where
  "errorClass err =
     (let cls = rb_class err
      in if cls = [] then ''panic''
         else if cls = ''*errors.errorString'' then ''{'' @ hex_nat (adler32 (rb_text err)) @ ''}''
         else if starts_with ''*'' cls then tl cls else cls)"

definition buildTrace :: "rb_error \<Rightarrow> frame list \<Rightarrow> json" where
  "buildTrace err stack = J_obj [(''frames'', J_frames stack),
     (''exception'', J_obj [(''class'', J_str (errorClass err)), (''message'', J_str (rb_text err))])]"

fun getCause :: "rb_error \<Rightarrow> rb_error option" where
  "getCause (Rb_plain c m) = None"
| "getCause (Rb_caused c m e s) = e"

fun getOrBuildStack :: "callers \<Rightarrow> rb_error \<Rightarrow> rb_error option \<Rightarrow> nat \<Rightarrow> frame list" where
  "getOrBuildStack cs (Rb_caused c m e s) parent skip = (case s of Some st \<Rightarrow> st | None \<Rightarrow> [])"
| "getOrBuildStack cs (Rb_plain c m) parent skip =
     (if \<not> is_causeStacker parent then buildStack cs (4 + skip) else [])"

text \<open>The loop of \<open>errorBody\<close>, along the causes.\<close>

fun trace_loop :: "callers \<Rightarrow> nat \<Rightarrow> rb_error option \<Rightarrow> rb_error \<Rightarrow> json list \<times> string" where
  "trace_loop cs skip parent (Rb_plain c m) =
     (let err = Rb_plain c m; stack = getOrBuildStack cs err parent skip
      in ([buildTrace err stack], stack_Fingerprint stack))"
| "trace_loop cs skip parent (Rb_caused c m None s) =
     (let err = Rb_caused c m None s; stack = getOrBuildStack cs err parent skip
      in ([buildTrace err stack], stack_Fingerprint stack))"
| "trace_loop cs skip parent (Rb_caused c m (Some e) s) =
     (let err = Rb_caused c m (Some e) s; stack = getOrBuildStack cs err parent skip;
          (chain, fingerprint) = trace_loop cs skip (Some err) e
      in (buildTrace err stack # chain, stack_Fingerprint stack @ fingerprint))"

definition errorBody :: "callers \<Rightarrow> rb_error \<Rightarrow> nat \<Rightarrow> json \<times> string" where
  "errorBody cs err skip = (let (chain, fingerprint) = trace_loop cs skip None err
     in (J_obj [(''trace_chain'', J_arr chain)], fingerprint))"

definition messageBody :: "string \<Rightarrow> json" where
  "messageBody s = J_obj [(''message'', J_obj [(''body'', J_str s)])]"

section \<open>rollbar.go: requests\<close>

type_synonym multimap = "(string \<times> string list) list"

text \<open>The patterns have no anchors: a key matches when it contains one of the words.\<close>

definition filterHeaders :: "string \<Rightarrow> bool" where
  "filterHeaders k \<longleftrightarrow> contains ''Authorization'' k"

definition filterFields :: "string \<Rightarrow> bool" where
  "filterFields k \<longleftrightarrow> contains ''password'' k \<or> contains ''secret'' k \<or> contains ''token'' k"

definition filterParams :: "(string \<Rightarrow> bool) \<Rightarrow> multimap \<Rightarrow> multimap" where
  "filterParams pattern vs = map (\<lambda>(k, v). (k, if pattern k then [''[FILTERED]''] else v)) vs"

definition flattenValues :: "multimap \<Rightarrow> json" where
  "flattenValues vs = J_obj (map (\<lambda>(k, v). (k, if length v = 1 then J_str (hd v) else J_arr (map J_str v))) vs)"

text \<open>\<open>url.Values.Encode\<close>: the keys in order, every value as a pair.\<close>

definition query_plain :: "char \<Rightarrow> bool" where
  "query_plain c \<longleftrightarrow>
     (let n = (of_char c :: nat)
      in (97 \<le> n \<and> n \<le> 122) \<or> (65 \<le> n \<and> n \<le> 90) \<or> (48 \<le> n \<and> n \<le> 57) \<or> c \<in> set ''-_.~'')"

definition query_escape :: "string \<Rightarrow> string" where
  "query_escape s = concat (map (\<lambda>c. if query_plain c then [c] else if c = CHR '' '' then ''+''
     else [CHR ''%'', ''0123456789ABCDEF'' ! (of_char c div 16), ''0123456789ABCDEF'' ! (of_char c mod 16)]) s)"

definition values_Encode :: "multimap \<Rightarrow> string" where
  "values_Encode vs = join ''&'' (concat (map (\<lambda>k.
     map (\<lambda>v. query_escape k @ ''='' @ query_escape v) (the (map_of vs k))) (sort (map fst vs))))"

text \<open>
  A request: the text of its URL, the parameters of its query, its headers and its form, nil unless
  it was parsed. \<open>URL.Query\<close> makes a new map each time; the headers and the form are the request's
  own, and \<open>filterParams\<close> writes to them.
\<close>

record rb_request =
  bq_url :: string
  bq_method :: string
  bq_query :: multimap
  bq_headers :: multimap
  bq_form :: multimap

definition errorRequest :: "rb_request \<Rightarrow> rb_request \<times> json" where
  "errorRequest r =
     (let cleanQuery = filterParams filterFields (bq_query r);
          headers = filterParams filterHeaders (bq_headers r);
          form = filterParams filterFields (bq_form r)
      in (r\<lparr>bq_headers := headers, bq_form := form\<rparr>,
          J_obj [(''url'', J_str (bq_url r)), (''method'', J_str (bq_method r)),
            (''headers'', flattenValues headers), (''query_string'', J_str (values_Encode cleanQuery)),
            (''GET'', flattenValues cleanQuery), (''POST'', flattenValues form)]))"

section \<open>rollbar.go: the calls\<close>

text \<open>Each call builds the body that it pushes; \<open>skip\<close> grows by one on the way from \<open>Error\<close>.\<close>

definition errorWithStackSkipWithExtras ::
  "settings \<Rightarrow> int \<Rightarrow> callers \<Rightarrow> string \<Rightarrow> rb_error \<Rightarrow> nat \<Rightarrow> (string \<times> json) list \<Rightarrow> json" where
  "errorWithStackSkipWithExtras st now cs level err skip extras =
     (let (errBody, fingerprint) = errorBody cs err skip
      in buildBody st now level (rb_text err) extras
           [(''body'', errBody), (''fingerprint'', J_str fingerprint)])"

definition errorWithStackSkip :: "settings \<Rightarrow> int \<Rightarrow> callers \<Rightarrow> string \<Rightarrow> rb_error \<Rightarrow> nat \<Rightarrow> json" where
  "errorWithStackSkip st now cs level err skip = errorWithStackSkipWithExtras st now cs level err skip []"

definition errorWithExtras :: "settings \<Rightarrow> int \<Rightarrow> callers \<Rightarrow> string \<Rightarrow> rb_error \<Rightarrow> (string \<times> json) list \<Rightarrow> json" where
  "errorWithExtras st now cs level err extras = errorWithStackSkipWithExtras st now cs level err 1 extras"

definition rb_Error :: "settings \<Rightarrow> int \<Rightarrow> callers \<Rightarrow> string \<Rightarrow> rb_error \<Rightarrow> json" where
  "rb_Error st now cs level err = errorWithExtras st now cs level err []"

definition requestErrorWithStackSkipWithExtras ::
  "settings \<Rightarrow> int \<Rightarrow> callers \<Rightarrow> string \<Rightarrow> rb_request \<Rightarrow> rb_error \<Rightarrow> nat \<Rightarrow> (string \<times> json) list \<Rightarrow> rb_request \<times> json" where
  "requestErrorWithStackSkipWithExtras st now cs level r err skip extras =
     (let (errBody, fingerprint) = errorBody cs err skip; (r', req) = errorRequest r
      in (r', buildBody st now level (rb_text err) extras
           [(''body'', errBody), (''fingerprint'', J_str fingerprint), (''request'', req)]))"

definition requestErrorWithStackSkip ::
  "settings \<Rightarrow> int \<Rightarrow> callers \<Rightarrow> string \<Rightarrow> rb_request \<Rightarrow> rb_error \<Rightarrow> nat \<Rightarrow> rb_request \<times> json" where
  "requestErrorWithStackSkip st now cs level r err skip =
     requestErrorWithStackSkipWithExtras st now cs level r err skip []"

definition requestErrorWithExtras ::
  "settings \<Rightarrow> int \<Rightarrow> callers \<Rightarrow> string \<Rightarrow> rb_request \<Rightarrow> rb_error \<Rightarrow> (string \<times> json) list \<Rightarrow> rb_request \<times> json" where
  "requestErrorWithExtras st now cs level r err extras =
     requestErrorWithStackSkipWithExtras st now cs level r err 1 extras"

definition requestError ::
  "settings \<Rightarrow> int \<Rightarrow> callers \<Rightarrow> string \<Rightarrow> rb_request \<Rightarrow> rb_error \<Rightarrow> rb_request \<times> json" where
  "requestError st now cs level r err = requestErrorWithExtras st now cs level r err []"

definition messageWithExtras :: "settings \<Rightarrow> int \<Rightarrow> string \<Rightarrow> string \<Rightarrow> (string \<times> json) list \<Rightarrow> json" where
  "messageWithExtras st now level msg extras =
     buildBody st now level msg extras [(''body'', messageBody msg)]"

definition rb_Message :: "settings \<Rightarrow> int \<Rightarrow> string \<Rightarrow> string \<Rightarrow> json" where
  "rb_Message st now level msg = messageWithExtras st now level msg []"

section \<open>Properties\<close>

fun member :: "json \<Rightarrow> string \<Rightarrow> json option" where
  "member (J_obj ms) k = map_of ms k"
| "member _ k = None"

lemma member_flatten:
  "member (flattenValues vs) k = map_option (\<lambda>v. if length v = 1 then J_str (hd v) else J_arr (map J_str v)) (map_of vs k)"
  unfolding flattenValues_def member.simps by (induction vs) (auto split: prod.splits)

lemma member_filtered:
  "member (flattenValues (filterParams pattern vs)) k =
     (if pattern k \<and> map_of vs k \<noteq> None then Some (J_str ''[FILTERED]'') else member (flattenValues vs) k)"
proof -
  have "map_of (filterParams pattern vs) k = map_option (\<lambda>v. if pattern k then [''[FILTERED]''] else v) (map_of vs k)"
    unfolding filterParams_def by (induction vs) auto
  then show ?thesis by (cases "map_of vs k") (simp_all add: member_flatten)
qed


text \<open>
  The length of a trace chain and its stacks: a plain error at its root is reported with the
  goroutine's stack, one with causes only with the stacks the errors bring.
\<close>

fun causes :: "rb_error \<Rightarrow> rb_error list" where
  "causes (Rb_plain c m) = [Rb_plain c m]"
| "causes (Rb_caused c m None s) = [Rb_caused c m None s]"
| "causes (Rb_caused c m (Some e) s) = Rb_caused c m (Some e) s # causes e"

definition own_stack :: "rb_error \<Rightarrow> frame list" where
  "own_stack e = (case e of Rb_caused c m x (Some s) \<Rightarrow> s | _ \<Rightarrow> [])"

lemma trace_loop_causes:
  "fst (trace_loop cs skip parent e) =
     (if \<not> is_causeStacker (Some e) \<and> \<not> is_causeStacker parent then [buildTrace e (buildStack cs (4 + skip))]
      else map (\<lambda>x. buildTrace x (own_stack x)) (causes e))"
proof (induction cs skip parent e rule: trace_loop.induct)
  case (1 cs skip parent c m)
  then show ?case by (simp add: Let_def own_stack_def)
next
  case (2 cs skip parent c m s)
  then show ?case by (simp add: Let_def own_stack_def)
next
  case (3 cs skip parent c m e s)
  then show ?case by (simp add: Let_def own_stack_def split: prod.split) (metis fst_conv)
qed

end
