(* ===== verification/Lifecycle.thy ===== *)
theory Lifecycle
  imports GoLib
begin

text \<open>
  The life of the server process: \<open>main.go\<close>, \<open>AwaitSignals\<close> of \<open>util/util.go\<close>, \<open>Start\<close> and
  \<open>listenForShutdown\<close> of \<open>server/server.go\<close>, and the graceful server of the vendored package
  \<open>braintree/manners\<close> (\<open>server.go\<close>, \<open>listener.go\<close>). Its goroutines are program counters of one
  state, the steps of a relation interleave them with the clients. The listener of the operating
  system and the connections of \<open>net/http\<close> are the environment: a connection passes through the
  states of \<open>http.ConnState\<close>, and hijacked and closed are the last ones.
\<close>

section \<open>manners\<close>

text \<open>An error of \<open>Accept\<close>; the listener marks those that come after it was closed.\<close>

datatype accept_error = Plain go_error | ListenerAlreadyClosed go_error

record listener =
  gl_open :: bool

definition newListener :: listener where
  "newListener = \<lparr>gl_open = True\<rparr>"

definition gl_Accept :: "go_error + 'c \<Rightarrow> listener \<Rightarrow> accept_error + 'c" where
  "gl_Accept x l =
     (case x of
        Inl err \<Rightarrow> Inl (if \<not> gl_open l then ListenerAlreadyClosed err else Plain err)
      | Inr conn \<Rightarrow> Inr conn)"

text \<open>\<open>err\<close> is what closing the socket returns.\<close>

definition gl_Close :: "go_error option \<Rightarrow> listener \<Rightarrow> listener \<times> go_error option" where
  "gl_Close err l = (if \<not> gl_open l then (l, None) else (l\<lparr>gl_open := False\<rparr>, err))"

datatype conn_state = StateNew | StateActive | StateIdle | StateHijacked | StateClosed

definition gs_StartRoutine :: "int \<Rightarrow> int go" where
  "gs_StartRoutine wg = Return (wg + 1)"

definition gs_FinishRoutine :: "int \<Rightarrow> int go" where
  "gs_FinishRoutine wg = (if wg - 1 < 0 then Panic ''sync: negative WaitGroup counter'' else Return (wg - 1))"

definition gs_connState :: "conn_state \<Rightarrow> int \<Rightarrow> int go" where
  "gs_connState newState wg =
     (case newState of
        StateNew \<Rightarrow> gs_StartRoutine wg
      | StateClosed \<Rightarrow> gs_FinishRoutine wg
      | StateHijacked \<Rightarrow> gs_FinishRoutine wg
      | _ \<Rightarrow> Return wg)"

text \<open>
  The end of \<open>Serve\<close> after the inner server has returned: wait for the connections, or return the
  error.
\<close>

definition gs_Serve_end :: "accept_error option \<Rightarrow> accept_error option" where
  "gs_Serve_end err =
     (case err of None \<Rightarrow> None
      | Some (ListenerAlreadyClosed e) \<Rightarrow> None
      | Some (Plain e) \<Rightarrow> Some (Plain e))"

text \<open>
  The loop of \<open>http.Server.Serve\<close> goes on after a temporary \<open>net.Error\<close>; an error that is marked
  is none.
\<close>

definition goes_on :: "(go_error \<Rightarrow> bool) \<Rightarrow> accept_error \<Rightarrow> bool" where
  "goes_on temporary err = (case err of Plain e \<Rightarrow> temporary e | ListenerAlreadyClosed e \<Rightarrow> False)"

section \<open>The process\<close>

text \<open>
  Where each goroutine is: \<open>main\<close> (with \<open>Start\<close> and \<open>ListenAndServe\<close>), the one of \<open>AwaitSignals\<close>,
  the one of \<open>listenForShutdown\<close> in package \<open>server\<close>, and the one in package \<open>manners\<close>.
\<close>

datatype main_pc = M_listen | M_serve | M_wait | M_exit nat

datatype await_pc = A_wait | A_closed

datatype shutdown_pc = L_await | L_keepalives | L_send | L_done

datatype close_pc = G_none | G_await | G_close | G_done

record life =
  lf_main :: main_pc
  lf_signal :: bool                 \<comment> \<open>the buffer of the signal channel\<close>
  lf_await :: await_pc
  lf_shutdown :: shutdown_pc
  lf_close :: close_pc
  lf_keepalives :: bool
  lf_listener :: listener
  lf_wg :: int
  lf_conns :: "conn_state list"
  lf_uploads :: nat                 \<comment> \<open>running goroutines of \<open>storeOutput\<close>\<close>

text \<open>\<open>main\<close>: a port that is no number ends the process; then the goroutines start.\<close>

definition busl_main :: "string \<Rightarrow> life" where
  "busl_main port = \<lparr>lf_main = (if snd (atoi port) \<noteq> None then M_exit 1 else M_listen), lf_signal = False,
     lf_await = A_wait, lf_shutdown = L_await, lf_close = G_none, lf_keepalives = True,
     lf_listener = newListener, lf_wg = 0, lf_conns = [], lf_uploads = 0\<rparr>"

text \<open>\<open>ListenAndServe\<close> up to the inner server; \<open>log.Fatalf\<close> in \<open>Start\<close> exits with 1.\<close>

definition listenAndServe :: "go_error option \<Rightarrow> life \<Rightarrow> life" where
  "listenAndServe err s =
     (if err \<noteq> None then s\<lparr>lf_main := M_exit 1\<rparr>
      else s\<lparr>lf_main := M_serve, lf_listener := newListener, lf_close := G_await\<rparr>)"

text \<open>A result of \<open>Accept\<close> in the inner server.\<close>

definition new_state :: "conn_state \<Rightarrow> life \<Rightarrow> life" where
  "new_state st s = (case gs_connState st (lf_wg s) of
      Return wg \<Rightarrow> s\<lparr>lf_wg := wg\<rparr> | _ \<Rightarrow> s\<lparr>lf_main := M_exit 2\<rparr>)"

definition accept :: "(go_error \<Rightarrow> bool) \<Rightarrow> go_error + unit \<Rightarrow> life \<Rightarrow> life" where
  "accept temporary x s =
     (case gl_Accept x (lf_listener s) of
        Inr _ \<Rightarrow> new_state StateNew (s\<lparr>lf_conns := lf_conns s @ [StateNew]\<rparr>)
      | Inl err \<Rightarrow>
          (if goes_on temporary err then s
           else (case gs_Serve_end (Some err) of
                   None \<Rightarrow> s\<lparr>lf_main := M_wait\<rparr>
                 | Some e \<Rightarrow> s\<lparr>lf_main := M_exit 1\<rparr>)))"

text \<open>The goroutines.\<close>

definition awaitSignals :: "life \<Rightarrow> life" where
  "awaitSignals s = s\<lparr>lf_signal := False, lf_await := A_closed\<rparr>"

fun listenForShutdown :: "shutdown_pc \<Rightarrow> life \<Rightarrow> life" where
  "listenForShutdown L_await s = s\<lparr>lf_shutdown := L_keepalives\<rparr>"
| "listenForShutdown L_keepalives s = s\<lparr>lf_keepalives := False, lf_shutdown := L_send\<rparr>"
| "listenForShutdown L_send s = s\<lparr>lf_shutdown := L_done, lf_close := G_close\<rparr>"
| "listenForShutdown L_done s = s"

definition shutdownHandler :: "go_error option \<Rightarrow> life \<Rightarrow> life" where
  "shutdownHandler err s = s\<lparr>lf_listener := fst (gl_Close err (lf_listener s)), lf_close := G_done\<rparr>"

text \<open>
  When \<open>listenForShutdown\<close> can move: its channel is closed, or \<open>manners\<close> is there to take the value.
\<close>

fun shutdown_ready :: "shutdown_pc \<Rightarrow> life \<Rightarrow> bool" where
  "shutdown_ready L_await s = (lf_await s = A_closed)"
| "shutdown_ready L_keepalives s = True"
| "shutdown_ready L_send s = (lf_close s = G_await)"
| "shutdown_ready L_done s = False"

fun conn_next :: "conn_state \<Rightarrow> conn_state \<Rightarrow> bool" where
  "conn_next StateNew st = (st = StateActive \<or> st = StateClosed)"
| "conn_next StateActive st = (st = StateIdle \<or> st = StateClosed \<or> st = StateHijacked)"
| "conn_next StateIdle st = (st = StateActive \<or> st = StateClosed)"
| "conn_next StateHijacked st = False"
| "conn_next StateClosed st = False"

definition conn_step :: "nat \<Rightarrow> conn_state \<Rightarrow> life \<Rightarrow> life" where
  "conn_step i st s = new_state st (s\<lparr>lf_conns := (lf_conns s)[i := st]\<rparr>)"

definition alive :: "life \<Rightarrow> bool" where
  "alive s \<longleftrightarrow> (\<forall>c. lf_main s \<noteq> M_exit c)"

text \<open>
  The steps the process takes by itself once it is told to stop (\<open>own_step\<close>), where the clients only
  end their connections, and those of the world around it.
\<close>

inductive own_step :: "life \<Rightarrow> life \<Rightarrow> bool" where
  Bind: "lf_main s = M_listen \<Longrightarrow> own_step s (listenAndServe None s)"
| Await: "alive s \<Longrightarrow> lf_await s = A_wait \<Longrightarrow> lf_signal s \<Longrightarrow> own_step s (awaitSignals s)"
| Shutdown: "alive s \<Longrightarrow> shutdown_ready (lf_shutdown s) s \<Longrightarrow> own_step s (listenForShutdown (lf_shutdown s) s)"
| Close: "alive s \<Longrightarrow> lf_close s = G_close \<Longrightarrow> own_step s (shutdownHandler err s)"
| Refused: "lf_main s = M_serve \<Longrightarrow> \<not> gl_open (lf_listener s) \<Longrightarrow> own_step s (accept temporary (Inl e) s)"
| Ended: "alive s \<Longrightarrow> i < length (lf_conns s) \<Longrightarrow> conn_next (lf_conns s ! i) StateClosed \<Longrightarrow>
    own_step s (conn_step i StateClosed s)"
| Return: "lf_main s = M_wait \<Longrightarrow> lf_wg s = 0 \<Longrightarrow> own_step s (s\<lparr>lf_main := M_exit 0\<rparr>)"

inductive world_step :: "life \<Rightarrow> life \<Rightarrow> bool" where
  Bind_failed: "lf_main s = M_listen \<Longrightarrow> world_step s (listenAndServe (Some e) s)"
| Signal: "alive s \<Longrightarrow> world_step s (s\<lparr>lf_signal := True\<rparr>)"
| Accepted: "lf_main s = M_serve \<Longrightarrow> gl_open (lf_listener s) \<Longrightarrow> world_step s (accept temporary (Inr ()) s)"
| Accept_failed: "lf_main s = M_serve \<Longrightarrow> gl_open (lf_listener s) \<Longrightarrow> world_step s (accept temporary (Inl e) s)"
| Conn: "alive s \<Longrightarrow> i < length (lf_conns s) \<Longrightarrow> conn_next (lf_conns s ! i) st \<Longrightarrow>
    world_step s (conn_step i st s)"
| Upload: "alive s \<Longrightarrow> StateActive \<in> set (lf_conns s) \<Longrightarrow> world_step s (s\<lparr>lf_uploads := Suc (lf_uploads s)\<rparr>)"
| Uploaded: "alive s \<Longrightarrow> lf_uploads s = Suc n \<Longrightarrow> world_step s (s\<lparr>lf_uploads := n\<rparr>)"

definition life_step :: "life \<Rightarrow> life \<Rightarrow> bool" where
  "life_step s t \<longleftrightarrow> own_step s t \<or> world_step s t"

inductive_cases own_stepE: "own_step s t"
inductive_cases world_stepE: "world_step s t"

section \<open>The invariant\<close>

definition in_flight :: "conn_state \<Rightarrow> bool" where
  "in_flight st \<longleftrightarrow> st \<noteq> StateClosed \<and> st \<noteq> StateHijacked"

definition life_inv :: "life \<Rightarrow> bool" where
  "life_inv s \<longleftrightarrow>
     lf_wg s = int (length (filter in_flight (lf_conns s)))
     \<and> (lf_shutdown s \<noteq> L_await \<longrightarrow> lf_await s = A_closed)
     \<and> (lf_shutdown s \<in> {L_send, L_done} \<longrightarrow> \<not> lf_keepalives s)
     \<and> (lf_close s \<in> {G_close, G_done} \<longleftrightarrow> lf_shutdown s = L_done)
     \<and> (lf_main s = M_listen \<longrightarrow> lf_close s = G_none \<and> lf_conns s = [])
     \<and> (lf_main s = M_serve \<or> lf_main s = M_wait \<longrightarrow> lf_close s \<noteq> G_none)
     \<and> (\<not> gl_open (lf_listener s) \<longleftrightarrow> lf_close s = G_done)
     \<and> (lf_main s = M_wait \<longrightarrow> \<not> gl_open (lf_listener s))
     \<and> lf_main s \<noteq> M_exit 2
     \<and> (lf_main s = M_exit 0 \<longrightarrow> \<not> gl_open (lf_listener s) \<and> lf_wg s = 0)"

lemma life_inv_main: "life_inv (busl_main port)"
  by (simp add: life_inv_def busl_main_def newListener_def)

lemma in_flight_simps [simp]:
  "in_flight StateNew" "in_flight StateActive" "in_flight StateIdle"
  "\<not> in_flight StateClosed" "\<not> in_flight StateHijacked"
  by (simp_all add: in_flight_def)

lemma length_filter_update:
  assumes "i < length xs"
  shows "int (length (filter P (xs[i := y]))) =
    int (length (filter P xs)) - (if P (xs ! i) then 1 else 0) + (if P y then 1 else 0)"
proof -
  have "filter P xs = filter P (take i xs) @ filter P [xs ! i] @ filter P (drop (Suc i) xs)"
    using id_take_nth_drop [OF assms] by (metis append_Cons append_Nil filter_append)
  moreover have "filter P (xs[i := y]) = filter P (take i xs) @ filter P [y] @ filter P (drop (Suc i) xs)"
    using upd_conv_take_nth_drop [OF assms, of y] by (metis append_Cons append_Nil filter_append)
  ultimately show ?thesis by simp
qed

lemma conn_next_in_flight: "conn_next a b \<Longrightarrow> in_flight a \<and> b \<noteq> StateNew"
  by (cases a) auto

text \<open>A connection's step keeps the count of those in flight, which is never negative.\<close>

lemma new_state_counts:
  assumes "lf_wg s = int (length (filter in_flight (lf_conns s)))"
    and "i < length (lf_conns s)" and "conn_next (lf_conns s ! i) st"
  shows "conn_step i st s = s\<lparr>lf_conns := (lf_conns s)[i := st],
      lf_wg := int (length (filter in_flight ((lf_conns s)[i := st])))\<rparr>"
proof -
  have fl: "in_flight (lf_conns s ! i)" "st \<noteq> StateNew" using conn_next_in_flight [OF assms(3)] by auto
  have "lf_conns s ! i \<in> set (filter in_flight (lf_conns s))" using fl(1) assms(2) by simp
  then have "0 < length (filter in_flight (lf_conns s))" by (meson length_pos_if_in_set)
  with fl show ?thesis
    by (cases st) (simp_all add: conn_step_def new_state_def gs_connState_def gs_FinishRoutine_def
        assms(1) length_filter_update [OF assms(2)])
qed

lemma accept_open: "gl_open (lf_listener s) \<Longrightarrow> accept temporary (Inr ()) s =
    s\<lparr>lf_conns := lf_conns s @ [StateNew], lf_wg := lf_wg s + 1\<rparr>"
  by (simp add: accept_def gl_Accept_def new_state_def gs_connState_def gs_StartRoutine_def)

lemma accept_closed: "\<not> gl_open (lf_listener s) \<Longrightarrow> accept temporary (Inl e) s = s\<lparr>lf_main := M_wait\<rparr>"
  by (simp add: accept_def gl_Accept_def goes_on_def gs_Serve_end_def)

lemma accept_failed: "gl_open (lf_listener s) \<Longrightarrow> accept temporary (Inl e) s =
    (if temporary e then s else s\<lparr>lf_main := M_exit 1\<rparr>)"
  by (simp add: accept_def gl_Accept_def goes_on_def gs_Serve_end_def)

lemmas life_defs = life_inv_def alive_def listenAndServe_def awaitSignals_def shutdownHandler_def
  gl_Close_def newListener_def

lemma own_step_inv: "own_step s t \<Longrightarrow> life_inv s \<Longrightarrow> life_inv t"
proof (induction rule: own_step.induct)
  case (Shutdown s)
  then show ?case by (cases "lf_shutdown s") (auto simp: life_defs)
next
  case (Refused s temporary e)
  then show ?case by (auto simp: accept_closed life_defs)
next
  case (Ended s i)
  then show ?case by (subst new_state_counts) (auto simp: life_defs)
qed (auto simp: life_defs)

lemma world_step_inv: "world_step s t \<Longrightarrow> life_inv s \<Longrightarrow> life_inv t"
proof (induction rule: world_step.induct)
  case (Accepted s temporary)
  then show ?case by (simp add: accept_open) (auto simp: life_defs)
next
  case (Accept_failed s temporary e)
  then show ?case by (simp add: accept_failed) (auto simp: life_defs)
next
  case (Conn s i st)
  then show ?case by (subst new_state_counts) (auto simp: life_defs)
qed (auto simp: life_defs)

lemma life_steps_inv: "life_step\<^sup>*\<^sup>* (busl_main port) s \<Longrightarrow> life_inv s"
  by (induction rule: rtranclp_induct)
    (auto simp: life_step_def life_inv_main intro: own_step_inv world_step_inv)

section \<open>Work that is left\<close>

text \<open>Told to stop: a signal waits, or has been taken.\<close>

definition stopping :: "life \<Rightarrow> bool" where
  "stopping s \<longleftrightarrow> lf_signal s \<or> lf_await s = A_closed"

definition work :: "life \<Rightarrow> nat" where
  "work s = (case lf_main s of M_listen \<Rightarrow> 3 | M_serve \<Rightarrow> 2 | M_wait \<Rightarrow> 1 | M_exit c \<Rightarrow> 0)
     + (case lf_await s of A_wait \<Rightarrow> 1 | A_closed \<Rightarrow> 0)
     + (case lf_shutdown s of L_await \<Rightarrow> 6 | L_keepalives \<Rightarrow> 4 | L_send \<Rightarrow> 2 | L_done \<Rightarrow> 0)
     + (case lf_close s of G_close \<Rightarrow> 1 | _ \<Rightarrow> 0)
     + length (filter in_flight (lf_conns s))"

lemma own_step_work: "own_step s t \<Longrightarrow> life_inv s \<Longrightarrow> work t < work s"
proof (induction rule: own_step.induct)
  case (Bind s)
  then show ?case by (simp add: work_def life_defs)
next
  case (Shutdown s)
  then show ?case by (cases "lf_shutdown s") (simp_all add: work_def)
next
  case (Close s err)
  then show ?case by (simp add: work_def shutdownHandler_def)
next
  case (Refused s temporary e)
  then show ?case by (simp add: accept_closed work_def)
next
  case (Ended s i)
  then have "int (length (filter in_flight ((lf_conns s)[i := StateClosed])))
      = int (length (filter in_flight (lf_conns s))) - 1"
    using conn_next_in_flight [OF Ended(3)] by (simp add: length_filter_update)
  moreover have "conn_step i StateClosed s = s\<lparr>lf_conns := (lf_conns s)[i := StateClosed],
      lf_wg := int (length (filter in_flight ((lf_conns s)[i := StateClosed])))\<rparr>"
    using Ended by (intro new_state_counts) (auto simp: life_inv_def)
  ultimately show ?case by (simp add: work_def)
qed (simp_all add: work_def awaitSignals_def)

lemma own_step_stopping: "own_step s t \<Longrightarrow> life_inv s \<Longrightarrow> stopping s \<Longrightarrow>
    stopping t \<and> (alive t \<or> lf_main t = M_exit 0)"
proof (induction rule: own_step.induct)
  case (Shutdown s)
  then show ?case by (cases "lf_shutdown s") (auto simp: stopping_def alive_def)
next
  case (Refused s temporary e)
  then show ?case by (simp add: accept_closed stopping_def alive_def)
next
  case (Ended s i)
  then show ?case by (subst (1 2 3) new_state_counts) (auto simp: stopping_def life_defs)
qed (auto simp: stopping_def life_defs)

lemma own_step_next:
  assumes "life_inv s" and "alive s" and "stopping s"
  obtains t where "own_step s t"
proof -
  have "\<exists>t. own_step s t"
  proof (cases "lf_main s = M_listen \<or> lf_await s = A_wait \<or> shutdown_ready (lf_shutdown s) s \<or> lf_close s = G_close")
    case True
    then show ?thesis using assms by (auto simp: stopping_def intro: own_step.intros)
  next
    case False
    then have pc: "lf_main s = M_serve \<or> lf_main s = M_wait"
      using assms(2) by (cases "lf_main s") (auto simp: alive_def)
    have await: "lf_await s = A_closed" using False by (cases "lf_await s") auto
    from assms(1) pc have i: "lf_close s \<in> {G_close, G_done} \<longleftrightarrow> lf_shutdown s = L_done" "lf_close s \<noteq> G_none"
      "\<not> gl_open (lf_listener s) \<longleftrightarrow> lf_close s = G_done"
      unfolding life_inv_def by blast+
    have "lf_close s = G_done"
      using i(1,2) False await by (cases "lf_shutdown s"; cases "lf_close s") simp_all
    with i(3) have closed: "\<not> gl_open (lf_listener s)" by simp
    from pc consider "lf_main s = M_serve" | "lf_main s = M_wait" by blast
    then show ?thesis
    proof cases
      case 1
      with closed show ?thesis by (blast intro: own_step.Refused)
    next
      case 2
      show ?thesis
      proof (cases "lf_wg s = 0")
        case True
        with 2 show ?thesis by (blast intro: own_step.Return)
      next
        case False
        then have "filter in_flight (lf_conns s) \<noteq> []" using assms(1) by (auto simp: life_inv_def)
        then obtain i where i: "i < length (lf_conns s)" "in_flight (lf_conns s ! i)"
          by (auto simp: filter_empty_conv in_set_conv_nth)
        then have "conn_next (lf_conns s ! i) StateClosed"
          by (cases "lf_conns s ! i") (auto simp: in_flight_def)
        with i(1) assms(2) show ?thesis by (blast intro: own_step.Ended)
      qed
    qed
  qed
  then show thesis using that by blast
qed

lemma own_steps:
  assumes "life_inv s" and "alive s" and "stopping s"
  shows "(own_step ^^ n) s t \<Longrightarrow> life_inv t \<and> stopping t \<and> (alive t \<or> lf_main t = M_exit 0) \<and> n + work t \<le> work s"
proof (induction n arbitrary: t)
  case (Suc n)
  then obtain u where "(own_step ^^ n) s u" "own_step u t" by auto
  with Suc.IH [of u] own_step_inv [of u t] own_step_stopping [of u t] own_step_work [of u t] show ?case by auto
qed (use assms in simp)

section \<open>A run\<close>

text \<open>
  A client is connected and its handler has started \<open>n\<close> uploads when the signal comes.
\<close>

definition busy :: "nat \<Rightarrow> bool \<Rightarrow> life" where
  "busy n sig = \<lparr>lf_main = M_serve, lf_signal = sig, lf_await = A_wait, lf_shutdown = L_await,
     lf_close = G_await, lf_keepalives = True, lf_listener = \<lparr>gl_open = True\<rparr>, lf_wg = 1,
     lf_conns = [StateActive], lf_uploads = n\<rparr>"

definition stopped :: "nat \<Rightarrow> life" where
  "stopped n = \<lparr>lf_main = M_exit 0, lf_signal = False, lf_await = A_closed, lf_shutdown = L_done,
     lf_close = G_done, lf_keepalives = False, lf_listener = \<lparr>gl_open = False\<rparr>, lf_wg = 0,
     lf_conns = [StateClosed], lf_uploads = n\<rparr>"

lemma busy_reach: "life_step\<^sup>*\<^sup>* (busl_main ''80'') (busy n False)"
proof (induction n)
  case 0
  let ?s = "busl_main ''80''"
  have p: "snd (atoi ''80'') = None" by code_simp
  have 1: "life_step ?s (listenAndServe None ?s)"
    by (simp add: life_step_def own_step.Bind busl_main_def p)
  let ?s1 = "listenAndServe None ?s"
  have a: "accept (\<lambda>e. False) (Inr ()) ?s1 = ?s1\<lparr>lf_conns := [StateNew], lf_wg := 1\<rparr>"
    by (subst accept_open) (simp_all add: listenAndServe_def newListener_def busl_main_def)
  have "world_step ?s1 (accept (\<lambda>e. False) (Inr ()) ?s1)"
    by (rule world_step.Accepted) (simp_all add: listenAndServe_def newListener_def)
  then have 2: "life_step ?s1 (?s1\<lparr>lf_conns := [StateNew], lf_wg := 1\<rparr>)" by (simp add: a life_step_def)
  let ?s2 = "?s1\<lparr>lf_conns := [StateNew], lf_wg := 1\<rparr>"
  have b: "conn_step 0 StateActive ?s2 = busy 0 False"
    by (simp add: conn_step_def new_state_def gs_connState_def listenAndServe_def busl_main_def p
        newListener_def busy_def)
  have "world_step ?s2 (conn_step 0 StateActive ?s2)"
    by (rule world_step.Conn) (simp_all add: alive_def listenAndServe_def)
  then have 3: "life_step ?s2 (busy 0 False)" by (simp add: b life_step_def)
  show ?case
    by (rule converse_rtranclp_into_rtranclp, rule 1, rule converse_rtranclp_into_rtranclp, rule 2,
        rule r_into_rtranclp, rule 3)
next
  case (Suc n)
  have "life_step (busy n False) (busy (Suc n) False)"
    using world_step.Upload [of "busy n False"] by (simp add: life_step_def busy_def alive_def)
  with Suc show ?case by (rule rtranclp.rtrancl_into_rtrancl)
qed

lemma busy_signal: "life_step\<^sup>*\<^sup>* (busl_main ''80'') (busy n True)"
proof -
  have "life_step (busy n False) (busy n True)"
    using world_step.Signal [of "busy n False"] by (simp add: life_step_def busy_def alive_def)
  with busy_reach [of n] show ?thesis by (rule rtranclp.rtrancl_into_rtrancl)
qed

lemma stopping_run: "(own_step ^^ 8) (busy n True) (stopped n)"
proof -
  let ?f = "\<lambda>s. listenForShutdown (lf_shutdown s) s"
  define s1 where "s1 = awaitSignals (busy n True)"
  define s4 where "s4 = ?f (?f (?f s1))"
  define s5 where "s5 = shutdownHandler None s4"
  define s6 where "s6 = s5\<lparr>lf_main := M_wait\<rparr>"
  define s7 where "s7 = s6\<lparr>lf_conns := [StateClosed], lf_wg := 0\<rparr>"
  have 1: "own_step (busy n True) s1" unfolding s1_def by (rule own_step.Await) (simp_all add: busy_def alive_def)
  have 2: "own_step s1 (?f s1)" "own_step (?f s1) (?f (?f s1))" "own_step (?f (?f s1)) s4"
    unfolding s4_def s1_def by (rule own_step.Shutdown; simp add: busy_def alive_def awaitSignals_def)+
  have 5: "own_step s4 s5" unfolding s5_def
    by (rule own_step.Close) (simp_all add: s4_def s1_def busy_def alive_def awaitSignals_def)
  have v5: "s5 = (stopped n)\<lparr>lf_main := M_serve, lf_wg := 1, lf_conns := [StateActive]\<rparr>"
    by (simp add: s5_def s4_def s1_def busy_def stopped_def awaitSignals_def shutdownHandler_def gl_Close_def)
  have "accept (\<lambda>e. False) (Inl e) s5 = s6" for e
    unfolding s6_def by (rule accept_closed) (simp add: v5 stopped_def)
  then have 6: "own_step s5 s6"
    using own_step.Refused [of s5 "\<lambda>e. False"] by (simp add: v5 stopped_def)
  have "conn_step 0 StateClosed s6 = s7"
    by (simp add: conn_step_def new_state_def gs_connState_def gs_FinishRoutine_def s7_def s6_def v5)
  then have 7: "own_step s6 s7"
    using own_step.Ended [of s6 0] by (simp add: s6_def v5 alive_def)
  have 8: "own_step s7 (stopped n)"
    using own_step.Return [of s7] by (simp add: s7_def s6_def v5 stopped_def)
  note c = relpowp_Suc_I2 [of own_step]
  have "(own_step ^^ Suc (Suc (Suc (Suc (Suc (Suc (Suc (Suc 0)))))))) (busy n True) (stopped n)"
    by (rule c [OF 1 c [OF 2(1) c [OF 2(2) c [OF 2(3) c [OF 5 c [OF 6 c [OF 7 c [OF 8 relpowp_0_I]]]]]]]])
  moreover have "Suc (Suc (Suc (Suc (Suc (Suc (Suc (Suc 0))))))) = 8" by simp
  ultimately show ?thesis by (simp only:)
qed

lemma stopped_reach: "life_step\<^sup>*\<^sup>* (busl_main ''80'') (stopped n)"
proof -
  have "own_step\<^sup>*\<^sup>* (busy n True) (stopped n)" using stopping_run [of n] by (rule relpowp_imp_rtranclp)
  then have "life_step\<^sup>*\<^sup>* (busy n True) (stopped n)"
    by (rule rtranclp_mono [THEN predicate2D, rotated]) (auto simp: life_step_def)
  with busy_signal [of n] show ?thesis by (rule rtranclp_trans)
qed

lemma stopped_ends: "\<not> own_step (stopped n) t"
  by (auto simp: stopped_def alive_def elim!: own_stepE)

section \<open>Properties\<close>

text \<open>
  C19. The process ends well only after a shutdown that has cut no client off: whenever it exits with
  status 0 a signal has been taken, keep-alives are off, the listener is closed and every connection
  that was ever accepted is closed or hijacked; and the count of the connections is never wrong, so
  that the wait group never panics.
\<close>

theorem graceful_exit:
  assumes "life_step\<^sup>*\<^sup>* (busl_main port) s" and "lf_main s = M_exit c"
  shows "c \<noteq> 2 \<and> (c = 0 \<longrightarrow> lf_await s = A_closed \<and> \<not> lf_keepalives s \<and> \<not> gl_open (lf_listener s)
    \<and> set (lf_conns s) \<subseteq> {StateClosed, StateHijacked})"
proof -
  have i: "life_inv s" by (rule life_steps_inv [OF assms(1)])
  then have "c \<noteq> 2" using assms(2) by (auto simp: life_inv_def)
  moreover have "set (lf_conns s) \<subseteq> {StateClosed, StateHijacked}" if "c = 0"
    using i assms(2) that by (auto simp: life_inv_def filter_empty_conv in_flight_def)
  moreover have "lf_await s = A_closed \<and> \<not> lf_keepalives s \<and> \<not> gl_open (lf_listener s)" if "c = 0"
    using i assms(2) that by (auto simp: life_inv_def)
  ultimately show ?thesis by blast
qed

text \<open>
  C20. Told to stop, the process stops: from every state it can be in, with a signal that waits or has
  been taken, it takes a bounded number of steps of its own (in which clients end their
  connections), and where it can take no more it has exited with status 0.
\<close>

theorem shutdown_terminates:
  assumes "life_step\<^sup>*\<^sup>* (busl_main port) s" and "alive s" and "stopping s" and "(own_step ^^ n) s t"
  shows "n \<le> work s \<and> ((\<forall>u. \<not> own_step t u) \<longrightarrow> lf_main t = M_exit 0)"
proof -
  have t: "life_inv t" "stopping t" "alive t \<or> lf_main t = M_exit 0" "n + work t \<le> work s"
    using own_steps [OF life_steps_inv [OF assms(1)] assms(2-4)] by auto
  then show ?thesis using own_step_next [of t] by (metis add_leD1)
qed

theorem graceful_exit_witness:
  "lf_main (stopped 2) = M_exit 0 \<and> \<not> gl_open (lf_listener (stopped 2))
    \<and> set (lf_conns (stopped 2)) \<subseteq> {StateClosed, StateHijacked}"
proof -
  have m: "lf_main (stopped 2) = M_exit 0" by (simp add: stopped_def)
  from graceful_exit [OF stopped_reach m] m show ?thesis by blast
qed

theorem shutdown_terminates_witness:
  "(own_step ^^ 8) (busy 0 True) (stopped 0) \<and> 8 \<le> work (busy 0 True) \<and> lf_main (stopped 0) = M_exit 0"
proof -
  have "alive (busy 0 True)" "stopping (busy 0 True)" by (simp_all add: busy_def alive_def stopping_def)
  from shutdown_terminates [OF busy_signal this stopping_run] stopped_ends stopping_run
  show ?thesis by blast
qed


end
