(* ===== verification/Startup.thy ===== *)
theory Startup
  imports Server Rollbar Lifecycle
begin

text \<open>
  The configuration of the server (\<open>util/config.go\<close>, \<open>assets/cat.go\<close>) and the order in which a process comes up: the
  packages' variables and their \<open>init\<close> functions (\<open>util\<close>, \<open>server\<close>), then \<open>main\<close> with \<open>flag.Parse\<close>. The
  standard package \<open>flag\<close> is an argument: what it makes of the configuration. Durations are in
  nanoseconds.
\<close>

section \<open>config.go\<close>

record util_config =
  uc_Creds :: string
  uc_EnforceHTTPS :: bool
  uc_HeartbeatDuration :: int
  uc_HttpPort :: string
  uc_HttpReadTimeout :: int
  uc_HttpWriteTimeout :: int
  uc_RollbarEnvironment :: string
  uc_RollbarToken :: string
  uc_StorageBaseURL :: string
  uc_StorageInterval :: int

definition seconds :: "int \<Rightarrow> int" where "seconds n = n * 1000000000"

definition config_defaults :: "(string \<Rightarrow> string) \<Rightarrow> util_config" where
  "config_defaults getenv =
     \<lparr>uc_Creds = getenv ''CREDS'', uc_EnforceHTTPS = (getenv ''ENFORCE_HTTPS'' = ''1''),
      uc_HeartbeatDuration = seconds 10, uc_HttpPort = getenv ''PORT'',
      uc_HttpReadTimeout = seconds 3600, uc_HttpWriteTimeout = seconds 3600,
      uc_RollbarEnvironment = getenv ''ROLLBAR_ENVIRONMENT'', uc_RollbarToken = getenv ''ROLLBAR_TOKEN'',
      uc_StorageBaseURL = getenv ''STORAGE_BASE_URL'', uc_StorageInterval = seconds 300\<rparr>"

definition config_init :: "util_config \<Rightarrow> settings \<Rightarrow> settings" where
  "config_init c st =
     (if uc_RollbarToken c \<noteq> []
      then st\<lparr>st_Token := uc_RollbarToken c, st_Environment := uc_RollbarEnvironment c,
             st_ServerRoot := ''github.com/heroku/busl''\<rparr>
      else st)"

section \<open>assets/cat.go\<close>

text \<open>
  The body of a 404 for a stream whose content is gone: rows of light and full blocks, characters of
  three bytes each, written here as dots and hashes.
\<close>

definition cat_cell :: "char \<Rightarrow> bytes" where
  "cat_cell c = (if c = CHR ''.'' then [CHR 0xE2, CHR 0x96, CHR 0x91]
     else if c = CHR ''#'' then [CHR 0xE2, CHR 0x96, CHR 0x88] else [c])"

definition cat_rows :: "string list" where
  "cat_rows =
    [''..........##..........##........'',
     ''........##..##......##..##......'',
     ''........##....######....##......'',
     ''........##..............##......'',
     ''....######..##......##..######..'',
     ''....##......##......##......##..'',
     ''......##........##........##....'',
     ''........##....##..##....##......'',
     ''..........##############........'',
     ''..........##........##..........'',
     ''........##........####...GONE...'',
     ''........##........##............'',
     ''##....##......##..##............'',
     ''##....##..##..##..####..........'',
     ''##..##....##..##..##..##........'',
     ''....##....##..##..##..##........'']"

definition httpCatGone :: bytes where
  "httpCatGone = join [CHR 0x0A] (map (concat \<circ> map cat_cell) cat_rows)"

section \<open>The other packages\<close>

text \<open>The variables of \<open>rollbar\<close>; the name of the host and of the platform come from the system.\<close>

definition rollbar_vars :: "string \<Rightarrow> string \<Rightarrow> settings" where
  "rollbar_vars hostname goos =
     \<lparr>st_Token = [], st_Environment = ''development'', st_CodeVersion = [], st_ServerHost = hostname,
      st_ServerRoot = [], st_platform = goos\<rparr>"

text \<open>The timeouts of the inner server of \<open>manners.NewServer\<close>, and what \<open>init\<close> of package \<open>server\<close> makes of them.\<close>

record inner_server =
  is_ReadTimeout :: int
  is_WriteTimeout :: int

definition gs_NewServer :: inner_server where
  "gs_NewServer = \<lparr>is_ReadTimeout = 0, is_WriteTimeout = 0\<rparr>"

definition server_init :: "util_config \<Rightarrow> inner_server" where
  "server_init c =
     gs_NewServer\<lparr>is_ReadTimeout := uc_HttpReadTimeout c, is_WriteTimeout := uc_HttpWriteTimeout c\<rparr>"

section \<open>The process\<close>

record started =
  sd_config :: util_config
  sd_rollbar :: settings
  sd_server :: inner_server
  sd_life :: life

definition start_process ::
  "(string \<Rightarrow> string) \<Rightarrow> string \<Rightarrow> string \<Rightarrow> (util_config \<Rightarrow> util_config) \<Rightarrow> started" where
  "start_process getenv hostname goos flag_Parse =
     (let c = config_defaults getenv;
          st = config_init c (rollbar_vars hostname goos);
          srv = server_init c;
          c' = flag_Parse c
      in \<lparr>sd_config = c', sd_rollbar = st, sd_server = srv, sd_life = busl_main (uc_HttpPort c')\<rparr>)"

text \<open>The part of the handlers' configuration that comes from the flags and the assets.\<close>

definition configured :: "util_config \<Rightarrow> ('w, 'h, 'u) config \<Rightarrow> ('w, 'h, 'u) config" where
  "configured c cf =
     cf\<lparr>cf_storageBaseURL := uc_StorageBaseURL c, cf_creds := uc_Creds c, cf_enforceHTTPS := uc_EnforceHTTPS c,
       cf_httpCatGone := httpCatGone\<rparr>"

section \<open>Lemmas\<close>

text \<open>
  The flags of the timeouts and of rollbar come too late: whatever the command line says, the server has
  its default timeouts of an hour, and rollbar is set up from the environment alone.
\<close>

lemma flags_come_too_late:
  "sd_server (start_process getenv hostname goos flag_Parse) = \<lparr>is_ReadTimeout = seconds 3600, is_WriteTimeout = seconds 3600\<rparr>"
  "getenv ''ROLLBAR_TOKEN'' = [] \<Longrightarrow> st_Token (sd_rollbar (start_process getenv hostname goos flag_Parse)) = []"
  by (simp_all add: start_process_def server_init_def gs_NewServer_def config_defaults_def config_init_def
      rollbar_vars_def Let_def)

text \<open>A port that is no number ends the process with 1, wherever it came from.\<close>

lemma port_must_be_a_number:
  "snd (atoi (uc_HttpPort (flag_Parse (config_defaults getenv)))) \<noteq> None \<Longrightarrow>
   lf_main (sd_life (start_process getenv hostname goos flag_Parse)) = M_exit 1"
  by (simp add: start_process_def busl_main_def Let_def)

end
