(* ===== verification/Signals.thy ===== *)
theory Signals
  imports Main
begin

text \<open>
  \<open>deliverSignals\<close> of \<open>busltee/runner.go\<close>: a channel for one signal, which the runtime fills without
  waiting, and a goroutine that passes a signal on to the command. The steps are the arrival of a
  signal and the goroutine's receive; \<open>sg_sent\<close> lists what has arrived, \<open>sg_passed\<close> what the command got.
\<close>

section \<open>Model\<close>

datatype signal = SIGTERM | SIGINT

record relay =
  sg_chan :: "signal option"
  sg_waiting :: bool
  sg_sent :: "signal list"
  sg_passed :: "signal list"

definition deliverSignals :: relay where
  "deliverSignals = \<lparr>sg_chan = None, sg_waiting = True, sg_sent = [], sg_passed = []\<rparr>"

text \<open>A signal that finds the channel full is dropped.\<close>

definition sig_arrives :: "signal \<Rightarrow> relay \<Rightarrow> relay" where
  "sig_arrives g s = s\<lparr>sg_chan := (if sg_chan s = None then Some g else sg_chan s), sg_sent := sg_sent s @ [g]\<rparr>"

definition sig_relay :: "signal \<Rightarrow> relay \<Rightarrow> relay" where
  "sig_relay g s = s\<lparr>sg_chan := None, sg_waiting := False, sg_passed := sg_passed s @ [g]\<rparr>"

inductive sig_step :: "relay \<Rightarrow> relay \<Rightarrow> bool" where
  Arrives: "sig_step s (sig_arrives g s)"
| Relays: "sg_waiting s \<Longrightarrow> sg_chan s = Some g \<Longrightarrow> sig_step s (sig_relay g s)"

section \<open>Only the first signal\<close>

definition sig_inv :: "relay \<Rightarrow> bool" where
  "sig_inv s \<longleftrightarrow>
     (if sg_waiting s then sg_passed s = [] \<and> (case sg_sent s of [] \<Rightarrow> sg_chan s = None | g # gs \<Rightarrow> sg_chan s = Some g)
      else sg_sent s \<noteq> [] \<and> sg_passed s = [hd (sg_sent s)])"

lemma sig_step_inv: "sig_step s t \<Longrightarrow> sig_inv s \<Longrightarrow> sig_inv t"
  by (induction rule: sig_step.induct)
    (auto simp: sig_inv_def sig_arrives_def sig_relay_def split: list.splits if_splits)

lemma sig_steps_inv: "sig_step\<^sup>*\<^sup>* deliverSignals s \<Longrightarrow> sig_inv s"
  by (induction rule: rtranclp_induct) (auto simp: sig_step_inv, simp add: sig_inv_def deliverSignals_def)

text \<open>
  The command gets the first signal and no other: one that comes later neither reaches it nor ends
  \<open>busltee\<close>, which has taken it over from the system.
\<close>

lemma only_first_signal:
  assumes "sig_step\<^sup>*\<^sup>* deliverSignals s"
  shows "sg_passed s = (if sg_waiting s then [] else take 1 (sg_sent s))"
    and "sg_waiting s \<Longrightarrow> sg_sent s \<noteq> [] \<Longrightarrow> \<exists>t. sig_step s t \<and> sg_passed t = take 1 (sg_sent s)"
proof -
  have inv: "sig_inv s" by (rule sig_steps_inv [OF assms])
  then show "sg_passed s = (if sg_waiting s then [] else take 1 (sg_sent s))"
    by (cases "sg_sent s") (auto simp: sig_inv_def split: if_splits)
  assume w: "sg_waiting s" "sg_sent s \<noteq> []"
  then obtain g gs where "sg_sent s = g # gs" by (cases "sg_sent s") auto
  with inv w have "sg_chan s = Some g" "sg_passed s = []" "sg_sent s = g # gs" by (simp_all add: sig_inv_def)
  with w Relays [of s g] show "\<exists>t. sig_step s t \<and> sg_passed t = take 1 (sg_sent s)"
    by (auto simp: sig_relay_def intro!: exI [of _ "sig_relay g s"])
qed

end
