(* ===== verification/RollbarQueue.thy ===== *)
theory RollbarQueue
  imports Rollbar
begin

text \<open>
  The queue of the reports (\<open>push\<close>, \<open>post\<close>, \<open>Wait\<close> and the goroutine of \<open>init\<close> in \<open>rollbar.go\<close>):
  handlers push from their goroutines, and one goroutine posts. \<open>push\<close> first looks at the length of
  the channel and then sends, so the two are steps of their own.
\<close>

section \<open>Posting\<close>

text \<open>
  The answer to a POST: an error or a status, and whether there is a response, whose body is closed.
  \<open>marshal\<close> is \<open>json.Marshal\<close>. The result is what is posted and the text that is logged.
\<close>

definition rb_post ::
  "string \<Rightarrow> (json \<Rightarrow> go_error + bytes) \<Rightarrow> (bytes \<Rightarrow> go_error + int) \<Rightarrow> json \<Rightarrow> bytes option \<times> string option" where
  "rb_post token marshal http_post body =
     (if length token = 0 then (None, Some ''empty token'')
      else case marshal body of
        Inl e \<Rightarrow> (None, Some ''failed to encode payload'')
      | Inr b \<Rightarrow>
          (case http_post b of
             Inl e \<Rightarrow> (Some b, Some ''POST failed'')
           | Inr status \<Rightarrow> (Some b, if status \<noteq> 200 then Some ''received response'' else None)))"

section \<open>The queue\<close>

text \<open>
  The channel and its capacity (\<open>Buffer\<close> when the package is initialised), the wait group, what the
  goroutine is posting, what it has posted, and the pushes between their check and their send.
\<close>

record reporter =
  rb_capacity :: nat
  rb_queue :: "json list"
  rb_wg :: int
  rb_posting :: "json option"
  rb_posted :: "json list"
  rb_senders :: "json list"
  rb_dropped :: "json list"

definition rb_init :: "nat \<Rightarrow> reporter" where
  "rb_init buffer = \<lparr>rb_capacity = buffer, rb_queue = [], rb_wg = 0, rb_posting = None, rb_posted = [],
     rb_senders = [], rb_dropped = []\<rparr>"

definition push_check :: "nat \<Rightarrow> json \<Rightarrow> reporter \<Rightarrow> reporter" where
  "push_check buffer body s =
     (if length (rb_queue s) < buffer then s\<lparr>rb_wg := rb_wg s + 1, rb_senders := rb_senders s @ [body]\<rparr>
      else s\<lparr>rb_dropped := rb_dropped s @ [body]\<rparr>)"

text \<open>The send of a pusher: it waits while the channel is full.\<close>

definition push_send :: "nat \<Rightarrow> reporter \<Rightarrow> reporter go" where
  "push_send i s =
     (if length (rb_queue s) < rb_capacity s
      then Return (s\<lparr>rb_queue := rb_queue s @ [rb_senders s ! i],
             rb_senders := take i (rb_senders s) @ drop (Suc i) (rb_senders s)\<rparr>)
      else Blocked)"

definition worker_take :: "reporter \<Rightarrow> reporter go" where
  "worker_take s =
     (case rb_queue s of [] \<Rightarrow> Blocked
      | body # q \<Rightarrow> Return (s\<lparr>rb_queue := q, rb_posting := Some body\<rparr>))"

definition worker_done :: "reporter \<Rightarrow> reporter" where
  "worker_done s =
     (case rb_posting s of None \<Rightarrow> s
      | Some body \<Rightarrow> s\<lparr>rb_posted := rb_posted s @ [body], rb_posting := None, rb_wg := rb_wg s - 1\<rparr>)"

definition rb_Wait :: "reporter \<Rightarrow> unit go" where
  "rb_Wait s = (if rb_wg s = 0 then Return () else Blocked)"

inductive queue_step :: "nat \<Rightarrow> reporter \<Rightarrow> reporter \<Rightarrow> bool" for buffer where
  Check: "queue_step buffer s (push_check buffer body s)"
| Send: "i < length (rb_senders s) \<Longrightarrow> push_send i s = Return t \<Longrightarrow> queue_step buffer s t"
| Take: "rb_posting s = None \<Longrightarrow> worker_take s = Return t \<Longrightarrow> queue_step buffer s t"
| Done: "rb_posting s \<noteq> None \<Longrightarrow> queue_step buffer s (worker_done s)"

inductive_cases queue_stepE: "queue_step buffer s t"

section \<open>The invariant\<close>

definition pending :: "reporter \<Rightarrow> json list" where
  "pending s = (case rb_posting s of None \<Rightarrow> [] | Some b \<Rightarrow> [b]) @ rb_queue s"

text \<open>\<open>accepted\<close> is what has been sent into the channel, in its order.\<close>

definition sent :: "reporter \<Rightarrow> json list" where
  "sent s = rb_posted s @ pending s"

definition queue_inv :: "nat \<Rightarrow> reporter \<Rightarrow> bool" where
  "queue_inv buffer s \<longleftrightarrow> rb_capacity s = buffer \<and> length (rb_queue s) \<le> buffer
     \<and> rb_wg s = int (length (pending s) + length (rb_senders s))"

lemma queue_inv_init: "queue_inv buffer (rb_init buffer)"
  by (simp add: queue_inv_def rb_init_def pending_def)

text \<open>A step keeps the invariant, and what was sent is never lost, repeated or reordered.\<close>

lemma queue_step_inv:
  assumes "queue_step buffer s t" and "queue_inv buffer s"
  shows "queue_inv buffer t \<and> (sent t = sent s \<or> (\<exists>b \<in> set (rb_senders s). sent t = sent s @ [b]))"
  using assms
proof (induction rule: queue_step.induct)
  case (Check s body)
  then show ?case by (simp add: queue_inv_def push_check_def pending_def sent_def)
next
  case (Send i s t)
  then show ?case
    by (auto simp: queue_inv_def push_send_def pending_def sent_def split: if_splits)
next
  case (Take s t)
  then show ?case
    by (auto simp: queue_inv_def worker_take_def pending_def sent_def split: list.splits)
next
  case (Done s)
  then show ?case
    by (auto simp: queue_inv_def worker_done_def pending_def sent_def split: option.splits)
qed

lemma queue_steps_inv: "(queue_step buffer)\<^sup>*\<^sup>* (rb_init buffer) s \<Longrightarrow> queue_inv buffer s"
  by (induction rule: rtranclp_induct) (auto simp: queue_inv_init dest: queue_step_inv)

text \<open>A queue that is filled one report after the other, while the goroutine posts the first.\<close>

definition filled :: "json \<Rightarrow> nat \<Rightarrow> nat \<Rightarrow> reporter" where
  "filled x buffer n = \<lparr>rb_capacity = buffer, rb_queue = replicate n x, rb_wg = int (Suc n), rb_posting = Some x,
     rb_posted = [], rb_senders = [], rb_dropped = []\<rparr>"

lemma push_one:
  assumes "(queue_step buffer)\<^sup>*\<^sup>* s0 s" and "length (rb_queue s) < buffer" and "rb_capacity s = buffer"
    and "rb_senders s = []"
  shows "(queue_step buffer)\<^sup>*\<^sup>* s0 (s\<lparr>rb_queue := rb_queue s @ [x], rb_wg := rb_wg s + 1\<rparr>)"
proof -
  let ?c = "push_check buffer x s"
  let ?t = "s\<lparr>rb_queue := rb_queue s @ [x], rb_wg := rb_wg s + 1\<rparr>"
  have "queue_step buffer s ?c" by (rule queue_step.Check)
  moreover have "queue_step buffer ?c ?t"
    by (rule queue_step.Send [of 0]) (use assms(2-4) in \<open>simp_all add: push_check_def push_send_def\<close>)
  ultimately show ?thesis using assms(1) by (meson rtranclp.rtrancl_into_rtrancl)
qed

lemma filled_reach: "0 < buffer \<Longrightarrow> n \<le> buffer \<Longrightarrow> (queue_step buffer)\<^sup>*\<^sup>* (rb_init buffer) (filled x buffer n)"
proof (induction n)
  case 0
  let ?s = "(rb_init buffer)\<lparr>rb_queue := [x], rb_wg := 1\<rparr>"
  have "(queue_step buffer)\<^sup>*\<^sup>* (rb_init buffer) ?s"
    using push_one [of buffer "rb_init buffer" "rb_init buffer" x] 0 by (simp add: rb_init_def)
  moreover have "queue_step buffer ?s (filled x buffer 0)"
    by (rule queue_step.Take) (simp_all add: rb_init_def worker_take_def filled_def)
  ultimately show ?case by (rule rtranclp.rtrancl_into_rtrancl)
next
  case (Suc n)
  have "(filled x buffer n)\<lparr>rb_queue := rb_queue (filled x buffer n) @ [x], rb_wg := rb_wg (filled x buffer n) + 1\<rparr>
      = filled x buffer (Suc n)"
    by (simp add: filled_def replicate_append_same)
  with push_one [OF Suc.IH, of x] Suc.prems show ?case by (simp add: filled_def)
qed

section \<open>Properties\<close>

text \<open>
  C22. The reports are posted in the order in which they entered the queue, none is lost on the way
  and none is posted twice; the queue never outgrows its buffer, the wait group counts exactly the
  reports that are under way, and \<open>Wait\<close> returns exactly when all of them have been posted.
\<close>

theorem reports_in_order:
  assumes "(queue_step buffer)\<^sup>*\<^sup>* (rb_init buffer) s" and "queue_step buffer s t"
  shows "length (rb_queue t) \<le> buffer
    \<and> rb_wg t = int (length (pending t) + length (rb_senders t))
    \<and> (rb_Wait t = Return () \<longleftrightarrow> pending t = [] \<and> rb_senders t = [])
    \<and> (rb_posted t @ pending t = rb_posted s @ pending s
       \<or> (\<exists>b \<in> set (rb_senders s). rb_posted t @ pending t = rb_posted s @ pending s @ [b]))"
proof -
  have "queue_inv buffer t" "sent t = sent s \<or> (\<exists>b \<in> set (rb_senders s). sent t = sent s @ [b])"
    using queue_step_inv [OF assms(2) queue_steps_inv [OF assms(1)]] by auto
  moreover from this(1) have "rb_wg t = 0 \<longleftrightarrow> pending t = [] \<and> rb_senders t = []"
    unfolding queue_inv_def by (metis add_is_0 length_0_conv of_nat_eq_0_iff)
  ultimately show ?thesis by (simp add: queue_inv_def sent_def rb_Wait_def)
qed

theorem reports_in_order_witness:
  "rb_wg (filled (J_str ''x'') 2 1) = 2 \<and> rb_Wait (filled (J_str ''x'') 2 1) = Blocked"
proof -
  let ?s = "filled (J_str ''x'') 2"
  have r: "(queue_step 2)\<^sup>*\<^sup>* (rb_init 2) (?s 1)" by (rule filled_reach) simp_all
  have "rb_wg (worker_done (?s 1)) = 1"
    using reports_in_order [OF r queue_step.Done] by (simp add: filled_def worker_done_def pending_def)
  then show ?thesis by (simp add: filled_def worker_done_def rb_Wait_def)
qed

text \<open>
  A report is not always asynchronous: two calls of \<open>push\<close> may both find room for one report, and
  then the second stands in its send with the queue full for as long as the goroutine is in a POST,
  which has no timeout.
\<close>

theorem push_may_block:
  assumes "0 < buffer"
  shows "\<exists>s. (queue_step buffer)\<^sup>*\<^sup>* (rb_init buffer) s \<and> length (rb_queue s) = buffer
    \<and> rb_senders s = [x] \<and> push_send 0 s = Blocked \<and> rb_posting s \<noteq> None"
proof -
  let ?s = "filled x buffer (buffer - 1)"
  let ?s2 = "push_check buffer x (push_check buffer x ?s)"
  let ?t = "?s2\<lparr>rb_queue := rb_queue ?s2 @ [x], rb_senders := [x]\<rparr>"
  have two: "rb_senders ?s2 = [x, x]" "length (rb_queue ?s2) = buffer - 1" "rb_capacity ?s2 = buffer"
    "rb_posting ?s2 = Some x"
    using assms by (simp_all add: push_check_def filled_def)
  have "(queue_step buffer)\<^sup>*\<^sup>* (rb_init buffer) ?s2"
    using filled_reach [of buffer "buffer - 1" x] assms queue_step.Check [of buffer _ x]
    by (meson diff_le_self rtranclp.rtrancl_into_rtrancl)
  moreover have "queue_step buffer ?s2 ?t"
    by (rule queue_step.Send [of 0]) (use two assms in \<open>simp_all add: push_send_def\<close>)
  ultimately have "(queue_step buffer)\<^sup>*\<^sup>* (rb_init buffer) ?t" by (rule rtranclp.rtrancl_into_rtrancl)
  with two assms show ?thesis by (intro exI [of _ ?t]) (simp add: push_send_def)
qed

theorem push_may_block_witness:
  "\<exists>s. (queue_step 1000)\<^sup>*\<^sup>* (rb_init 1000) s \<and> length (rb_queue s) = 1000
    \<and> rb_senders s = [J_str ''error''] \<and> push_send 0 s = Blocked"
  using push_may_block [of 1000 "J_str ''error''"] by auto

end
