(* ===== verification/GoValue.thy ===== *)
theory GoValue
  imports Strconv
begin

text \<open>
  Values of Go as \<open>interface{}\<close> and package \<open>reflect\<close> see them, for code that works on values of any
  type, and the arithmetic of \<open>float64\<close>. A value has the name of its dynamic type and, by its
  constructor, its kind. What a slice, a map, a pointer, a function or a channel refers to has an
  identity, a number, and is finite: no value contains itself. A channel has the number of its elements.
\<close>

section \<open>Values\<close>

type_synonym gtype = string

datatype gval =
    V_nil
  | V_bool gtype bool
  | V_int gtype int
  | V_uint gtype nat
  | V_float gtype float64
  | V_string gtype string
  | V_slice gtype "(nat \<times> gval list) option"
  | V_array gtype "gval list"
  | V_map gtype "(nat \<times> (gval \<times> gval) list) option"
  | V_struct gtype "gval list"
  | V_ptr gtype "(nat \<times> gval) option"
  | V_func gtype "nat option"
  | V_chan gtype "(nat \<times> nat) option"

text \<open>\<open>reflect.TypeOf\<close>; the type of a nil interface is nil.\<close>

fun typeOf :: "gval \<Rightarrow> gtype option" where
  "typeOf V_nil = None"
| "typeOf (V_bool t _) = Some t"
| "typeOf (V_int t _) = Some t"
| "typeOf (V_uint t _) = Some t"
| "typeOf (V_float t _) = Some t"
| "typeOf (V_string t _) = Some t"
| "typeOf (V_slice t _) = Some t"
| "typeOf (V_array t _) = Some t"
| "typeOf (V_map t _) = Some t"
| "typeOf (V_struct t _) = Some t"
| "typeOf (V_ptr t _) = Some t"
| "typeOf (V_func t _) = Some t"
| "typeOf (V_chan t _) = Some t"

text \<open>\<open>==\<close> of two floating point numbers: a value that is not a number equals nothing.\<close>

definition f_eq :: "float64 \<Rightarrow> float64 \<Rightarrow> bool" where
  "f_eq x y \<longleftrightarrow> x \<noteq> NaN \<and> x = y"

section \<open>reflect.DeepEqual\<close>

text \<open>
  Types must agree; nil slices and maps equal only nil ones, functions only when both are nil. What is at
  the same place is equal without a look at it, where the code looks for that: slices of the same length,
  maps, and the arrays, maps, slices and structs behind pointers. A key is looked up by \<open>==\<close>, by which no
  key with a value that is not a number in it is found.
\<close>

fun is_hard :: "gval \<Rightarrow> bool" where
  "is_hard (V_array t xs) = True"
| "is_hard (V_map t m) = True"
| "is_hard (V_slice t xs) = True"
| "is_hard (V_struct t xs) = True"
| "is_hard _ = False"

fun self_equal :: "gval \<Rightarrow> bool" where
  "self_equal (V_float t x) = f_eq x x"
| "self_equal (V_array t xs) = list_all self_equal xs"
| "self_equal (V_struct t xs) = list_all self_equal xs"
| "self_equal _ = True"

function deep_equal :: "gval \<Rightarrow> gval \<Rightarrow> bool"
  and deep_list :: "gval list \<Rightarrow> gval list \<Rightarrow> bool"
  and deep_entries :: "(gval \<times> gval) list \<Rightarrow> (gval \<times> gval) list \<Rightarrow> bool" where
  "deep_equal V_nil w = (w = V_nil)"
| "deep_equal (V_bool t b) w = (w = V_bool t b)"
| "deep_equal (V_int t n) w = (w = V_int t n)"
| "deep_equal (V_uint t n) w = (w = V_uint t n)"
| "deep_equal (V_float t x) w = (case w of V_float u y \<Rightarrow> t = u \<and> f_eq x y | _ \<Rightarrow> False)"
| "deep_equal (V_string t s) w = (w = V_string t s)"
| "deep_equal (V_slice t None) w = (w = V_slice t None)"
| "deep_equal (V_slice t (Some (a, xs))) w =
     (case w of V_slice u (Some (b, ys)) \<Rightarrow> t = u \<and> (a = b \<and> length xs = length ys \<or> deep_list xs ys) | _ \<Rightarrow> False)"
| "deep_equal (V_array t xs) w = (case w of V_array u ys \<Rightarrow> t = u \<and> deep_list xs ys | _ \<Rightarrow> False)"
| "deep_equal (V_map t None) w = (w = V_map t None)"
| "deep_equal (V_map t (Some (a, m))) w =
     (case w of V_map u (Some (b, m')) \<Rightarrow> t = u \<and> length m = length m' \<and> (a = b \<or> deep_entries m m') | _ \<Rightarrow> False)"
| "deep_equal (V_struct t xs) w = (case w of V_struct u ys \<Rightarrow> t = u \<and> deep_list xs ys | _ \<Rightarrow> False)"
| "deep_equal (V_ptr t None) w = (w = V_ptr t None)"
| "deep_equal (V_ptr t (Some (a, x))) w =
     (case w of V_ptr u (Some (b, y)) \<Rightarrow> t = u \<and> (a = b \<and> is_hard x \<or> deep_equal x y) | _ \<Rightarrow> False)"
| "deep_equal (V_func t f) w = (f = None \<and> w = V_func t None)"
| "deep_equal (V_chan t c) w = (case w of V_chan u d \<Rightarrow> t = u \<and> map_option fst c = map_option fst d | _ \<Rightarrow> False)"
| "deep_list [] ys = (ys = [])"
| "deep_list (x # xs) ys = (case ys of [] \<Rightarrow> False | y # ys' \<Rightarrow> deep_equal x y \<and> deep_list xs ys')"
| "deep_entries [] m' = True"
| "deep_entries ((k, x) # m) m' =
     (self_equal k \<and> (case map_of m' k of None \<Rightarrow> False | Some y \<Rightarrow> deep_equal x y) \<and> deep_entries m m')"
  by pat_completeness auto
termination
  by (relation "measure (\<lambda>x. case x of
      Inl (v, w) \<Rightarrow> size v
    | Inr (Inl (vs, ws)) \<Rightarrow> size_list size vs
    | Inr (Inr (m, m')) \<Rightarrow> size_list (size_prod size size) m)") auto

section \<open>Arithmetic of float64\<close>

text \<open>Rounding to the nearest \<open>float64\<close>, ties to even; what is too large is an infinity.\<close>

definition round_even :: "rat \<Rightarrow> int" where
  "round_even q =
     (let f = \<lfloor>q\<rfloor>; d = q - of_int f
      in if d < 1 / 2 then f else if 1 / 2 < d then f + 1 else if even f then f else f + 1)"

definition pow2 :: "int \<Rightarrow> rat" where
  "pow2 e = (if 0 \<le> e then 2 ^ nat e else 1 / 2 ^ nat (- e))"

text \<open>The number of binary digits of a natural number.\<close>

fun bits_of :: "nat \<Rightarrow> int" where
  "bits_of n = (if n = 0 then 0 else 1 + bits_of (n div 2))"

declare bits_of.simps [simp del]

definition exponent :: "rat \<Rightarrow> int" where
  "exponent q =
     (let (n, d) = quotient_of q; e = bits_of (nat n) - bits_of (nat d)
      in if pow2 e \<le> q then e else e - 1)"

definition round64 :: "rat \<Rightarrow> float64" where
  "round64 q =
     (if q = 0 then Fin 0
      else let e = max (exponent \<bar>q\<bar> - 52) (- 1074);
               r = of_int (round_even (q / pow2 e)) * pow2 e
        in if 2 ^ 1024 \<le> \<bar>r\<bar> then Inf (r < 0) else Fin r)"

fun f_neg :: "float64 \<Rightarrow> float64" where
  "f_neg (Fin x) = Fin (- x)"
| "f_neg (Inf b) = Inf (\<not> b)"
| "f_neg NaN = NaN"

fun f_add :: "float64 \<Rightarrow> float64 \<Rightarrow> float64" where
  "f_add (Fin x) (Fin y) = round64 (x + y)"
| "f_add (Inf b) (Inf c) = (if b = c then Inf b else NaN)"
| "f_add (Inf b) (Fin y) = Inf b"
| "f_add (Fin x) (Inf c) = Inf c"
| "f_add _ _ = NaN"

definition f_sub :: "float64 \<Rightarrow> float64 \<Rightarrow> float64" where
  "f_sub x y = f_add x (f_neg y)"

fun f_lt :: "float64 \<Rightarrow> float64 \<Rightarrow> bool" where
  "f_lt (Fin x) (Fin y) = (x < y)"
| "f_lt (Fin x) (Inf c) = (\<not> c)"
| "f_lt (Inf b) (Fin y) = b"
| "f_lt (Inf b) (Inf c) = (b \<and> \<not> c)"
| "f_lt _ _ = False"

fun f_mul :: "float64 \<Rightarrow> float64 \<Rightarrow> float64" where
  "f_mul (Fin x) (Fin y) = round64 (x * y)"
| "f_mul (Inf b) (Inf c) = Inf (b \<noteq> c)"
| "f_mul (Inf b) (Fin y) = (if y = 0 then NaN else Inf (b \<noteq> (y < 0)))"
| "f_mul (Fin x) (Inf c) = (if x = 0 then NaN else Inf (c \<noteq> (x < 0)))"
| "f_mul _ _ = NaN"

section \<open>Lemmas\<close>

text \<open>Values made of truth values, numbers, texts, arrays and structs.\<close>

fun plain_value :: "gval \<Rightarrow> bool" where
  "plain_value V_nil = True"
| "plain_value (V_bool t b) = True"
| "plain_value (V_int t n) = True"
| "plain_value (V_uint t n) = True"
| "plain_value (V_float t x) = (x \<noteq> NaN)"
| "plain_value (V_string t s) = True"
| "plain_value (V_array t xs) = list_all plain_value xs"
| "plain_value (V_struct t xs) = list_all plain_value xs"
| "plain_value _ = False"

text \<open>On them \<open>DeepEqual\<close> is equality.\<close>

lemma deep_equal_plain:
  "plain_value v \<Longrightarrow> deep_equal v w \<longleftrightarrow> v = w"
  "list_all plain_value vs \<Longrightarrow> deep_list vs ws \<longleftrightarrow> vs = ws"
  "deep_entries m m' \<Longrightarrow> True"
proof (induction v w and vs ws and m m' rule: deep_equal_deep_list_deep_entries.induct)
  case (5 t x w)
  then show ?case by (cases w) (auto simp: f_eq_def)
next
  case (9 t xs w)
  then show ?case by (cases w) auto
next
  case (12 t xs w)
  then show ?case by (cases w) auto
next
  case (18 x xs ys)
  then show ?case by (cases ys) auto
qed auto

text \<open>An integer of at most 53 bits is a \<open>float64\<close>.\<close>

lemma bits_of_le: "n < 2 ^ k \<Longrightarrow> bits_of n \<le> int k"
proof (induction k arbitrary: n)
  case (Suc k)
  then have "bits_of (n div 2) \<le> int k" by (intro Suc.IH) (simp add: less_mult_imp_div_less)
  then show ?case by (subst bits_of.simps) simp
qed (simp add: bits_of.simps)

lemma bits_of_nonneg: "0 \<le> bits_of n"
  by (induction n rule: bits_of.induct) (subst bits_of.simps, simp)

lemma exponent_int: "\<bar>n\<bar> < 2 ^ 53 \<Longrightarrow> n \<noteq> 0 \<Longrightarrow> exponent (of_int \<bar>n\<bar>) \<le> 52"
  using bits_of_le [of "nat \<bar>n\<bar>" 53] bits_of.simps [of 1]
  by (simp only: exponent_def Let_def quotient_of_int)
    (simp add: bits_of.simps [of 0] nat_less_iff del: of_int_abs)

lemma round_even_int [simp]: "round_even (of_int n) = n"
  by (simp add: round_even_def)

lemma round64_int:
  assumes "\<bar>n\<bar> < 2 ^ 53"
  shows "round64 (of_int n) = Fin (of_int n)"
proof (cases "n = 0")
  case False
  define e where "e = max (exponent \<bar>of_int n :: rat\<bar> - 52) (- 1074)"
  have "exponent \<bar>of_int n :: rat\<bar> \<le> 52" using exponent_int [OF assms False] by simp
  then have e: "pow2 e = 1 / 2 ^ nat (- e)" by (auto simp: pow2_def e_def)
  have q: "of_int n / pow2 e = (of_int (n * 2 ^ nat (- e)) :: rat)" by (simp add: e)
  have r: "of_int (round_even (of_int n / pow2 e)) * pow2 e = (of_int n :: rat)"
    unfolding q round_even_int by (simp add: e)
  have "\<bar>of_int n :: rat\<bar> < 2 ^ 53" using assms by (metis of_int_abs of_int_less_iff of_int_numeral of_int_power)
  then have "\<not> (2 ^ 1024 \<le> \<bar>of_int n :: rat\<bar>)"
    using power_increasing [of 53 1024 "2 :: rat"] by linarith
  then show ?thesis using False r by (simp add: round64_def Let_def e_def [symmetric])
qed (simp add: round64_def)

end
