(* ===== verification/Testify.thy ===== *)
theory Testify
  imports GoValue
begin

text \<open>
  The vendored \<open>testify/assert\<close>, \<open>assertions.go\<close>: equality of objects, where an assertion was called, the
  text of a failure and \<open>Fail\<close>. Package \<open>fmt\<close>, the compiler of regular expressions, the relations
  between types and the frames of the running goroutine are arguments (record \<open>go_lib\<close>). A test is the
  list of the calls of \<open>Errorf\<close> on it, with their format and arguments.
\<close>

section \<open>What the package is given\<close>

record go_lib =
  lb_Sprintf :: "string \<Rightarrow> gval list \<Rightarrow> string"
  lb_Sprint :: "gval list \<Rightarrow> string"
  lb_Caller :: "(string \<times> int) list"           \<comment> \<open>file and line, from \<open>CallerInfo\<close> outwards\<close>
  lb_Fail_line :: "(string \<times> int) option"       \<comment> \<open>the same of \<open>Fail\<close>, which calls \<open>getWhitespaceString\<close>\<close>
  lb_Elem :: "gtype \<Rightarrow> gtype option"            \<comment> \<open>\<open>None\<close> where \<open>Elem\<close> panics\<close>
  lb_Implements :: "gtype \<Rightarrow> gtype \<Rightarrow> bool option" \<comment> \<open>type and interface; \<open>None\<close> if that is none\<close>
  lb_Convert :: "gval \<Rightarrow> gtype \<Rightarrow> gval option"  \<comment> \<open>\<open>None\<close> where the type is not convertible\<close>
  lb_Error :: "gval \<Rightarrow> string"                   \<comment> \<open>the method of an error\<close>
  lb_Compile :: "string \<Rightarrow> (string \<Rightarrow> bool) option" \<comment> \<open>\<open>None\<close> where \<open>MustCompile\<close> panics\<close>
  lb_Compiled :: "gval \<Rightarrow> string \<Rightarrow> bool"        \<comment> \<open>what a \<open>regexp.Regexp\<close> matches\<close>

type_synonym testingT = "(string \<times> gval list) list"

type_synonym assertion = "testingT \<Rightarrow> (testingT \<times> bool) go"

abbreviation str :: "string \<Rightarrow> gval" where
  "str s \<equiv> V_string ''string'' s"

text \<open>A type as a value: distinct types are distinct values of type \<open>*reflect.rtype\<close>.\<close>

fun type_value :: "gtype option \<Rightarrow> gval" where
  "type_value None = V_nil"
| "type_value (Some t) = V_string ''*reflect.rtype'' t"

definition spaces :: "nat \<Rightarrow> string" where "spaces n = replicate n CHR '' ''"

section \<open>Equality\<close>

definition objectsAreEqual :: "gval \<Rightarrow> gval \<Rightarrow> bool" where
  "objectsAreEqual expected actual =
     (if expected = V_nil \<or> actual = V_nil then expected = actual
      else if deep_equal expected actual then True else False)"

definition objectsAreEqualValues :: "go_lib \<Rightarrow> gval \<Rightarrow> gval \<Rightarrow> bool go" where
  "objectsAreEqualValues L expected actual =
     (if objectsAreEqual expected actual then Return True
      else if typeOf expected = None then Panic ''reflect: call of reflect.Value.Type on zero Value''
      else case typeOf actual of
        None \<Rightarrow> Panic ''reflect: nil type passed to Type.ConvertibleTo''
      | Some actualType \<Rightarrow>
          (case lb_Convert L expected actualType of
             None \<Rightarrow> Return False
           | Some v \<Rightarrow> Return (if deep_equal actual v then True else False)))"

section \<open>Where an assertion was called\<close>

text \<open>Element \<open>len(parts) - 2\<close> and the last one; a file without a directory is an index out of range.\<close>

fun callerInfo_loop :: "(string \<times> int) list \<Rightarrow> string go" where
  "callerInfo_loop [] = Return []"
| "callerInfo_loop ((file, line) # callers) =
     (let parts = split_on CHR ''/'' file
      in if length parts < 2 then Panic ''index out of range''
         else let dir = parts ! (length parts - 2); f = parts ! (length parts - 1)
           in if dir \<noteq> ''assert'' \<and> dir \<noteq> ''mock'' \<and> dir \<noteq> ''require'' \<or> f = ''mock_test.go''
              then Return (f @ '':'' @ itoa line) else callerInfo_loop callers)"

definition callerInfo :: "go_lib \<Rightarrow> string go" where
  "callerInfo L = callerInfo_loop (lb_Caller L)"

definition getWhitespaceString :: "go_lib \<Rightarrow> string" where
  "getWhitespaceString L =
     (case lb_Fail_line L of None \<Rightarrow> []
      | Some (file, line) \<Rightarrow> spaces (length (last (split_on CHR ''/'' file) @ '':'' @ itoa line @ '':      '')))"

section \<open>The text of a failure\<close>

text \<open>The first of the arguments must be a \<open>string\<close>.\<close>

fun asString :: "gval \<Rightarrow> string go" where
  "asString (V_string t s) = (if t = ''string'' then Return s else Panic ''interface conversion'')"
| "asString _ = Panic ''interface conversion''"

fun messageFromMsgAndArgs :: "go_lib \<Rightarrow> gval list \<Rightarrow> string go" where
  "messageFromMsgAndArgs L [] = Return []"
| "messageFromMsgAndArgs L [m] = asString m"
| "messageFromMsgAndArgs L (m # a # as) = go_bind (asString m) (\<lambda>f. Return (lb_Sprintf L f (a # as)))"

text \<open>
  \<open>bufio.Scanner\<close> on a text: lines without their line end, until a line that does not fit its buffer of
  64 KiB, at which it stops.
\<close>

definition drop_cr :: "string \<Rightarrow> string" where
  "drop_cr l = (if l \<noteq> [] \<and> last l = CHR 0x0D then butlast l else l)"

fun scan_lines :: "string list \<Rightarrow> string list" where
  "scan_lines [] = []"
| "scan_lines [l] = (if l = [] \<or> 65536 \<le> length l then [] else [drop_cr l])"
| "scan_lines (l # m # ls) = (if 65536 \<le> length l then [] else drop_cr l # scan_lines (m # ls))"

definition scanner :: "string \<Rightarrow> string list" where
  "scanner text = scan_lines (split_on CHR 0x0A text)"

function tab_loop :: "bool \<Rightarrow> int \<Rightarrow> int \<Rightarrow> string" where
  "tab_loop first tabs ii =
     (if ii < tabs then CHR 0x09 # tab_loop first tabs ((if ii = 0 \<and> \<not> first then ii + 1 else ii) + 1) else [])"
  by pat_completeness auto
termination by (relation "measure (\<lambda>(first, tabs, ii). nat (tabs - ii))") auto

declare tab_loop.simps [simp del]

fun indent_loop :: "int \<Rightarrow> bool \<Rightarrow> string list \<Rightarrow> string" where
  "indent_loop tabs first [] = []"
| "indent_loop tabs first (l # ls) =
     (if first then [] else [CHR 0x0A]) @ tab_loop first tabs 0 @ l @ indent_loop tabs False ls"

definition indentMessageLines :: "string \<Rightarrow> int \<Rightarrow> string" where
  "indentMessageLines message tabs = indent_loop tabs True (scanner message)"

section \<open>Fail\<close>

definition cr :: string where "cr = [CHR 0x0D]"
definition tab :: string where "tab = [CHR 0x09]"
definition nl :: string where "nl = [CHR 0x0A]"

definition fail_format :: string where
  "fail_format = cr @ ''%s'' @ cr @ tab @ ''Location:'' @ tab @ ''%s'' @ nl @ cr @ tab @ ''Error:%s'' @ nl @ cr"

definition fail_format_message :: string where
  "fail_format_message = cr @ ''%s'' @ cr @ tab @ ''Location:'' @ tab @ ''%s'' @ nl @ cr @ tab @ ''Error:%s'' @ nl
     @ cr @ tab @ ''Messages:'' @ tab @ ''%s'' @ nl @ cr"

definition test_Fail :: "go_lib \<Rightarrow> string \<Rightarrow> gval list \<Rightarrow> assertion" where
  "test_Fail L failureMessage msgAndArgs t =
     go_bind (messageFromMsgAndArgs L msgAndArgs) (\<lambda>message.
     go_bind (callerInfo L) (\<lambda>loc.
       Return
         (if 0 < length message
          then t @ [(fail_format_message, map str [getWhitespaceString L, loc, indentMessageLines failureMessage 2, message])]
          else t @ [(fail_format, map str [getWhitespaceString L, loc, indentMessageLines failureMessage 2])], False)))"

section \<open>Lemmas\<close>

text \<open>What an assertion may do: return true and leave the test, return false and fail it once, or panic.\<close>

definition reports :: "assertion \<Rightarrow> bool" where
  "reports a \<longleftrightarrow> (\<forall>t. case a t of Return (t', ok) \<Rightarrow> if ok then t' = t else (\<exists>call. t' = t @ [call]) | _ \<Rightarrow> True)"

named_theorems report_intros

lemma reports_iff: "reports a \<longleftrightarrow> (\<forall>t t' ok. a t = Return (t', ok) \<longrightarrow> (if ok then t' = t else (\<exists>call. t' = t @ [call])))"
  by (auto simp: reports_def split: go.splits prod.splits)

lemma reports_Fail [report_intros]: "reports (test_Fail L m args)"
  by (auto simp: reports_iff test_Fail_def go_bind_Return)

lemma reports_True [report_intros]: "reports (\<lambda>t. Return (t, True))"
  by (simp add: reports_def)

lemma reports_Panic [report_intros]: "reports (\<lambda>t. Panic m)"
  by (simp add: reports_def)

lemma reports_bind [report_intros]: "(\<And>x. reports (f x)) \<Longrightarrow> reports (\<lambda>t. go_bind m (\<lambda>x. f x t))"
  by (cases m) (auto simp: reports_def)

lemma reports_if [report_intros]:
  "(b \<Longrightarrow> reports f) \<Longrightarrow> (\<not> b \<Longrightarrow> reports g) \<Longrightarrow> reports (\<lambda>t. if b then f t else g t)"
  by (cases b) (auto simp: reports_def)

lemma reports_prod [report_intros]: "(\<And>a b. reports (f a b)) \<Longrightarrow> reports (\<lambda>t. case p of (a, b) \<Rightarrow> f a b t)"
  by (cases p) simp

lemma reports_option [report_intros]:
  "reports n \<Longrightarrow> (\<And>x. reports (f x)) \<Longrightarrow> reports (\<lambda>t. case x of None \<Rightarrow> n t | Some x \<Rightarrow> f x t)"
  by (cases x) simp_all

lemma reports_seq [report_intros]:
  assumes a: "reports a" and b: "reports b"
  shows "reports (\<lambda>t. go_bind (a t) (\<lambda>(t', ok). if \<not> ok then Return (t', False) else b t'))"
  unfolding reports_iff
proof (intro allI impI)
  fix t t' ok
  assume r: "go_bind (a t) (\<lambda>(t', ok). if \<not> ok then Return (t', False) else b t') = Return (t', ok)"
  then obtain t1 ok1 where 1: "a t = Return (t1, ok1)"
    "(if \<not> ok1 then Return (t1, False) else b t1) = Return (t', ok)" by (auto simp: go_bind_Return)
  from a 1(1) have t1: "if ok1 then t1 = t else (\<exists>call. t1 = t @ [call])" unfolding reports_iff by blast
  show "if ok then t' = t else (\<exists>call. t' = t @ [call])"
  proof (cases ok1)
    case True
    with 1(2) t1 have "b t = Return (t', ok)" by simp
    with b show ?thesis unfolding reports_iff by blast
  qed (use 1(2) t1 in simp)
qed

text \<open>\<open>Fail\<close> never says true.\<close>

lemma Fail_False: "test_Fail L m args t = Return (t', ok) \<Longrightarrow> \<not> ok"
  by (auto simp: test_Fail_def go_bind_Return)

text \<open>
  A line of 64 KiB, as the \<open>%#v\<close> of a large value is one, ends the text of the failure: the message is
  empty behind \<open>Error:\<close>.
\<close>

lemma long_line_is_lost:
  assumes "65536 \<le> length l" and "CHR 0x0A \<notin> set l"
  shows "indentMessageLines (l @ nl @ rest) tabs = []"
proof -
  have "split_on CHR 0x0A (l @ nl @ rest) = l # split_on CHR 0x0A rest"
    using assms(2) by (induction l) (auto simp: nl_def)
  then have "scanner (l @ nl @ rest) = []"
    using assms(1) by (cases "split_on CHR 0x0A rest") (auto simp: scanner_def)
  then show ?thesis by (simp add: indentMessageLines_def)
qed

text \<open>Short lines are all there, the first with the tabs asked for, the others with one less.\<close>

lemma tab_loop_plain: "0 < ii \<or> first \<Longrightarrow> tab_loop first tabs ii = replicate (nat (tabs - ii)) CHR 0x09"
proof (induction first tabs ii rule: tab_loop.induct)
  case (1 first tabs ii)
  then show ?case
    by (subst tab_loop.simps) (auto simp: replicate_Suc [symmetric] simp del: replicate_Suc
        intro!: arg_cong [where f = "\<lambda>n. replicate n CHR 0x09"])
qed

lemma tab_loop_first: "tab_loop True tabs 0 = replicate (nat tabs) CHR 0x09"
  by (simp add: tab_loop_plain)

lemma tab_loop_later:
  assumes "2 \<le> tabs"
  shows "tab_loop False tabs 0 = replicate (nat (tabs - 1)) CHR 0x09"
proof -
  have "tab_loop False tabs 0 = CHR 0x09 # tab_loop False tabs 2"
    using assms by (subst tab_loop.simps) simp
  moreover have "nat (tabs - 1) = Suc (nat (tabs - 2))" using assms by simp
  ultimately show ?thesis by (simp add: tab_loop_plain)
qed

end
