(* ===== verification/Assertions.thy ===== *)
theory Assertions
  imports Testify
begin

text \<open>
  The assertions of \<open>testify/assert\<close>, \<open>assertions.go\<close>. An assertion takes the test and returns it with
  its result; a type assertion that fails, a method of a nil interface and an index out of range panic.
  A time is a number of nanoseconds. A function under test is its outcome: it does not touch the test.
\<close>

section \<open>Reflection\<close>

fun value_IsNil :: "gval \<Rightarrow> bool" where
  "value_IsNil (V_slice t x) = (x = None)"
| "value_IsNil (V_map t x) = (x = None)"
| "value_IsNil (V_ptr t x) = (x = None)"
| "value_IsNil (V_func t x) = (x = None)"
| "value_IsNil (V_chan t x) = (x = None)"
| "value_IsNil _ = False"

text \<open>\<open>Value.Len\<close>; \<open>None\<close> where it panics.\<close>

fun value_Len :: "gval \<Rightarrow> nat option" where
  "value_Len (V_string t s) = Some (length s)"
| "value_Len (V_slice t x) = Some (case x of None \<Rightarrow> 0 | Some (_, xs) \<Rightarrow> length xs)"
| "value_Len (V_array t xs) = Some (length xs)"
| "value_Len (V_map t x) = Some (case x of None \<Rightarrow> 0 | Some (_, m) \<Rightarrow> length m)"
| "value_Len (V_chan t x) = Some (case x of None \<Rightarrow> 0 | Some (_, n) \<Rightarrow> n)"
| "value_Len _ = None"

text \<open>\<open>Value.String\<close> of a value that is no string names its type.\<close>

fun value_String :: "gval \<Rightarrow> string" where
  "value_String (V_string t s) = s"
| "value_String v = (case typeOf v of None \<Rightarrow> ''<invalid Value>'' | Some t \<Rightarrow> ''<'' @ t @ '' Value>'')"

fun is_slice :: "gval \<Rightarrow> bool" where
  "is_slice (V_slice t x) = True"
| "is_slice _ = False"

fun slice_elems :: "gval \<Rightarrow> gval list" where
  "slice_elems (V_slice t (Some (_, xs))) = xs"
| "slice_elems _ = []"

section \<open>Types and equality\<close>

definition test_Implements :: "go_lib \<Rightarrow> gval \<Rightarrow> gval \<Rightarrow> gval list \<Rightarrow> assertion" where
  "test_Implements L interfaceObject object msgAndArgs t =
     (case typeOf interfaceObject of
        None \<Rightarrow> Panic ''nil pointer dereference''
      | Some it \<Rightarrow>
          (case lb_Elem L it of
             None \<Rightarrow> Panic ''reflect: Elem of invalid type''
           | Some interfaceType \<Rightarrow>
               (case typeOf object of
                  None \<Rightarrow> Panic ''nil pointer dereference''
                | Some ot \<Rightarrow>
                    (case lb_Implements L ot interfaceType of
                       None \<Rightarrow> Panic ''reflect: non-interface type passed to Type.Implements''
                     | Some b \<Rightarrow>
                         (if \<not> b
                          then test_Fail L (lb_Sprintf L ''Object must implement %v'' [type_value (Some interfaceType)])
                                 msgAndArgs t
                          else Return (t, True))))))"

definition test_IsType :: "go_lib \<Rightarrow> gval \<Rightarrow> gval \<Rightarrow> gval list \<Rightarrow> assertion" where
  "test_IsType L expectedType object msgAndArgs t =
     (if \<not> objectsAreEqual (type_value (typeOf object)) (type_value (typeOf expectedType))
      then test_Fail L (lb_Sprintf L ''Object expected to be of type %v, but was %v''
             [type_value (typeOf expectedType), type_value (typeOf object)]) msgAndArgs t
      else Return (t, True))"

definition not_equal_text :: "go_lib \<Rightarrow> gval \<Rightarrow> gval \<Rightarrow> string" where
  "not_equal_text L expected actual =
     lb_Sprintf L (''Not equal: %#v (expected)'' @ nl @ ''        != %#v (actual)'') [expected, actual]"

definition test_Equal :: "go_lib \<Rightarrow> gval \<Rightarrow> gval \<Rightarrow> gval list \<Rightarrow> assertion" where
  "test_Equal L expected actual msgAndArgs t =
     (if \<not> objectsAreEqual expected actual then test_Fail L (not_equal_text L expected actual) msgAndArgs t
      else Return (t, True))"

definition test_EqualValues :: "go_lib \<Rightarrow> gval \<Rightarrow> gval \<Rightarrow> gval list \<Rightarrow> assertion" where
  "test_EqualValues L expected actual msgAndArgs t =
     go_bind (objectsAreEqualValues L expected actual) (\<lambda>b.
       if \<not> b then test_Fail L (not_equal_text L expected actual) msgAndArgs t else Return (t, True))"

definition test_Exactly :: "go_lib \<Rightarrow> gval \<Rightarrow> gval \<Rightarrow> gval list \<Rightarrow> assertion" where
  "test_Exactly L expected actual msgAndArgs t =
     (let aType = typeOf expected; bType = typeOf actual
      in if aType \<noteq> bType
         then test_Fail L ''Types expected to match exactly'' [str ''%v != %v'', type_value aType, type_value bType] t
         else test_Equal L expected actual msgAndArgs t)"

definition test_NotEqual :: "go_lib \<Rightarrow> gval \<Rightarrow> gval \<Rightarrow> gval list \<Rightarrow> assertion" where
  "test_NotEqual L expected actual msgAndArgs t =
     (if objectsAreEqual expected actual then test_Fail L ''Should not be equal'' msgAndArgs t else Return (t, True))"

section \<open>Nil, empty, length\<close>

definition object_isNil :: "gval \<Rightarrow> bool" where
  "object_isNil object = (if object = V_nil then True else if value_IsNil object then True else False)"

text \<open>\<open>Fail\<close> as a statement: its result is dropped, \<open>ok\<close> is returned.\<close>

definition unless_fail :: "bool \<Rightarrow> assertion \<Rightarrow> assertion" where
  "unless_fail ok fail t = (if \<not> ok then go_bind (fail t) (\<lambda>(t', _). Return (t', ok)) else Return (t, ok))"

definition test_NotNil :: "go_lib \<Rightarrow> gval \<Rightarrow> gval list \<Rightarrow> assertion" where
  "test_NotNil L object msgAndArgs t =
     (let success = (if object = V_nil then False else if value_IsNil object then False else True)
      in unless_fail success (test_Fail L ''Expected not to be nil.'' msgAndArgs) t)"

definition test_Nil :: "go_lib \<Rightarrow> gval \<Rightarrow> gval list \<Rightarrow> assertion" where
  "test_Nil L object msgAndArgs t =
     (if object_isNil object then Return (t, True)
      else test_Fail L (lb_Sprintf L ''Expected nil, but got: %#v'' [object]) msgAndArgs t)"

definition zeros :: "gval list" where
  "zeros = [V_int ''int'' 0, V_int ''int8'' 0, V_int ''int16'' 0, V_int ''int32'' 0, V_int ''int64'' 0,
     V_uint ''uint'' 0, V_uint ''uint8'' 0, V_uint ''uint16'' 0, V_uint ''uint32'' 0, V_uint ''uint64'' 0,
     V_float ''float32'' (Fin 0), V_float ''float64'' (Fin 0)]"

text \<open>\<open>time.Time\<close> is a struct that begins with its seconds and nanoseconds.\<close>

fun time_IsZero :: "gval \<Rightarrow> bool" where
  "time_IsZero (V_struct t (V_int _ sec # V_uint _ nsec # rest)) = (sec = 0 \<and> nsec = 0)"
| "time_IsZero _ = False"

definition object_isEmpty :: "gval \<Rightarrow> bool go" where
  "object_isEmpty object =
     (if object = V_nil then Return True
      else if object = V_string ''string'' [] then Return True
      else if object = V_bool ''bool'' False then Return True
      else if list_ex (\<lambda>v. object = v) zeros then Return True
      else case object of
        V_map t x \<Rightarrow> Return (value_Len object = Some 0)
      | V_slice t x \<Rightarrow> Return (value_Len object = Some 0)
      | V_chan t x \<Rightarrow> Return (value_Len object = Some 0)
      | V_ptr t p \<Rightarrow>
          (if t = ''*time.Time''
           then case p of None \<Rightarrow> Panic ''nil pointer dereference'' | Some (_, v) \<Rightarrow> Return (time_IsZero v)
           else Return False)
      | _ \<Rightarrow> Return False)"

definition test_Empty :: "go_lib \<Rightarrow> gval \<Rightarrow> gval list \<Rightarrow> assertion" where
  "test_Empty L object msgAndArgs t =
     go_bind (object_isEmpty object) (\<lambda>pass.
       unless_fail pass (test_Fail L (lb_Sprintf L ''Should be empty, but was %v'' [object]) msgAndArgs) t)"

definition test_NotEmpty :: "go_lib \<Rightarrow> gval \<Rightarrow> gval list \<Rightarrow> assertion" where
  "test_NotEmpty L object msgAndArgs t =
     go_bind (object_isEmpty object) (\<lambda>empty.
       let pass = (\<not> empty)
       in unless_fail pass (test_Fail L (lb_Sprintf L ''Should NOT be empty, but was %v'' [object]) msgAndArgs) t)"

text \<open>A panic of \<open>Len\<close> is recovered.\<close>

definition getLen :: "gval \<Rightarrow> bool \<times> nat" where
  "getLen x = (case value_Len x of None \<Rightarrow> (False, 0) | Some n \<Rightarrow> (True, n))"

definition no_len_text :: "go_lib \<Rightarrow> gval \<Rightarrow> string" where
  "no_len_text L object = lb_Sprintf L (CHR 0x22 # ''%s'' @ CHR 0x22 # '' could not be applied builtin len()'') [object]"

definition test_Len :: "go_lib \<Rightarrow> gval \<Rightarrow> int \<Rightarrow> gval list \<Rightarrow> assertion" where
  "test_Len L object n msgAndArgs t =
     (let (ok, l) = getLen object
      in if \<not> ok then test_Fail L (no_len_text L object) msgAndArgs t
         else if int l \<noteq> n
         then test_Fail L (lb_Sprintf L (CHR 0x22 # ''%s'' @ CHR 0x22 # '' should have %d item(s), but has %d'')
                [object, V_int ''int'' n, V_int ''int'' (int l)]) msgAndArgs t
         else Return (t, True))"

definition test_True :: "go_lib \<Rightarrow> bool \<Rightarrow> gval list \<Rightarrow> assertion" where
  "test_True L value msgAndArgs t =
     (if value \<noteq> True then test_Fail L ''Should be true'' msgAndArgs t else Return (t, True))"

definition test_False :: "go_lib \<Rightarrow> bool \<Rightarrow> gval list \<Rightarrow> assertion" where
  "test_False L value msgAndArgs t =
     (if value \<noteq> False then test_Fail L ''Should be false'' msgAndArgs t else Return (t, True))"

section \<open>Elements\<close>

fun include_loop :: "gval list \<Rightarrow> gval \<Rightarrow> bool" where
  "include_loop [] element = False"
| "include_loop (x # xs) element = (if objectsAreEqual x element then True else include_loop xs element)"

text \<open>
  Every panic is recovered: of the kind of a nil interface, of \<open>Len\<close>, and of \<open>Index\<close> on a map or a
  channel that is not empty.
\<close>

definition includeElement :: "gval \<Rightarrow> gval \<Rightarrow> bool \<times> bool" where
  "includeElement lst element =
     (case lst of
        V_string t s \<Rightarrow> (True, contains (value_String element) s)
      | V_slice t x \<Rightarrow> (True, include_loop (slice_elems lst) element)
      | V_array t xs \<Rightarrow> (True, include_loop xs element)
      | _ \<Rightarrow> (if value_Len lst = Some 0 then (True, False) else (False, False)))"

definition test_Contains :: "go_lib \<Rightarrow> gval \<Rightarrow> gval \<Rightarrow> gval list \<Rightarrow> assertion" where
  "test_Contains L s x msgAndArgs t =
     (let (ok, found) = includeElement s x
      in if \<not> ok then test_Fail L (no_len_text L s) msgAndArgs t
         else if \<not> found
         then test_Fail L (lb_Sprintf L (CHR 0x22 # ''%s'' @ CHR 0x22 # '' does not contain '' @ CHR 0x22 # ''%s'' @ [CHR 0x22])
                [s, x]) msgAndArgs t
         else Return (t, True))"

definition test_NotContains :: "go_lib \<Rightarrow> gval \<Rightarrow> gval \<Rightarrow> gval list \<Rightarrow> assertion" where
  "test_NotContains L s x msgAndArgs t =
     (let (ok, found) = includeElement s x
      in if \<not> ok then test_Fail L (no_len_text L s) msgAndArgs t
         else if found
         then test_Fail L (lb_Sprintf L (CHR 0x22 # ''%s'' @ CHR 0x22 # '' should not contain '' @ CHR 0x22 # ''%s'' @ [CHR 0x22])
                [s, x]) msgAndArgs t
         else Return (t, True))"

section \<open>Functions\<close>

definition test_Condition :: "go_lib \<Rightarrow> bool go \<Rightarrow> gval list \<Rightarrow> assertion" where
  "test_Condition L cond msgAndArgs t =
     go_bind cond (\<lambda>result. unless_fail result (test_Fail L ''Condition failed!'' msgAndArgs) t)"

text \<open>
  A function returns (\<open>None\<close>) or panics with a value, which \<open>recover\<close> returns: nil for \<open>panic(nil)\<close> as
  for no panic at all. \<open>f\<close> is the function as a value, for the text.
\<close>

definition didPanic :: "gval option \<Rightarrow> bool \<times> gval" where
  "didPanic outcome =
     (let message = (case outcome of None \<Rightarrow> V_nil | Some v \<Rightarrow> v)
      in (if message \<noteq> V_nil then True else False, message))"

definition panic_text :: "go_lib \<Rightarrow> string \<Rightarrow> gval \<Rightarrow> gval \<Rightarrow> string" where
  "panic_text L verb f panicValue =
     lb_Sprintf L (''func %#v '' @ verb @ nl @ cr @ tab @ ''Panic value:'' @ tab @ ''%v'') [f, panicValue]"

definition test_Panics :: "go_lib \<Rightarrow> gval \<Rightarrow> gval option \<Rightarrow> gval list \<Rightarrow> assertion" where
  "test_Panics L f outcome msgAndArgs t =
     (let (funcDidPanic, panicValue) = didPanic outcome
      in if \<not> funcDidPanic then test_Fail L (panic_text L ''should panic'' f panicValue) msgAndArgs t
         else Return (t, True))"

definition test_NotPanics :: "go_lib \<Rightarrow> gval \<Rightarrow> gval option \<Rightarrow> gval list \<Rightarrow> assertion" where
  "test_NotPanics L f outcome msgAndArgs t =
     (let (funcDidPanic, panicValue) = didPanic outcome
      in if funcDidPanic then test_Fail L (panic_text L ''should not panic'' f panicValue) msgAndArgs t
         else Return (t, True))"

section \<open>Numbers and times\<close>

text \<open>\<open>Time.Sub\<close> saturates; the negation of a duration wraps.\<close>

definition time_Sub :: "int \<Rightarrow> int \<Rightarrow> int" where
  "time_Sub x y = max (- (2 ^ 63)) (min (2 ^ 63 - 1) (x - y))"

definition difference_text :: "go_lib \<Rightarrow> gval list \<Rightarrow> string" where
  "difference_text L args = lb_Sprintf L ''Max difference between %v and %v allowed is %v, but difference was %v'' args"

definition test_WithinDuration :: "go_lib \<Rightarrow> int \<Rightarrow> int \<Rightarrow> int \<Rightarrow> gval list \<Rightarrow> assertion" where
  "test_WithinDuration L expected actual delta msgAndArgs t =
     (let dt = time_Sub expected actual
      in if dt < i64 (- delta) \<or> delta < dt
         then test_Fail L (difference_text L [V_int ''time.Time'' expected, V_int ''time.Time'' actual,
                V_int ''time.Duration'' delta, V_int ''time.Duration'' dt]) msgAndArgs t
         else Return (t, True))"

text \<open>The cases of the switch; there is none for \<open>uint\<close>, and named types are none of them.\<close>

definition toFloat :: "gval \<Rightarrow> float64 \<times> bool" where
  "toFloat x =
     (case x of
        V_uint t n \<Rightarrow> (if t \<in> {''uint8'', ''uint16'', ''uint32'', ''uint64''} then (round64 (of_nat n), True) else (Fin 0, False))
      | V_int t n \<Rightarrow> (if t \<in> {''int'', ''int8'', ''int16'', ''int32'', ''int64''} then (round64 (of_int n), True) else (Fin 0, False))
      | V_float t f \<Rightarrow> (if t \<in> {''float32'', ''float64''} then (f, True) else (Fin 0, False))
      | _ \<Rightarrow> (Fin 0, False))"

definition test_InDelta :: "go_lib \<Rightarrow> gval \<Rightarrow> gval \<Rightarrow> float64 \<Rightarrow> gval list \<Rightarrow> assertion" where
  "test_InDelta L expected actual delta msgAndArgs t =
     (let (af, aok) = toFloat expected; (bf, bok) = toFloat actual; dt = f_sub af bf
      in if \<not> aok \<or> \<not> bok then test_Fail L (lb_Sprintf L ''Parameters must be numerical'' []) msgAndArgs t
         else if af = NaN then test_Fail L (lb_Sprintf L ''Actual must not be NaN'' []) msgAndArgs t
         else if bf = NaN
         then test_Fail L (lb_Sprintf L ''Expected %v with delta %v, but was NaN'' [expected, V_float ''float64'' delta]) msgAndArgs t
         else if f_lt dt (f_neg delta) \<or> f_lt delta dt
         then test_Fail L (difference_text L [expected, actual, V_float ''float64'' delta, V_float ''float64'' dt]) msgAndArgs t
         else Return (t, True))"

text \<open>The loop over the elements of the actual slice: one more than the expected slice has is an index out of range.\<close>

fun delta_loop :: "(gval \<Rightarrow> gval \<Rightarrow> assertion) \<Rightarrow> gval list \<Rightarrow> gval list \<Rightarrow> assertion" where
  "delta_loop check [] es t = Return (t, True)"
| "delta_loop check (a # as) [] t = Panic ''reflect: slice index out of range''"
| "delta_loop check (a # as) (e # es) t =
     go_bind (check a e t) (\<lambda>(t', result). if \<not> result then Return (t', result) else delta_loop check as es t')"

definition test_InDeltaSlice :: "go_lib \<Rightarrow> gval \<Rightarrow> gval \<Rightarrow> float64 \<Rightarrow> gval list \<Rightarrow> assertion" where
  "test_InDeltaSlice L expected actual delta msgAndArgs t =
     (if expected = V_nil \<or> actual = V_nil \<or> \<not> is_slice actual \<or> \<not> is_slice expected
      then test_Fail L (lb_Sprintf L ''Parameters must be slice'' []) msgAndArgs t
      else delta_loop (\<lambda>a e. test_InDelta L a e delta []) (slice_elems actual) (slice_elems expected) t)"

definition calcEpsilonDelta :: "gval \<Rightarrow> gval \<Rightarrow> float64 \<Rightarrow> float64" where
  "calcEpsilonDelta expected actual epsilon =
     (let (af, aok) = toFloat expected; (bf, bok) = toFloat actual
      in if \<not> aok \<or> \<not> bok then Fin 0
         else let af = (if f_lt af (Fin 0) then f_neg af else af);
                  bf = (if f_lt bf (Fin 0) then f_neg bf else bf)
           in if f_lt af bf then f_mul af epsilon else f_mul bf epsilon)"

definition test_InEpsilon :: "go_lib \<Rightarrow> gval \<Rightarrow> gval \<Rightarrow> float64 \<Rightarrow> gval list \<Rightarrow> assertion" where
  "test_InEpsilon L expected actual epsilon msgAndArgs t =
     (let delta = calcEpsilonDelta expected actual epsilon
      in test_InDelta L expected actual delta msgAndArgs t)"

definition test_InEpsilonSlice :: "go_lib \<Rightarrow> gval \<Rightarrow> gval \<Rightarrow> float64 \<Rightarrow> gval list \<Rightarrow> assertion" where
  "test_InEpsilonSlice L expected actual delta msgAndArgs t =
     (if expected = V_nil \<or> actual = V_nil \<or> \<not> is_slice actual \<or> \<not> is_slice expected
      then test_Fail L (lb_Sprintf L ''Parameters must be slice'' []) msgAndArgs t
      else delta_loop (\<lambda>a e. test_InEpsilon L a e delta []) (slice_elems actual) (slice_elems expected) t)"

section \<open>Errors\<close>

definition test_NoError :: "go_lib \<Rightarrow> gval \<Rightarrow> gval list \<Rightarrow> assertion" where
  "test_NoError L err msgAndArgs t =
     (if object_isNil err then Return (t, True)
      else test_Fail L (lb_Sprintf L ''No error is expected but got %v'' [err]) msgAndArgs t)"

definition nil_error_format :: string where
  "nil_error_format = ''An error is expected but got nil. %s''"

definition test_Error :: "go_lib \<Rightarrow> gval \<Rightarrow> gval list \<Rightarrow> assertion" where
  "test_Error L err msgAndArgs t =
     go_bind (messageFromMsgAndArgs L msgAndArgs) (\<lambda>message.
       test_NotNil L err [str nil_error_format, str message] t)"

definition test_EqualError :: "go_lib \<Rightarrow> gval \<Rightarrow> string \<Rightarrow> gval list \<Rightarrow> assertion" where
  "test_EqualError L theError errString msgAndArgs t =
     go_bind (messageFromMsgAndArgs L msgAndArgs) (\<lambda>message.
     go_bind (test_NotNil L theError [str nil_error_format, str message] t) (\<lambda>(t1, ok).
       if \<not> ok then Return (t1, False)
       else let s = ''An error with value '' @ CHR 0x22 # ''%s'' @ CHR 0x22 # '' is expected but got '' @ CHR 0x22 # ''%s''
                  @ CHR 0x22 # ''. %s''
         in test_Equal L (str (lb_Error L theError)) (str errString)
              [str s, str errString, str (lb_Error L theError), str message] t1))"

section \<open>Regular expressions\<close>

definition matchRegexp :: "go_lib \<Rightarrow> gval \<Rightarrow> gval \<Rightarrow> bool go" where
  "matchRegexp L rx s =
     (let compiled = (case lb_Compile L (lb_Sprint L [rx]) of
                 None \<Rightarrow> Panic ''regexp: Compile'' | Some r \<Rightarrow> Return (r (lb_Sprint L [s])))
      in case rx of
        V_ptr t p \<Rightarrow>
          (if t = ''*regexp.Regexp''
           then case p of None \<Rightarrow> Panic ''nil pointer dereference''
                | Some (_, r) \<Rightarrow> Return (lb_Compiled L r (lb_Sprint L [s]))
           else compiled)
      | _ \<Rightarrow> compiled)"

definition test_Regexp :: "go_lib \<Rightarrow> gval \<Rightarrow> gval \<Rightarrow> gval list \<Rightarrow> assertion" where
  "test_Regexp L rx s msgAndArgs t =
     go_bind (matchRegexp L rx s) (\<lambda>match.
       unless_fail match (test_Fail L (lb_Sprintf L (''Expect '' @ CHR 0x22 # ''%v'' @ CHR 0x22 # '' to match '' @ CHR 0x22 # ''%v''
         @ [CHR 0x22]) [s, rx]) msgAndArgs) t)"

definition test_NotRegexp :: "go_lib \<Rightarrow> gval \<Rightarrow> gval \<Rightarrow> gval list \<Rightarrow> assertion" where
  "test_NotRegexp L rx s msgAndArgs t =
     go_bind (matchRegexp L rx s) (\<lambda>match.
       unless_fail (\<not> match) (test_Fail L (lb_Sprintf L (''Expect '' @ CHR 0x22 # ''%v'' @ CHR 0x22 # '' to NOT match '' @ CHR 0x22 # ''%v''
         @ [CHR 0x22]) [s, rx]) msgAndArgs) t)"

section \<open>Every assertion reports what it returns\<close>

lemma reports_unless [report_intros]: "reports (unless_fail ok (test_Fail L m args))"
  by (auto simp: reports_iff unless_fail_def go_bind_Return test_Fail_def)

lemma reports_NotNil [report_intros]: "reports (test_NotNil L v args)"
  unfolding test_NotNil_def Let_def by (intro report_intros)

lemma reports_Equal [report_intros]: "reports (test_Equal L e a args)"
  unfolding test_Equal_def by (intro report_intros)

lemma reports_InDelta [report_intros]: "reports (test_InDelta L e a d args)"
  unfolding test_InDelta_def Let_def by (intro report_intros)

lemma reports_InEpsilon [report_intros]: "reports (test_InEpsilon L e a d args)"
  unfolding test_InEpsilon_def Let_def by (rule reports_InDelta)

text \<open>A loop goes on after a success, which has left the test as it was, and ends with the first failure.\<close>

lemma delta_loop_Cons:
  "delta_loop check (a # as) (e # es) =
     (\<lambda>t. go_bind (check a e t) (\<lambda>(t', ok). if \<not> ok then Return (t', False) else delta_loop check as es t'))"
  by (rule ext) (auto intro!: arg_cong [where f = "go_bind _"])

lemma reports_loop [report_intros]: "(\<And>a e. reports (check a e)) \<Longrightarrow> reports (delta_loop check as es)"
proof (induction as arbitrary: es)
  case (Cons a as)
  then show ?case by (cases es) (simp_all only: delta_loop_Cons reports_seq, simp add: reports_def)
qed (simp add: reports_def)

lemma reports_type_assertions [report_intros]:
  "reports (test_Implements L i v args)" "reports (test_IsType L e v args)" "reports (test_EqualValues L e a args)"
  "reports (test_Exactly L e a args)" "reports (test_NotEqual L e a args)"
  unfolding test_Implements_def test_IsType_def test_EqualValues_def test_Exactly_def test_NotEqual_def Let_def
  by (intro report_intros)+

lemma reports_value_assertions [report_intros]:
  "reports (test_Nil L v args)" "reports (test_Empty L v args)" "reports (test_NotEmpty L v args)"
  "reports (test_Len L v n args)" "reports (test_True L b args)" "reports (test_False L b args)"
  "reports (test_Contains L v w args)" "reports (test_NotContains L v w args)"
  unfolding test_Nil_def test_Empty_def test_NotEmpty_def test_Len_def test_True_def test_False_def
    test_Contains_def test_NotContains_def Let_def
  by (intro report_intros)+

lemma reports_function_assertions [report_intros]:
  "reports (test_Condition L c args)" "reports (test_Panics L f r args)" "reports (test_NotPanics L f r args)"
  "reports (test_WithinDuration L x y d args)" "reports (test_InDeltaSlice L v w delta args)"
  "reports (test_InEpsilonSlice L v w delta args)"
  unfolding test_Condition_def test_Panics_def test_NotPanics_def test_WithinDuration_def
    test_InDeltaSlice_def test_InEpsilonSlice_def Let_def
  by (intro report_intros)+

lemma reports_EqualError [report_intros]: "reports (test_EqualError L v s args)"
  unfolding test_EqualError_def Let_def by (intro report_intros)

lemma reports_error_assertions [report_intros]:
  "reports (test_NoError L v args)" "reports (test_Error L v args)"
  "reports (test_Regexp L v w args)" "reports (test_NotRegexp L v w args)"
  unfolding test_NoError_def test_Error_def test_Regexp_def test_NotRegexp_def
  by (intro report_intros)+

end
