(* ===== verification/ForwardAssertions.thy ===== *)
theory ForwardAssertions
  imports Assertions Http
begin

text \<open>
  \<open>testify/assert\<close>: the assertions on a handler (\<open>http_assertions.go\<close>), the object \<open>Assertions\<close> that keeps the
  test and passes every call on (\<open>forward_assertions.go\<close>), and what the assertions decide. A handler
  writes to the recorder of \<open>httptest\<close>, an empty response; how a request is made of a method and a URL
  and how the values of a query are encoded are arguments.
\<close>

section \<open>http\_assertions.go\<close>

record ('q, 'v) http_lib =
  hl_NewRequest :: "string \<Rightarrow> string \<Rightarrow> 'q option"
  hl_Encode :: "'v \<Rightarrow> string"

type_synonym 'q handler = "'q \<Rightarrow> response \<Rightarrow> response go"

definition httpCode :: "('q, 'v) http_lib \<Rightarrow> 'q handler \<Rightarrow> string \<Rightarrow> string \<Rightarrow> 'v \<Rightarrow> int go" where
  "httpCode H handler mode url vs =
     (case hl_NewRequest H mode (url @ ''?'' @ hl_Encode H vs) of
        None \<Rightarrow> Return (- 1)
      | Some req \<Rightarrow> go_bind (handler req empty_response) (\<lambda>w. Return (sent_status w)))"

definition test_HTTPSuccess :: "('q, 'v) http_lib \<Rightarrow> 'q handler \<Rightarrow> string \<Rightarrow> string \<Rightarrow> 'v \<Rightarrow> assertion" where
  "test_HTTPSuccess H handler mode url vs t =
     go_bind (httpCode H handler mode url vs) (\<lambda>code.
       if code = - 1 then Return (t, False) else Return (t, 200 \<le> code \<and> code \<le> 206))"

definition test_HTTPRedirect :: "('q, 'v) http_lib \<Rightarrow> 'q handler \<Rightarrow> string \<Rightarrow> string \<Rightarrow> 'v \<Rightarrow> assertion" where
  "test_HTTPRedirect H handler mode url vs t =
     go_bind (httpCode H handler mode url vs) (\<lambda>code.
       if code = - 1 then Return (t, False) else Return (t, 300 \<le> code \<and> code \<le> 307))"

definition test_HTTPError :: "('q, 'v) http_lib \<Rightarrow> 'q handler \<Rightarrow> string \<Rightarrow> string \<Rightarrow> 'v \<Rightarrow> assertion" where
  "test_HTTPError H handler mode url vs t =
     go_bind (httpCode H handler mode url vs) (\<lambda>code.
       if code = - 1 then Return (t, False) else Return (t, 400 \<le> code))"

definition test_HTTPBody :: "('q, 'v) http_lib \<Rightarrow> 'q handler \<Rightarrow> string \<Rightarrow> string \<Rightarrow> 'v \<Rightarrow> string go" where
  "test_HTTPBody H handler mode url vs =
     (case hl_NewRequest H mode (url @ ''?'' @ hl_Encode H vs) of
        None \<Rightarrow> Return []
      | Some req \<Rightarrow> go_bind (handler req empty_response) (\<lambda>w. Return (rp_body w)))"

definition test_HTTPBodyContains ::
  "go_lib \<Rightarrow> ('q, 'v) http_lib \<Rightarrow> 'q handler \<Rightarrow> string \<Rightarrow> string \<Rightarrow> 'v \<Rightarrow> gval \<Rightarrow> assertion" where
  "test_HTTPBodyContains L H handler mode url vs s t =
     go_bind (test_HTTPBody H handler mode url vs) (\<lambda>body.
       let found = contains (lb_Sprint L [s]) body
       in unless_fail found (test_Fail L
            (lb_Sprintf L (''Expected response body for '' @ CHR 0x22 # ''%s'' @ CHR 0x22 # '' to contain ''
               @ CHR 0x22 # ''%s'' @ CHR 0x22 # '' but found '' @ CHR 0x22 # ''%s'' @ [CHR 0x22])
              [str (url @ ''?'' @ hl_Encode H vs), s, str body]) []) t)"

text \<open>The text of the failure is not formatted here: its arguments are those of the message.\<close>

definition test_HTTPBodyNotContains ::
  "go_lib \<Rightarrow> ('q, 'v) http_lib \<Rightarrow> 'q handler \<Rightarrow> string \<Rightarrow> string \<Rightarrow> 'v \<Rightarrow> gval \<Rightarrow> assertion" where
  "test_HTTPBodyNotContains L H handler mode url vs s t =
     go_bind (test_HTTPBody H handler mode url vs) (\<lambda>body.
       let found = contains (lb_Sprint L [s]) body
       in unless_fail (\<not> found) (test_Fail L
            (''Expected response body for %s to NOT contain '' @ CHR 0x22 # ''%s'' @ CHR 0x22 # '' but found ''
               @ CHR 0x22 # ''%s'' @ [CHR 0x22])
            [str (url @ ''?'' @ hl_Encode H vs), s, str body]) t)"

section \<open>forward\_assertions.go\<close>

record assertions =
  as_t :: testingT

definition assert_New :: "testingT \<Rightarrow> assertions" where
  "assert_New t = \<lparr>as_t = t\<rparr>"

definition forward :: "assertion \<Rightarrow> assertions \<Rightarrow> (assertions \<times> bool) go" where
  "forward f a = go_bind (f (as_t a)) (\<lambda>(t, ok). Return (a\<lparr>as_t := t\<rparr>, ok))"

definition as_Fail :: "go_lib \<Rightarrow> string \<Rightarrow> gval list \<Rightarrow> assertions \<Rightarrow> (assertions \<times> bool) go" where
  "as_Fail L failureMessage msgAndArgs a = forward (test_Fail L failureMessage msgAndArgs) a"

definition as_Implements :: "go_lib \<Rightarrow> gval \<Rightarrow> gval \<Rightarrow> gval list \<Rightarrow> assertions \<Rightarrow> (assertions \<times> bool) go" where
  "as_Implements L interfaceObject object msgAndArgs a = forward (test_Implements L interfaceObject object msgAndArgs) a"

definition as_IsType :: "go_lib \<Rightarrow> gval \<Rightarrow> gval \<Rightarrow> gval list \<Rightarrow> assertions \<Rightarrow> (assertions \<times> bool) go" where
  "as_IsType L expectedType object msgAndArgs a = forward (test_IsType L expectedType object msgAndArgs) a"

definition as_Equal :: "go_lib \<Rightarrow> gval \<Rightarrow> gval \<Rightarrow> gval list \<Rightarrow> assertions \<Rightarrow> (assertions \<times> bool) go" where
  "as_Equal L expected actual msgAndArgs a = forward (test_Equal L expected actual msgAndArgs) a"

definition as_EqualValues :: "go_lib \<Rightarrow> gval \<Rightarrow> gval \<Rightarrow> gval list \<Rightarrow> assertions \<Rightarrow> (assertions \<times> bool) go" where
  "as_EqualValues L expected actual msgAndArgs a = forward (test_EqualValues L expected actual msgAndArgs) a"

definition as_Exactly :: "go_lib \<Rightarrow> gval \<Rightarrow> gval \<Rightarrow> gval list \<Rightarrow> assertions \<Rightarrow> (assertions \<times> bool) go" where
  "as_Exactly L expected actual msgAndArgs a = forward (test_Exactly L expected actual msgAndArgs) a"

definition as_NotNil :: "go_lib \<Rightarrow> gval \<Rightarrow> gval list \<Rightarrow> assertions \<Rightarrow> (assertions \<times> bool) go" where
  "as_NotNil L object msgAndArgs a = forward (test_NotNil L object msgAndArgs) a"

definition as_Nil :: "go_lib \<Rightarrow> gval \<Rightarrow> gval list \<Rightarrow> assertions \<Rightarrow> (assertions \<times> bool) go" where
  "as_Nil L object msgAndArgs a = forward (test_Nil L object msgAndArgs) a"

definition as_Empty :: "go_lib \<Rightarrow> gval \<Rightarrow> gval list \<Rightarrow> assertions \<Rightarrow> (assertions \<times> bool) go" where
  "as_Empty L object msgAndArgs a = forward (test_Empty L object msgAndArgs) a"

definition as_NotEmpty :: "go_lib \<Rightarrow> gval \<Rightarrow> gval list \<Rightarrow> assertions \<Rightarrow> (assertions \<times> bool) go" where
  "as_NotEmpty L object msgAndArgs a = forward (test_NotEmpty L object msgAndArgs) a"

definition as_Len :: "go_lib \<Rightarrow> gval \<Rightarrow> int \<Rightarrow> gval list \<Rightarrow> assertions \<Rightarrow> (assertions \<times> bool) go" where
  "as_Len L object n msgAndArgs a = forward (test_Len L object n msgAndArgs) a"

definition as_True :: "go_lib \<Rightarrow> bool \<Rightarrow> gval list \<Rightarrow> assertions \<Rightarrow> (assertions \<times> bool) go" where
  "as_True L value msgAndArgs a = forward (test_True L value msgAndArgs) a"

definition as_False :: "go_lib \<Rightarrow> bool \<Rightarrow> gval list \<Rightarrow> assertions \<Rightarrow> (assertions \<times> bool) go" where
  "as_False L value msgAndArgs a = forward (test_False L value msgAndArgs) a"

definition as_NotEqual :: "go_lib \<Rightarrow> gval \<Rightarrow> gval \<Rightarrow> gval list \<Rightarrow> assertions \<Rightarrow> (assertions \<times> bool) go" where
  "as_NotEqual L expected actual msgAndArgs a = forward (test_NotEqual L expected actual msgAndArgs) a"

definition as_Contains :: "go_lib \<Rightarrow> gval \<Rightarrow> gval \<Rightarrow> gval list \<Rightarrow> assertions \<Rightarrow> (assertions \<times> bool) go" where
  "as_Contains L s x msgAndArgs a = forward (test_Contains L s x msgAndArgs) a"

definition as_NotContains :: "go_lib \<Rightarrow> gval \<Rightarrow> gval \<Rightarrow> gval list \<Rightarrow> assertions \<Rightarrow> (assertions \<times> bool) go" where
  "as_NotContains L s x msgAndArgs a = forward (test_NotContains L s x msgAndArgs) a"

definition as_Condition :: "go_lib \<Rightarrow> bool go \<Rightarrow> gval list \<Rightarrow> assertions \<Rightarrow> (assertions \<times> bool) go" where
  "as_Condition L cond msgAndArgs a = forward (test_Condition L cond msgAndArgs) a"

definition as_Panics :: "go_lib \<Rightarrow> gval \<Rightarrow> gval option \<Rightarrow> gval list \<Rightarrow> assertions \<Rightarrow> (assertions \<times> bool) go" where
  "as_Panics L f outcome msgAndArgs a = forward (test_Panics L f outcome msgAndArgs) a"

definition as_NotPanics :: "go_lib \<Rightarrow> gval \<Rightarrow> gval option \<Rightarrow> gval list \<Rightarrow> assertions \<Rightarrow> (assertions \<times> bool) go" where
  "as_NotPanics L f outcome msgAndArgs a = forward (test_NotPanics L f outcome msgAndArgs) a"

definition as_WithinDuration :: "go_lib \<Rightarrow> int \<Rightarrow> int \<Rightarrow> int \<Rightarrow> gval list \<Rightarrow> assertions \<Rightarrow> (assertions \<times> bool) go" where
  "as_WithinDuration L expected actual delta msgAndArgs a = forward (test_WithinDuration L expected actual delta msgAndArgs) a"

definition as_InDelta :: "go_lib \<Rightarrow> gval \<Rightarrow> gval \<Rightarrow> float64 \<Rightarrow> gval list \<Rightarrow> assertions \<Rightarrow> (assertions \<times> bool) go" where
  "as_InDelta L expected actual delta msgAndArgs a = forward (test_InDelta L expected actual delta msgAndArgs) a"

definition as_InEpsilon :: "go_lib \<Rightarrow> gval \<Rightarrow> gval \<Rightarrow> float64 \<Rightarrow> gval list \<Rightarrow> assertions \<Rightarrow> (assertions \<times> bool) go" where
  "as_InEpsilon L expected actual epsilon msgAndArgs a = forward (test_InEpsilon L expected actual epsilon msgAndArgs) a"

definition as_NoError :: "go_lib \<Rightarrow> gval \<Rightarrow> gval list \<Rightarrow> assertions \<Rightarrow> (assertions \<times> bool) go" where
  "as_NoError L theError msgAndArgs a = forward (test_NoError L theError msgAndArgs) a"

definition as_Error :: "go_lib \<Rightarrow> gval \<Rightarrow> gval list \<Rightarrow> assertions \<Rightarrow> (assertions \<times> bool) go" where
  "as_Error L theError msgAndArgs a = forward (test_Error L theError msgAndArgs) a"

definition as_EqualError :: "go_lib \<Rightarrow> gval \<Rightarrow> string \<Rightarrow> gval list \<Rightarrow> assertions \<Rightarrow> (assertions \<times> bool) go" where
  "as_EqualError L theError errString msgAndArgs a = forward (test_EqualError L theError errString msgAndArgs) a"

definition as_Regexp :: "go_lib \<Rightarrow> gval \<Rightarrow> gval \<Rightarrow> gval list \<Rightarrow> assertions \<Rightarrow> (assertions \<times> bool) go" where
  "as_Regexp L rx s msgAndArgs a = forward (test_Regexp L rx s msgAndArgs) a"

definition as_NotRegexp :: "go_lib \<Rightarrow> gval \<Rightarrow> gval \<Rightarrow> gval list \<Rightarrow> assertions \<Rightarrow> (assertions \<times> bool) go" where
  "as_NotRegexp L rx s msgAndArgs a = forward (test_NotRegexp L rx s msgAndArgs) a"

definition as_HTTPSuccess ::
  "('q, 'v) http_lib \<Rightarrow> 'q handler \<Rightarrow> string \<Rightarrow> string \<Rightarrow> 'v \<Rightarrow> assertions \<Rightarrow> (assertions \<times> bool) go" where
  "as_HTTPSuccess H handler mode url vs a = forward (test_HTTPSuccess H handler mode url vs) a"

definition as_HTTPRedirect ::
  "('q, 'v) http_lib \<Rightarrow> 'q handler \<Rightarrow> string \<Rightarrow> string \<Rightarrow> 'v \<Rightarrow> assertions \<Rightarrow> (assertions \<times> bool) go" where
  "as_HTTPRedirect H handler mode url vs a = forward (test_HTTPRedirect H handler mode url vs) a"

definition as_HTTPError ::
  "('q, 'v) http_lib \<Rightarrow> 'q handler \<Rightarrow> string \<Rightarrow> string \<Rightarrow> 'v \<Rightarrow> assertions \<Rightarrow> (assertions \<times> bool) go" where
  "as_HTTPError H handler mode url vs a = forward (test_HTTPError H handler mode url vs) a"

definition as_HTTPBodyContains ::
  "go_lib \<Rightarrow> ('q, 'v) http_lib \<Rightarrow> 'q handler \<Rightarrow> string \<Rightarrow> string \<Rightarrow> 'v \<Rightarrow> gval \<Rightarrow> assertions \<Rightarrow>
   (assertions \<times> bool) go" where
  "as_HTTPBodyContains L H handler mode url vs s a = forward (test_HTTPBodyContains L H handler mode url vs s) a"

definition as_HTTPBodyNotContains ::
  "go_lib \<Rightarrow> ('q, 'v) http_lib \<Rightarrow> 'q handler \<Rightarrow> string \<Rightarrow> string \<Rightarrow> 'v \<Rightarrow> gval \<Rightarrow> assertions \<Rightarrow>
   (assertions \<times> bool) go" where
  "as_HTTPBodyNotContains L H handler mode url vs s a = forward (test_HTTPBodyNotContains L H handler mode url vs s) a"

section \<open>Lemmas\<close>

lemma reports_http [report_intros]:
  "reports (test_HTTPBodyContains L H handler mode url vs s)"
  "reports (test_HTTPBodyNotContains L H handler mode url vs s)"
  unfolding test_HTTPBodyContains_def test_HTTPBodyNotContains_def Let_def by (intro report_intros)+

text \<open>The assertions on a status never fail the test, whatever they return.\<close>

definition silent :: "assertion \<Rightarrow> bool" where
  "silent a \<longleftrightarrow> (\<forall>t. case a t of Return (t', ok) \<Rightarrow> t' = t | _ \<Rightarrow> True)"

lemma http_status_silent:
  "silent (test_HTTPSuccess H handler mode url vs)" "silent (test_HTTPRedirect H handler mode url vs)"
  "silent (test_HTTPError H handler mode url vs)"
  by (auto simp: silent_def test_HTTPSuccess_def test_HTTPRedirect_def test_HTTPError_def go_bind_Return
      split: if_splits go.splits)

lemma http_status_unnoticed:
  "test_HTTPSuccess \<lparr>hl_NewRequest = (\<lambda>mode url. Some ()), hl_Encode = (\<lambda>_. [])\<rparr>
     (\<lambda>r w. Return (http_Error ''x'' 500 w)) ''GET'' ''/'' () [] = Return ([], False)"
  by code_simp

text \<open>A number of type \<open>uint\<close> is no number.\<close>

lemma uint_is_not_numerical:
  "test_InDelta L (V_uint ''uint'' n) v delta args t \<noteq> Return (t', True)"
  by (auto simp: test_InDelta_def toFloat_def Let_def dest: Fail_False split: prod.splits)

text \<open>An actual slice that ends early is within every delta of the expected one.\<close>

lemma short_slice_in_delta:
  "test_InDeltaSlice L (V_slice u es) (V_slice t None) delta args s = Return (s, True)"
  by (simp add: test_InDeltaSlice_def)

text \<open>\<open>EqualValues\<close> panics where one of its arguments is nil, \<open>Panics\<close> fails on \<open>panic(nil)\<close>.\<close>

lemma equal_values_nil: "v \<noteq> V_nil \<Longrightarrow> \<exists>m. test_EqualValues L v V_nil args t = Panic m"
  by (cases "typeOf v") (auto simp: test_EqualValues_def objectsAreEqualValues_def objectsAreEqual_def)

lemma panic_nil_is_no_panic: "didPanic (Some V_nil) = didPanic None"
  by (simp add: didPanic_def)

text \<open>The object reports as the assertion it passes on to.\<close>

lemma forward_reports:
  assumes "reports f" and "forward f a = Return (a', ok)"
  shows "if ok then as_t a' = as_t a else \<exists>call. as_t a' = as_t a @ [call]"
proof -
  from assms(2) obtain t where "f (as_t a) = Return (t, ok)" "a' = a\<lparr>as_t := t\<rparr>"
    by (auto simp: forward_def go_bind_Return)
  with assms(1) show ?thesis unfolding reports_iff by (metis assertions.select_convs(1) assertions.surjective assertions.update_convs(1))
qed

section \<open>What the assertions decide\<close>

text \<open>The assertion returns, with the given result, and fails the test once where that is false.\<close>

definition decides :: "assertion \<Rightarrow> bool \<Rightarrow> bool" where
  "decides a b \<longleftrightarrow> (\<forall>t. \<exists>t'. a t = Return (t', b) \<and> (if b then t' = t else (\<exists>call. t' = t @ [call])))"

lemma decides_Fail: "callerInfo L = Return loc \<Longrightarrow> decides (test_Fail L m []) False"
  by (simp add: decides_def test_Fail_def)

lemma decides_if:
  "callerInfo L = Return loc \<Longrightarrow> decides (\<lambda>t. if \<not> b then test_Fail L m [] t else Return (t, True)) b"
  "callerInfo L = Return loc \<Longrightarrow> decides (\<lambda>t. if b then Return (t, True) else test_Fail L m [] t) b"
  "callerInfo L = Return loc \<Longrightarrow> decides (\<lambda>t. if b then test_Fail L m [] t else Return (t, True)) (\<not> b)"
  "callerInfo L = Return loc \<Longrightarrow> decides (unless_fail b (test_Fail L m [])) b"
  by (simp_all add: decides_def test_Fail_def unless_fail_def)

lemma decides_True: "decides (\<lambda>t. Return (t, True)) True"
  by (simp add: decides_def)

text \<open>Equality of plain values, and the elements of a list of them.\<close>

lemma plain_equal: "plain_value e \<Longrightarrow> objectsAreEqual e a \<longleftrightarrow> e = a"
  by (auto simp: objectsAreEqual_def deep_equal_plain)

lemma include_plain: "list_all plain_value xs \<Longrightarrow> include_loop xs v \<longleftrightarrow> v \<in> set xs"
  by (induction xs) (auto simp: plain_equal)

text \<open>The difference of integers that a \<open>float64\<close> holds.\<close>

lemma delta_int:
  assumes "\<bar>x\<bar> < 2 ^ 52" and "\<bar>y\<bar> < 2 ^ 52"
  shows "f_sub (round64 (of_int x)) (round64 (of_int y)) = Fin (of_int (x - y))"
proof -
  have "\<bar>x\<bar> < 2 ^ 53" "\<bar>y\<bar> < 2 ^ 53" "\<bar>x - y\<bar> < 2 ^ 53" using assms by simp_all
  then have "round64 (of_int x) = Fin (of_int x)" "round64 (of_int y) = Fin (of_int y)"
    "round64 (of_int (x - y)) = Fin (of_int (x - y))" by (simp_all only: round64_int)
  then show ?thesis by (simp add: f_sub_def)
qed

lemma decides_InDelta:
  assumes "callerInfo L = Return loc" and "\<bar>x\<bar> < 2 ^ 52" and "\<bar>y\<bar> < 2 ^ 52"
  shows "decides (test_InDelta L (V_int ''int'' x) (V_int ''int'' y) (Fin d) []) (of_int \<bar>x - y\<bar> \<le> d)"
proof -
  have f: "toFloat (V_int ''int'' z) = (round64 (of_int z), True)" for z by (simp add: toFloat_def)
  have "round64 (of_int x) \<noteq> NaN" "round64 (of_int y) \<noteq> NaN"
    using assms(2,3) by (subst round64_int; simp)+
  then have "test_InDelta L (V_int ''int'' x) (V_int ''int'' y) (Fin d) [] =
      (\<lambda>t. if \<not> (of_int \<bar>x - y\<bar> \<le> d) then test_Fail L (difference_text L [V_int ''int'' x, V_int ''int'' y,
         V_float ''float64'' (Fin d), V_float ''float64'' (Fin (of_int (x - y)))]) [] t else Return (t, True))"
    by (intro ext) (auto simp: test_InDelta_def f Let_def delta_int [OF assms(2,3)])
  then show ?thesis using decides_if(1) [OF assms(1)] by simp
qed

text \<open>An assertion and its negation on the same arguments.\<close>

lemma decides_negation:
  assumes "callerInfo L = Return loc"
  shows "decides (test_Equal L e a []) (objectsAreEqual e a)" "decides (test_NotEqual L e a []) (\<not> objectsAreEqual e a)"
    "decides (test_Nil L v []) (object_isNil v)" "decides (test_NotNil L v []) (\<not> object_isNil v)"
    "object_isEmpty v = Return b \<Longrightarrow> decides (test_Empty L v []) b"
    "object_isEmpty v = Return b \<Longrightarrow> decides (test_NotEmpty L v []) (\<not> b)"
    "includeElement s x = (True, c) \<Longrightarrow> decides (test_Contains L s x []) c"
    "includeElement s x = (True, c) \<Longrightarrow> decides (test_NotContains L s x []) (\<not> c)"
    "decides (test_Panics L f r []) (\<exists>v. r = Some v \<and> v \<noteq> V_nil)"
    "decides (test_NotPanics L f r []) (\<not> (\<exists>v. r = Some v \<and> v \<noteq> V_nil))"
    "matchRegexp L x w = Return m \<Longrightarrow> decides (test_Regexp L x w []) m"
    "matchRegexp L x w = Return m \<Longrightarrow> decides (test_NotRegexp L x w []) (\<not> m)"
  using decides_if [OF assms]
  by (auto simp: decides_Fail [OF assms] decides_True test_Equal_def [abs_def] test_NotEqual_def [abs_def] test_Nil_def [abs_def] test_NotNil_def [abs_def]
      object_isNil_def test_Empty_def [abs_def] test_NotEmpty_def [abs_def] test_Contains_def [abs_def]
      test_NotContains_def [abs_def] test_Panics_def [abs_def] test_NotPanics_def [abs_def] didPanic_def
      test_Regexp_def [abs_def] test_NotRegexp_def [abs_def] Let_def split: option.split)

section \<open>Properties\<close>

text \<open>
  C38. What an assertion returns is what the test sees: every assertion either returns true and leaves
  the test as it was, or returns false and has failed it exactly once, or panics; but for the three on
  the status of a handler, which never fail the test.
\<close>

theorem assertions_report:
  "list_all reports
     [test_Fail L m args, test_Implements L v w args, test_IsType L v w args, test_Equal L v w args,
      test_EqualValues L v w args, test_Exactly L v w args, test_NotNil L v args, test_Nil L v args,
      test_Empty L v args, test_NotEmpty L v args, test_Len L v n args, test_True L b args, test_False L b args,
      test_NotEqual L v w args, test_Contains L v w args, test_NotContains L v w args, test_Condition L c args,
      test_Panics L f r args, test_NotPanics L f r args, test_WithinDuration L i j k args,
      test_InDelta L v w d args, test_InDeltaSlice L v w d args, test_InEpsilon L v w d args,
      test_InEpsilonSlice L v w d args, test_NoError L v args, test_Error L v args, test_EqualError L v m args,
      test_Regexp L v w args, test_NotRegexp L v w args,
      test_HTTPBodyContains L H h mode url q v, test_HTTPBodyNotContains L H h mode url q v]
   \<and> list_all silent [test_HTTPSuccess H h mode url q, test_HTTPRedirect H h mode url q, test_HTTPError H h mode url q]"
  by (simp add: report_intros http_status_silent)

text \<open>
  C39. The assertions decide what they say, where the caller is found: two plain values are equal or not,
  a string contains another as a part, a slice of plain values contains one of its elements, two
  integers are within a distance; a value is nil or not, a function panics with a value other than nil
  or not. The negation of each gives the opposite on the same arguments.
\<close>

theorem assertions_decide:
  assumes "callerInfo L = Return loc" and "plain_value e" and "list_all plain_value xs"
    and "\<bar>x\<bar> < 2 ^ 52" and "\<bar>y\<bar> < 2 ^ 52"
  shows "decides (test_Equal L e v []) (e = v)
    \<and> decides (test_NotEqual L e v []) (e \<noteq> v)
    \<and> decides (test_Contains L (V_string t s) (V_string u p) []) (\<exists>a b. s = a @ p @ b)
    \<and> decides (test_NotContains L (V_string t s) (V_string u p) []) (\<nexists>a b. s = a @ p @ b)
    \<and> decides (test_Contains L (V_slice t (Some (i, xs))) v []) (v \<in> set xs)
    \<and> decides (test_NotContains L (V_slice t (Some (i, xs))) v []) (v \<notin> set xs)
    \<and> decides (test_InDelta L (V_int ''int'' x) (V_int ''int'' y) (Fin d) []) (of_int \<bar>x - y\<bar> \<le> d)
    \<and> decides (test_Nil L v []) (object_isNil v)
    \<and> decides (test_NotNil L v []) (\<not> object_isNil v)
    \<and> decides (test_Panics L f r []) (\<exists>v. r = Some v \<and> v \<noteq> V_nil)
    \<and> decides (test_NotPanics L f r []) (\<not> (\<exists>v. r = Some v \<and> v \<noteq> V_nil))"
proof -
  have e: "objectsAreEqual e v = (e = v)" by (rule plain_equal [OF assms(2)])
  have c: "includeElement (V_string t s) (V_string u p) = (True, \<exists>a b. s = a @ p @ b)"
    "includeElement (V_slice t (Some (i, xs))) v = (True, v \<in> set xs)"
    by (simp_all add: includeElement_def contains_iff include_plain [OF assms(3)])
  note d = decides_negation [OF assms(1)]
  show ?thesis
    by (intro conjI d(1,2) [of e v, unfolded e] d(7,8) [OF c(1)] d(7,8) [OF c(2)] decides_InDelta [OF assms(1,4,5)]
        d(3,4) d(9,10))
qed

text \<open>A test in \<open>x_test.go\<close>; what the library makes of its formats does not matter.\<close>

definition demo_lib :: go_lib where
  "demo_lib = \<lparr>lb_Sprintf = (\<lambda>f args. f), lb_Sprint = (\<lambda>args. []),
     lb_Caller = [(''assert/a.go'', 4), (''assert/a.go'', 9), (''busl/x_test.go'', 7)],
     lb_Fail_line = Some (''assert/a.go'', 8), lb_Elem = (\<lambda>t. None), lb_Implements = (\<lambda>t i. None),
     lb_Convert = (\<lambda>v t. None), lb_Error = (\<lambda>v. []), lb_Compile = (\<lambda>s. None), lb_Compiled = (\<lambda>v s. False)\<rparr>"

lemma demo_files:
  "split_on CHR ''/'' ''assert/a.go'' = [''assert'', ''a.go'']"
  "split_on CHR ''/'' ''busl/x_test.go'' = [''busl'', ''x_test.go'']"
  using split_on_join [of "[''assert'', ''a.go'']" "CHR ''/''"] split_on_join [of "[''busl'', ''x_test.go'']" "CHR ''/''"]
  by (simp_all del: split_on.simps)

lemma seven: "digit_char 7 = CHR ''7''"
  by code_simp

lemma demo_caller: "callerInfo demo_lib = Return ''x_test.go:7''"
  by (simp add: callerInfo_def demo_lib_def Let_def demo_files itoa_def nat_digits.simps seven del: split_on.simps)

text \<open>The call of \<open>Errorf\<close> for a failure in this test.\<close>

lemma demo_failure:
  "test_True demo_lib False [] [] = Return
     ([(fail_format, map str [spaces 13, ''x_test.go:7'', tab @ tab @ ''Should be true''])], False)"
proof -
  have "scanner ''Should be true'' = [''Should be true'']"
    by (simp add: scanner_def split_on_single drop_cr_def del: split_on.simps)
  moreover have "getWhitespaceString demo_lib = spaces 13"
    by (simp add: getWhitespaceString_def demo_lib_def demo_files itoa_def nat_digits.simps spaces_def eval_nat_numeral
        del: split_on.simps)
  ultimately show ?thesis
    by (simp add: test_True_def test_Fail_def demo_caller indentMessageLines_def tab_loop_first tab_def numeral_2_eq_2)
qed

theorem assertions_decide_witness:
  "decides (test_Equal demo_lib (V_int ''int'' 1) (V_int ''int'' 2) []) False
   \<and> decides (test_Contains demo_lib (V_slice ''[]int'' (Some (0, [V_int ''int'' 1]))) (V_int ''int'' 2) []) False
   \<and> decides (test_InDelta demo_lib (V_int ''int'' 3) (V_int ''int'' 5) (Fin 2) []) True"
proof -
  have p: "plain_value (V_int ''int'' 1)" "list_all plain_value [V_int ''int'' 1]"
    and b: "\<bar>3 :: int\<bar> < 2 ^ 52" "\<bar>5 :: int\<bar> < 2 ^ 52" by simp_all
  from assertions_decide [OF demo_caller p b, of "V_int ''int'' 2" _ _ _ _ 0 2]
  show ?thesis by simp
qed

end
