(* ===== verification/PflagPackage.thy ===== *)
theory PflagPackage
  imports PflagTypes
begin

text \<open>
  The functions of package \<open>pflag\<close>, which work on the set \<open>CommandLine\<close>: an argument here, \<open>commandLine\<close> or
  what the calls before have made of it. \<open>os.Args\<close> is an argument too. \<open>BoolVarP\<close>, \<open>IntVar\<close>, \<open>StringVar\<close> and
  \<open>Float64Var\<close>, which \<open>busltee\<close> calls, are in \<open>PflagTypes\<close>.
\<close>

section \<open>flag.go\<close>

definition pkg_VisitAll :: "flagSet \<Rightarrow> flag option list" where
  "pkg_VisitAll cl = fs_VisitAll cl"

definition pkg_Visit :: "flagSet \<Rightarrow> flag option list" where
  "pkg_Visit cl = fs_Visit cl"

definition pkg_Lookup :: "flagSet \<Rightarrow> string \<Rightarrow> flag option" where
  "pkg_Lookup cl name = map_of (fs_formal cl) name"

definition pkg_Set :: "fconv \<Rightarrow> flagSet \<Rightarrow> string \<Rightarrow> string \<Rightarrow> flagSet \<times> go_error option" where
  "pkg_Set cv cl name value = fs_Set cv cl name value"

definition pkg_PrintDefaults :: "fconv \<Rightarrow> flagSet \<Rightarrow> string list" where
  "pkg_PrintDefaults cv cl = fs_PrintDefaults cv cl"

definition pkg_NFlag :: "flagSet \<Rightarrow> int" where
  "pkg_NFlag cl = int (length (fs_actual cl))"

definition pkg_Arg :: "flagSet \<Rightarrow> int \<Rightarrow> string" where
  "pkg_Arg cl i = fs_Arg cl i"

definition pkg_NArg :: "flagSet \<Rightarrow> int" where
  "pkg_NArg cl = int (length (fs_args cl))"

definition pkg_Args :: "flagSet \<Rightarrow> string list" where
  "pkg_Args cl = fs_args cl"

definition pkg_Var :: "fconv \<Rightarrow> flagSet \<Rightarrow> nat \<Rightarrow> string \<Rightarrow> string \<Rightarrow> flagSet go" where
  "pkg_Var cv cl addr name usage = fs_VarP cv cl addr name [] usage"

definition pkg_VarP :: "fconv \<Rightarrow> flagSet \<Rightarrow> nat \<Rightarrow> string \<Rightarrow> string \<Rightarrow> string \<Rightarrow> flagSet go" where
  "pkg_VarP cv cl addr name shorthand usage = fs_VarP cv cl addr name shorthand usage"

text \<open>\<open>os.Args[1:]\<close> of no arguments at all is a slice out of range.\<close>

definition pkg_Parse :: "fconv \<Rightarrow> flagSet \<Rightarrow> string list \<Rightarrow> (flagSet \<times> parsed) go" where
  "pkg_Parse cv cl os_Args =
     (case os_Args of [] \<Rightarrow> Panic ''slice bounds out of range'' | arg0 # args \<Rightarrow> Return (fs_Parse cv cl args))"

definition pkg_SetInterspersed :: "flagSet \<Rightarrow> bool \<Rightarrow> flagSet" where
  "pkg_SetInterspersed cl interspersed = fs_SetInterspersed cl interspersed"

definition pkg_Parsed :: "flagSet \<Rightarrow> bool" where
  "pkg_Parsed cl = fs_Parsed cl"

section \<open>bool.go\<close>

definition pkg_BoolVar :: "fconv \<Rightarrow> flagSet \<Rightarrow> nat \<Rightarrow> string \<Rightarrow> bool \<Rightarrow> string \<Rightarrow> flagSet go" where
  "pkg_BoolVar cv cl p name val usage = fs_VarP cv (newBoolValue cl val p) p name [] usage"

definition pkg_Bool :: "fconv \<Rightarrow> flagSet \<Rightarrow> string \<Rightarrow> bool \<Rightarrow> string \<Rightarrow> (nat \<times> flagSet) go" where
  "pkg_Bool cv cl name val usage = fs_BoolP cv cl name [] val usage"

definition pkg_BoolP :: "fconv \<Rightarrow> flagSet \<Rightarrow> string \<Rightarrow> string \<Rightarrow> bool \<Rightarrow> string \<Rightarrow> (nat \<times> flagSet) go" where
  "pkg_BoolP cv cl name shorthand val usage = fs_BoolP cv cl name shorthand val usage"

section \<open>int.go\<close>

definition pkg_IntVarP :: "fconv \<Rightarrow> flagSet \<Rightarrow> nat \<Rightarrow> string \<Rightarrow> string \<Rightarrow> int \<Rightarrow> string \<Rightarrow> flagSet go" where
  "pkg_IntVarP cv cl p name shorthand val usage = fs_VarP cv (newIntValue cl val p) p name shorthand usage"

definition pkg_Int :: "fconv \<Rightarrow> flagSet \<Rightarrow> string \<Rightarrow> int \<Rightarrow> string \<Rightarrow> (nat \<times> flagSet) go" where
  "pkg_Int cv cl name val usage = fs_IntP cv cl name [] val usage"

definition pkg_IntP :: "fconv \<Rightarrow> flagSet \<Rightarrow> string \<Rightarrow> string \<Rightarrow> int \<Rightarrow> string \<Rightarrow> (nat \<times> flagSet) go" where
  "pkg_IntP cv cl name shorthand val usage = fs_IntP cv cl name shorthand val usage"

section \<open>int8.go\<close>

definition pkg_Int8Var :: "fconv \<Rightarrow> flagSet \<Rightarrow> nat \<Rightarrow> string \<Rightarrow> 8 word \<Rightarrow> string \<Rightarrow> flagSet go" where
  "pkg_Int8Var cv cl p name val usage = fs_VarP cv (newInt8Value cl val p) p name [] usage"

definition pkg_Int8VarP :: "fconv \<Rightarrow> flagSet \<Rightarrow> nat \<Rightarrow> string \<Rightarrow> string \<Rightarrow> 8 word \<Rightarrow> string \<Rightarrow> flagSet go" where
  "pkg_Int8VarP cv cl p name shorthand val usage = fs_VarP cv (newInt8Value cl val p) p name shorthand usage"

definition pkg_Int8 :: "fconv \<Rightarrow> flagSet \<Rightarrow> string \<Rightarrow> 8 word \<Rightarrow> string \<Rightarrow> (nat \<times> flagSet) go" where
  "pkg_Int8 cv cl name val usage = fs_Int8P cv cl name [] val usage"

definition pkg_Int8P :: "fconv \<Rightarrow> flagSet \<Rightarrow> string \<Rightarrow> string \<Rightarrow> 8 word \<Rightarrow> string \<Rightarrow> (nat \<times> flagSet) go" where
  "pkg_Int8P cv cl name shorthand val usage = fs_Int8P cv cl name shorthand val usage"

section \<open>int32.go\<close>

definition pkg_Int32Var :: "fconv \<Rightarrow> flagSet \<Rightarrow> nat \<Rightarrow> string \<Rightarrow> 32 word \<Rightarrow> string \<Rightarrow> flagSet go" where
  "pkg_Int32Var cv cl p name val usage = fs_VarP cv (newInt32Value cl val p) p name [] usage"

definition pkg_Int32VarP :: "fconv \<Rightarrow> flagSet \<Rightarrow> nat \<Rightarrow> string \<Rightarrow> string \<Rightarrow> 32 word \<Rightarrow> string \<Rightarrow> flagSet go" where
  "pkg_Int32VarP cv cl p name shorthand val usage = fs_VarP cv (newInt32Value cl val p) p name shorthand usage"

definition pkg_Int32 :: "fconv \<Rightarrow> flagSet \<Rightarrow> string \<Rightarrow> 32 word \<Rightarrow> string \<Rightarrow> (nat \<times> flagSet) go" where
  "pkg_Int32 cv cl name val usage = fs_Int32P cv cl name [] val usage"

definition pkg_Int32P :: "fconv \<Rightarrow> flagSet \<Rightarrow> string \<Rightarrow> string \<Rightarrow> 32 word \<Rightarrow> string \<Rightarrow> (nat \<times> flagSet) go" where
  "pkg_Int32P cv cl name shorthand val usage = fs_Int32P cv cl name shorthand val usage"

section \<open>int64.go\<close>

definition pkg_Int64Var :: "fconv \<Rightarrow> flagSet \<Rightarrow> nat \<Rightarrow> string \<Rightarrow> 64 word \<Rightarrow> string \<Rightarrow> flagSet go" where
  "pkg_Int64Var cv cl p name val usage = fs_VarP cv (newInt64Value cl val p) p name [] usage"

definition pkg_Int64VarP :: "fconv \<Rightarrow> flagSet \<Rightarrow> nat \<Rightarrow> string \<Rightarrow> string \<Rightarrow> 64 word \<Rightarrow> string \<Rightarrow> flagSet go" where
  "pkg_Int64VarP cv cl p name shorthand val usage = fs_VarP cv (newInt64Value cl val p) p name shorthand usage"

definition pkg_Int64 :: "fconv \<Rightarrow> flagSet \<Rightarrow> string \<Rightarrow> 64 word \<Rightarrow> string \<Rightarrow> (nat \<times> flagSet) go" where
  "pkg_Int64 cv cl name val usage = fs_Int64P cv cl name [] val usage"

definition pkg_Int64P :: "fconv \<Rightarrow> flagSet \<Rightarrow> string \<Rightarrow> string \<Rightarrow> 64 word \<Rightarrow> string \<Rightarrow> (nat \<times> flagSet) go" where
  "pkg_Int64P cv cl name shorthand val usage = fs_Int64P cv cl name shorthand val usage"

section \<open>uint.go\<close>

definition pkg_UintVar :: "fconv \<Rightarrow> flagSet \<Rightarrow> nat \<Rightarrow> string \<Rightarrow> 64 word \<Rightarrow> string \<Rightarrow> flagSet go" where
  "pkg_UintVar cv cl p name val usage = fs_VarP cv (newUintValue cl val p) p name [] usage"

definition pkg_UintVarP :: "fconv \<Rightarrow> flagSet \<Rightarrow> nat \<Rightarrow> string \<Rightarrow> string \<Rightarrow> 64 word \<Rightarrow> string \<Rightarrow> flagSet go" where
  "pkg_UintVarP cv cl p name shorthand val usage = fs_VarP cv (newUintValue cl val p) p name shorthand usage"

definition pkg_Uint :: "fconv \<Rightarrow> flagSet \<Rightarrow> string \<Rightarrow> 64 word \<Rightarrow> string \<Rightarrow> (nat \<times> flagSet) go" where
  "pkg_Uint cv cl name val usage = fs_UintP cv cl name [] val usage"

definition pkg_UintP :: "fconv \<Rightarrow> flagSet \<Rightarrow> string \<Rightarrow> string \<Rightarrow> 64 word \<Rightarrow> string \<Rightarrow> (nat \<times> flagSet) go" where
  "pkg_UintP cv cl name shorthand val usage = fs_UintP cv cl name shorthand val usage"

section \<open>uint8.go\<close>

definition pkg_Uint8Var :: "fconv \<Rightarrow> flagSet \<Rightarrow> nat \<Rightarrow> string \<Rightarrow> 8 word \<Rightarrow> string \<Rightarrow> flagSet go" where
  "pkg_Uint8Var cv cl p name val usage = fs_VarP cv (newUint8Value cl val p) p name [] usage"

definition pkg_Uint8VarP :: "fconv \<Rightarrow> flagSet \<Rightarrow> nat \<Rightarrow> string \<Rightarrow> string \<Rightarrow> 8 word \<Rightarrow> string \<Rightarrow> flagSet go" where
  "pkg_Uint8VarP cv cl p name shorthand val usage = fs_VarP cv (newUint8Value cl val p) p name shorthand usage"

definition pkg_Uint8 :: "fconv \<Rightarrow> flagSet \<Rightarrow> string \<Rightarrow> 8 word \<Rightarrow> string \<Rightarrow> (nat \<times> flagSet) go" where
  "pkg_Uint8 cv cl name val usage = fs_Uint8P cv cl name [] val usage"

definition pkg_Uint8P :: "fconv \<Rightarrow> flagSet \<Rightarrow> string \<Rightarrow> string \<Rightarrow> 8 word \<Rightarrow> string \<Rightarrow> (nat \<times> flagSet) go" where
  "pkg_Uint8P cv cl name shorthand val usage = fs_Uint8P cv cl name shorthand val usage"

section \<open>uint16.go\<close>

definition pkg_Uint16Var :: "fconv \<Rightarrow> flagSet \<Rightarrow> nat \<Rightarrow> string \<Rightarrow> 16 word \<Rightarrow> string \<Rightarrow> flagSet go" where
  "pkg_Uint16Var cv cl p name val usage = fs_VarP cv (newUint16Value cl val p) p name [] usage"

definition pkg_Uint16VarP :: "fconv \<Rightarrow> flagSet \<Rightarrow> nat \<Rightarrow> string \<Rightarrow> string \<Rightarrow> 16 word \<Rightarrow> string \<Rightarrow> flagSet go" where
  "pkg_Uint16VarP cv cl p name shorthand val usage = fs_VarP cv (newUint16Value cl val p) p name shorthand usage"

definition pkg_Uint16 :: "fconv \<Rightarrow> flagSet \<Rightarrow> string \<Rightarrow> 16 word \<Rightarrow> string \<Rightarrow> (nat \<times> flagSet) go" where
  "pkg_Uint16 cv cl name val usage = fs_Uint16P cv cl name [] val usage"

definition pkg_Uint16P :: "fconv \<Rightarrow> flagSet \<Rightarrow> string \<Rightarrow> string \<Rightarrow> 16 word \<Rightarrow> string \<Rightarrow> (nat \<times> flagSet) go" where
  "pkg_Uint16P cv cl name shorthand val usage = fs_Uint16P cv cl name shorthand val usage"

section \<open>uint32.go\<close>

definition pkg_Uint32Var :: "fconv \<Rightarrow> flagSet \<Rightarrow> nat \<Rightarrow> string \<Rightarrow> 32 word \<Rightarrow> string \<Rightarrow> flagSet go" where
  "pkg_Uint32Var cv cl p name val usage = fs_VarP cv (newUint32Value cl val p) p name [] usage"

definition pkg_Uint32VarP :: "fconv \<Rightarrow> flagSet \<Rightarrow> nat \<Rightarrow> string \<Rightarrow> string \<Rightarrow> 32 word \<Rightarrow> string \<Rightarrow> flagSet go" where
  "pkg_Uint32VarP cv cl p name shorthand val usage = fs_VarP cv (newUint32Value cl val p) p name shorthand usage"

definition pkg_Uint32 :: "fconv \<Rightarrow> flagSet \<Rightarrow> string \<Rightarrow> 32 word \<Rightarrow> string \<Rightarrow> (nat \<times> flagSet) go" where
  "pkg_Uint32 cv cl name val usage = fs_Uint32P cv cl name [] val usage"

definition pkg_Uint32P :: "fconv \<Rightarrow> flagSet \<Rightarrow> string \<Rightarrow> string \<Rightarrow> 32 word \<Rightarrow> string \<Rightarrow> (nat \<times> flagSet) go" where
  "pkg_Uint32P cv cl name shorthand val usage = fs_Uint32P cv cl name shorthand val usage"

section \<open>uint64.go\<close>

definition pkg_Uint64Var :: "fconv \<Rightarrow> flagSet \<Rightarrow> nat \<Rightarrow> string \<Rightarrow> 64 word \<Rightarrow> string \<Rightarrow> flagSet go" where
  "pkg_Uint64Var cv cl p name val usage = fs_VarP cv (newUint64Value cl val p) p name [] usage"

definition pkg_Uint64VarP :: "fconv \<Rightarrow> flagSet \<Rightarrow> nat \<Rightarrow> string \<Rightarrow> string \<Rightarrow> 64 word \<Rightarrow> string \<Rightarrow> flagSet go" where
  "pkg_Uint64VarP cv cl p name shorthand val usage = fs_VarP cv (newUint64Value cl val p) p name shorthand usage"

definition pkg_Uint64 :: "fconv \<Rightarrow> flagSet \<Rightarrow> string \<Rightarrow> 64 word \<Rightarrow> string \<Rightarrow> (nat \<times> flagSet) go" where
  "pkg_Uint64 cv cl name val usage = fs_Uint64P cv cl name [] val usage"

definition pkg_Uint64P :: "fconv \<Rightarrow> flagSet \<Rightarrow> string \<Rightarrow> string \<Rightarrow> 64 word \<Rightarrow> string \<Rightarrow> (nat \<times> flagSet) go" where
  "pkg_Uint64P cv cl name shorthand val usage = fs_Uint64P cv cl name shorthand val usage"

section \<open>string.go\<close>

definition pkg_StringVarP :: "fconv \<Rightarrow> flagSet \<Rightarrow> nat \<Rightarrow> string \<Rightarrow> string \<Rightarrow> string \<Rightarrow> string \<Rightarrow> flagSet go" where
  "pkg_StringVarP cv cl p name shorthand val usage = fs_VarP cv (newStringValue cl val p) p name shorthand usage"

definition pkg_String :: "fconv \<Rightarrow> flagSet \<Rightarrow> string \<Rightarrow> string \<Rightarrow> string \<Rightarrow> (nat \<times> flagSet) go" where
  "pkg_String cv cl name val usage = fs_StringP cv cl name [] val usage"

definition pkg_StringP :: "fconv \<Rightarrow> flagSet \<Rightarrow> string \<Rightarrow> string \<Rightarrow> string \<Rightarrow> string \<Rightarrow> (nat \<times> flagSet) go" where
  "pkg_StringP cv cl name shorthand val usage = fs_StringP cv cl name shorthand val usage"

section \<open>float32.go\<close>

definition pkg_Float32Var :: "fconv \<Rightarrow> flagSet \<Rightarrow> nat \<Rightarrow> string \<Rightarrow> 32 word \<Rightarrow> string \<Rightarrow> flagSet go" where
  "pkg_Float32Var cv cl p name val usage = fs_VarP cv (newFloat32Value cl val p) p name [] usage"

definition pkg_Float32VarP :: "fconv \<Rightarrow> flagSet \<Rightarrow> nat \<Rightarrow> string \<Rightarrow> string \<Rightarrow> 32 word \<Rightarrow> string \<Rightarrow> flagSet go" where
  "pkg_Float32VarP cv cl p name shorthand val usage = fs_VarP cv (newFloat32Value cl val p) p name shorthand usage"

definition pkg_Float32 :: "fconv \<Rightarrow> flagSet \<Rightarrow> string \<Rightarrow> 32 word \<Rightarrow> string \<Rightarrow> (nat \<times> flagSet) go" where
  "pkg_Float32 cv cl name val usage = fs_Float32P cv cl name [] val usage"

definition pkg_Float32P :: "fconv \<Rightarrow> flagSet \<Rightarrow> string \<Rightarrow> string \<Rightarrow> 32 word \<Rightarrow> string \<Rightarrow> (nat \<times> flagSet) go" where
  "pkg_Float32P cv cl name shorthand val usage = fs_Float32P cv cl name shorthand val usage"

section \<open>float64.go\<close>

definition pkg_Float64VarP :: "fconv \<Rightarrow> flagSet \<Rightarrow> nat \<Rightarrow> string \<Rightarrow> string \<Rightarrow> float64 \<Rightarrow> string \<Rightarrow> flagSet go" where
  "pkg_Float64VarP cv cl p name shorthand val usage = fs_VarP cv (newFloat64Value cl val p) p name shorthand usage"

definition pkg_Float64 :: "fconv \<Rightarrow> flagSet \<Rightarrow> string \<Rightarrow> float64 \<Rightarrow> string \<Rightarrow> (nat \<times> flagSet) go" where
  "pkg_Float64 cv cl name val usage = fs_Float64P cv cl name [] val usage"

definition pkg_Float64P :: "fconv \<Rightarrow> flagSet \<Rightarrow> string \<Rightarrow> string \<Rightarrow> float64 \<Rightarrow> string \<Rightarrow> (nat \<times> flagSet) go" where
  "pkg_Float64P cv cl name shorthand val usage = fs_Float64P cv cl name shorthand val usage"

section \<open>duration.go\<close>

definition pkg_DurationVar :: "fconv \<Rightarrow> flagSet \<Rightarrow> nat \<Rightarrow> string \<Rightarrow> int \<Rightarrow> string \<Rightarrow> flagSet go" where
  "pkg_DurationVar cv cl p name val usage = fs_VarP cv (newDurationValue cl val p) p name [] usage"

definition pkg_DurationVarP :: "fconv \<Rightarrow> flagSet \<Rightarrow> nat \<Rightarrow> string \<Rightarrow> string \<Rightarrow> int \<Rightarrow> string \<Rightarrow> flagSet go" where
  "pkg_DurationVarP cv cl p name shorthand val usage = fs_VarP cv (newDurationValue cl val p) p name shorthand usage"

definition pkg_Duration :: "fconv \<Rightarrow> flagSet \<Rightarrow> string \<Rightarrow> int \<Rightarrow> string \<Rightarrow> (nat \<times> flagSet) go" where
  "pkg_Duration cv cl name val usage = fs_DurationP cv cl name [] val usage"

definition pkg_DurationP :: "fconv \<Rightarrow> flagSet \<Rightarrow> string \<Rightarrow> string \<Rightarrow> int \<Rightarrow> string \<Rightarrow> (nat \<times> flagSet) go" where
  "pkg_DurationP cv cl name shorthand val usage = fs_DurationP cv cl name shorthand val usage"

section \<open>ip.go\<close>

definition pkg_IPVar :: "fconv \<Rightarrow> flagSet \<Rightarrow> nat \<Rightarrow> string \<Rightarrow> 8 word list \<Rightarrow> string \<Rightarrow> flagSet go" where
  "pkg_IPVar cv cl p name val usage = fs_VarP cv (newIPValue cl val p) p name [] usage"

definition pkg_IPVarP :: "fconv \<Rightarrow> flagSet \<Rightarrow> nat \<Rightarrow> string \<Rightarrow> string \<Rightarrow> 8 word list \<Rightarrow> string \<Rightarrow> flagSet go" where
  "pkg_IPVarP cv cl p name shorthand val usage = fs_VarP cv (newIPValue cl val p) p name shorthand usage"

definition pkg_IP :: "fconv \<Rightarrow> flagSet \<Rightarrow> string \<Rightarrow> 8 word list \<Rightarrow> string \<Rightarrow> (nat \<times> flagSet) go" where
  "pkg_IP cv cl name val usage = fs_IPP cv cl name [] val usage"

definition pkg_IPP :: "fconv \<Rightarrow> flagSet \<Rightarrow> string \<Rightarrow> string \<Rightarrow> 8 word list \<Rightarrow> string \<Rightarrow> (nat \<times> flagSet) go" where
  "pkg_IPP cv cl name shorthand val usage = fs_IPP cv cl name shorthand val usage"

section \<open>ipmask.go\<close>

definition pkg_IPMaskVar :: "fconv \<Rightarrow> flagSet \<Rightarrow> nat \<Rightarrow> string \<Rightarrow> 8 word list \<Rightarrow> string \<Rightarrow> flagSet go" where
  "pkg_IPMaskVar cv cl p name val usage = fs_VarP cv (newIPMaskValue cl val p) p name [] usage"

definition pkg_IPMaskVarP :: "fconv \<Rightarrow> flagSet \<Rightarrow> nat \<Rightarrow> string \<Rightarrow> string \<Rightarrow> 8 word list \<Rightarrow> string \<Rightarrow> flagSet go" where
  "pkg_IPMaskVarP cv cl p name shorthand val usage = fs_VarP cv (newIPMaskValue cl val p) p name shorthand usage"

definition pkg_IPMask :: "fconv \<Rightarrow> flagSet \<Rightarrow> string \<Rightarrow> 8 word list \<Rightarrow> string \<Rightarrow> (nat \<times> flagSet) go" where
  "pkg_IPMask cv cl name val usage = fs_IPMaskP cv cl name [] val usage"

definition pkg_IPMaskP :: "fconv \<Rightarrow> flagSet \<Rightarrow> string \<Rightarrow> string \<Rightarrow> 8 word list \<Rightarrow> string \<Rightarrow> (nat \<times> flagSet) go" where
  "pkg_IPMaskP cv cl name shorthand val usage = fs_IPMaskP cv cl name shorthand val usage"

section \<open>Lemmas\<close>

text \<open>A function that makes the variable returns the next address, and there is the default.\<close>

lemma VarP_mem: "fs_VarP cv f p name sh usage = Return f' \<Longrightarrow> fs_mem f' = fs_mem f \<and> fs_next f' = fs_next f"
  by (auto simp: fs_VarP_def Let_def split: if_splits)

lemma new_var_Return:
  "new_var def f = Return (p, f') \<longleftrightarrow> p = fs_next f \<and> def p (f\<lparr>fs_next := Suc p\<rparr>) = Return f'"
  by (auto simp: new_var_def Let_def go_bind_Return)

lemma new_variables:
  "pkg_BoolP cv cl name sh v0 usage = Return (p, f) \<Longrightarrow> p = fs_next cl \<and> fs_next f = Suc p \<and> fs_mem f p = VBool v0"
  "pkg_IntP cv cl name sh v1 usage = Return (p, f) \<Longrightarrow> p = fs_next cl \<and> fs_next f = Suc p \<and> fs_mem f p = VInt v1"
  "pkg_Int8P cv cl name sh v2 usage = Return (p, f) \<Longrightarrow> p = fs_next cl \<and> fs_next f = Suc p \<and> fs_mem f p = VInt8 v2"
  "pkg_Int32P cv cl name sh v3 usage = Return (p, f) \<Longrightarrow> p = fs_next cl \<and> fs_next f = Suc p \<and> fs_mem f p = VInt32 v3"
  "pkg_Int64P cv cl name sh v4 usage = Return (p, f) \<Longrightarrow> p = fs_next cl \<and> fs_next f = Suc p \<and> fs_mem f p = VInt64 v4"
  "pkg_UintP cv cl name sh v5 usage = Return (p, f) \<Longrightarrow> p = fs_next cl \<and> fs_next f = Suc p \<and> fs_mem f p = VUint v5"
  "pkg_Uint8P cv cl name sh v6 usage = Return (p, f) \<Longrightarrow> p = fs_next cl \<and> fs_next f = Suc p \<and> fs_mem f p = VUint8 v6"
  "pkg_Uint16P cv cl name sh v7 usage = Return (p, f) \<Longrightarrow> p = fs_next cl \<and> fs_next f = Suc p \<and> fs_mem f p = VUint16 v7"
  "pkg_Uint32P cv cl name sh v8 usage = Return (p, f) \<Longrightarrow> p = fs_next cl \<and> fs_next f = Suc p \<and> fs_mem f p = VUint32 v8"
  "pkg_Uint64P cv cl name sh v9 usage = Return (p, f) \<Longrightarrow> p = fs_next cl \<and> fs_next f = Suc p \<and> fs_mem f p = VUint64 v9"
  "pkg_StringP cv cl name sh v10 usage = Return (p, f) \<Longrightarrow> p = fs_next cl \<and> fs_next f = Suc p \<and> fs_mem f p = VString v10"
  "pkg_Float32P cv cl name sh v11 usage = Return (p, f) \<Longrightarrow> p = fs_next cl \<and> fs_next f = Suc p \<and> fs_mem f p = VFloat32 v11"
  "pkg_Float64P cv cl name sh v12 usage = Return (p, f) \<Longrightarrow> p = fs_next cl \<and> fs_next f = Suc p \<and> fs_mem f p = VFloat v12"
  "pkg_DurationP cv cl name sh v13 usage = Return (p, f) \<Longrightarrow> p = fs_next cl \<and> fs_next f = Suc p \<and> fs_mem f p = VDuration v13"
  "pkg_IPP cv cl name sh v14 usage = Return (p, f) \<Longrightarrow> p = fs_next cl \<and> fs_next f = Suc p \<and> fs_mem f p = VIP v14"
  "pkg_IPMaskP cv cl name sh v15 usage = Return (p, f) \<Longrightarrow> p = fs_next cl \<and> fs_next f = Suc p \<and> fs_mem f p = VIPMask v15"
  by (auto simp: new_var_Return pkg_BoolP_def fs_BoolP_def fs_BoolVarP_def newBoolValue_def
      pkg_IntP_def fs_IntP_def fs_IntVarP_def newIntValue_def
      pkg_Int8P_def fs_Int8P_def fs_Int8VarP_def newInt8Value_def
      pkg_Int32P_def fs_Int32P_def fs_Int32VarP_def newInt32Value_def
      pkg_Int64P_def fs_Int64P_def fs_Int64VarP_def newInt64Value_def
      pkg_UintP_def fs_UintP_def fs_UintVarP_def newUintValue_def
      pkg_Uint8P_def fs_Uint8P_def fs_Uint8VarP_def newUint8Value_def
      pkg_Uint16P_def fs_Uint16P_def fs_Uint16VarP_def newUint16Value_def
      pkg_Uint32P_def fs_Uint32P_def fs_Uint32VarP_def newUint32Value_def
      pkg_Uint64P_def fs_Uint64P_def fs_Uint64VarP_def newUint64Value_def
      pkg_StringP_def fs_StringP_def fs_StringVarP_def newStringValue_def
      pkg_Float32P_def fs_Float32P_def fs_Float32VarP_def newFloat32Value_def
      pkg_Float64P_def fs_Float64P_def fs_Float64VarP_def newFloat64Value_def
      pkg_DurationP_def fs_DurationP_def fs_DurationVarP_def newDurationValue_def
      pkg_IPP_def fs_IPP_def fs_IPVarP_def newIPValue_def
      pkg_IPMaskP_def fs_IPMaskP_def fs_IPMaskVarP_def newIPMaskValue_def
      dest!: VarP_mem)

end
