(* ===== verification/RedisTest.thy ===== *)
theory RedisTest
  imports Resp
begin

text \<open>
  The connection of redigo's own tests (\<open>internal/redistest/testdb.go\<close>): it selects database 9, refuses
  one with data in it and empties it at the end. \<open>dialer\<close> is a \<open>net.Dialer\<close> with its timeout, in
  nanoseconds.
\<close>

section \<open>Model\<close>

definition dialTimeout ::
  "(int \<Rightarrow> string \<Rightarrow> string \<Rightarrow> go_error + bytes list \<times> go_error) \<Rightarrow> string \<Rightarrow> string \<Rightarrow> int \<Rightarrow> int \<Rightarrow> int \<Rightarrow> go_error + rconn" where
  "dialTimeout dialer network address connectTimeout readTimeout writeTimeout =
     xDialer_Dial (dialer connectTimeout) readTimeout writeTimeout network address"

definition multiBulk :: "reply \<Rightarrow> go_error option \<Rightarrow> reply list \<times> go_error option" where
  "multiBulk r err = reply_values r err"

definition testConn_Close :: "(float64 \<Rightarrow> string) \<Rightarrow> rconn \<Rightarrow> rconn \<times> go_error option" where
  "testConn_Close show_float c =
     (case conn_Do show_float ''SELECT'' [AStr ''9''] c of
        (c1, _, Some err) \<Rightarrow> (c1, None)
      | (c1, _, None) \<Rightarrow>
          (case conn_Do show_float ''FLUSHDB'' [] c1 of
             (c2, _, Some err) \<Rightarrow> (c2, Some err)
           | (c2, _, None) \<Rightarrow> conn_Close c2))"

text \<open>The connection that was made, if any, is returned beside the result.\<close>

definition testDB_Dial ::
  "(float64 \<Rightarrow> string) \<Rightarrow> (int \<Rightarrow> string \<Rightarrow> string \<Rightarrow> go_error + bytes list \<times> go_error) \<Rightarrow> rconn option \<times> go_error option" where
  "testDB_Dial show_float dialer =
     (case dialTimeout dialer ''tcp'' '':6379'' 0 1000000000 1000000000 of
        Inl err \<Rightarrow> (None, Some err)
      | Inr c \<Rightarrow>
          (case conn_Do show_float ''SELECT'' [AStr ''9''] c of
             (c1, _, Some err) \<Rightarrow> (Some c1, Some err)
           | (c1, _, None) \<Rightarrow>
               (let (c2, reply, err) = conn_Do show_float ''DBSIZE'' [] c1; (n, err') = reply_int reply err
                in if err' \<noteq> None then (Some c2, err')
                   else if n \<noteq> 0 then (Some c2, Some (ErrOther ''database #9 is not empty, test can not continue''))
                   else (Some c2, None))))"

section \<open>Lemmas\<close>

text \<open>
  On a connection that works \<open>Close\<close> sends the two commands, in this order, reads their replies and closes
  the connection.
\<close>

lemma testConn_Close_sends:
  assumes "writable c" and "cn_pending c = 0" and "input c = resp (RStatus ''OK'') @ resp (RStatus ''OK'')"
    and "conn_Err c = None"
  shows "\<exists>c'. testConn_Close sf c = (c', cn_closeErr c') \<and> cn_closed c'
    \<and> cn_sent c' = written c @ resp (command sf ''SELECT'' [AStr ''9'']) @ resp (command sf ''FLUSHDB'' [])"
proof -
  have ok: "\<forall>r \<in> set ([] @ [RStatus ''OK'']). sendable r" by (simp add: bufio_size_def)
  obtain c1 where c1: "conn_Do sf ''SELECT'' [AStr ''9''] c = (c1, RStatus ''OK'', None)"
    "cn_sent c1 = written c @ resp (command sf ''SELECT'' [AStr ''9''])" "cn_wbuf c1 = []" "writable c1"
    "input c1 = resp (RStatus ''OK'')" "cn_pending c1 = 0" "conn_Err c1 = None"
    using do_one_exchange [OF assms(1) _ _ ok, of "''SELECT''" "resp (RStatus ''OK'')" sf "[AStr ''9'']"] assms by auto
  obtain c2 where c2: "conn_Do sf ''FLUSHDB'' [] c1 = (c2, RStatus ''OK'', None)"
    "cn_sent c2 = written c1 @ resp (command sf ''FLUSHDB'' [])" "conn_Err c2 = None"
    using do_one_exchange [OF c1(4) _ _ ok, of "''FLUSHDB''" "[]" sf "[]"] c1 by auto
  have "written c1 = written c @ resp (command sf ''SELECT'' [AStr ''9''])" using c1(2,3) by (simp add: written_def)
  with c1(1) c2 show ?thesis by (simp add: testConn_Close_def conn_Close_def conn_Err_def net_Close_def Let_def)
qed

text \<open>
  A connection on which \<open>SELECT\<close> fails is not closed, and its error is dropped.
\<close>

lemma testConn_not_closed:
  assumes "conn_Do sf ''SELECT'' [AStr ''9''] c = (c1, r, Some err)"
  shows "testConn_Close sf c = (c1, None)"
  using assms by (simp add: testConn_Close_def)

end
