(* ===== verification/Spec2Isabelle.thy ===== *)
theory Spec2Isabelle
  imports Session BlobStore Delivery Busltee RedisLog ScanStruct Subrouter Startup Signals RollbarQueue
    ForwardAssertions PflagPackage RedisTest
begin

text \<open>
  A verification library for busl, the build-output streams of Heroku: a server that takes the output
  of a command by \<open>POST\<close>, keeps it in Redis, streams it to subscribers by \<open>GET\<close> (raw or as an event
  stream) and stores it in a blob store; and \<open>busltee\<close>, the command that runs another one and posts
  its output.

  \<^bold>\<open>How the program is put together.\<close> A request comes through \<open>net/http\<close> to the router of the
  vendored \<open>gorilla/mux\<close> and from there, behind the middleware (HTTPS, basic authentication, default
  headers, log line), to a handler of package \<open>server\<close>. \<open>PUT\<close> and \<open>POST /streams\<close> register a channel
  with package \<open>broker\<close>; \<open>POST /streams/key\<close> writes to it and starts uploads with package \<open>storage\<close>;
  \<open>GET /streams/key\<close> reads the channel, or the blob when Redis has forgotten it, through the encoder of
  package \<open>sse\<close> and the keepalive reader. The broker talks to Redis through the vendored client
  \<open>redigo\<close>: a pool of connections, each of which writes commands and reads replies of the protocol.

  \<^bold>\<open>Which theory models what.\<close>
  \<^item> \<open>Prelude\<close>, \<open>GoLib\<close>, \<open>Strconv\<close>, \<open>Http\<close>, \<open>Regexp\<close>: the values of the program and what it uses of
    Go's standard library (version 1.4), each function written out: 64-bit integers as \<open>int\<close> with the
    wrap-around \<open>i64\<close>, byte strings as \<open>string\<close>, errors as the datatype \<open>go_error\<close>, a call that may
    panic or block as \<open>'a go\<close>.
  \<^item> \<open>RedisServer\<close>: the documented commands of a Redis server as laws on any client (the locales
    \<open>redis_server\<close>, \<open>redis_pubsub\<close>, \<open>redis_up\<close>), and a reference server that obeys them.
  \<^item> \<open>Reply\<close>, \<open>Redigo\<close>, \<open>Resp\<close>, \<open>Scan\<close>, \<open>ScanStruct\<close>, \<open>Pool\<close>, \<open>PoolInv\<close>, \<open>RedisPool\<close>,
    \<open>RedisLog\<close>, \<open>RedisTest\<close>: the client,
    \<open>reply.go\<close>, \<open>conn.go\<close>, \<open>scan.go\<close>, \<open>pool.go\<close>, \<open>commandinfo.go\<close>, \<open>pubsub.go\<close>, \<open>script.go\<close>, \<open>log.go\<close> and
    the broker's pool in \<open>broker/redis.go\<close>. \<open>Resp\<close> shows that the reader reads back what the protocol
    encodes, in whatever segments it arrives; \<open>PoolInv\<close> that the pool's accounts are right under any
    interleaving of its clients; \<open>RedisPool\<close> that a broken connection is never used again.
  \<^item> \<open>Broker\<close>, \<open>Channels\<close>, \<open>IO\<close>, \<open>Bus\<close>, \<open>Session\<close>: \<open>broker/broker.go\<close>, \<open>redis.go\<close>, \<open>io.go\<close>. The
    specification is a log of bytes with a mark for done for each channel; \<open>Channels\<close> shows that the
    Redis commands implement it, \<open>Bus\<close> and \<open>Session\<close> run one reader against an arbitrary environment
    of publishers, other readers and renewals and give safety (nothing lost, nothing twice) and
    progress (the end is reached).
  \<^item> \<open>Sse\<close> (\<open>sse/sse.go\<close>), \<open>Storage\<close> (\<open>storage/blob.go\<close>), \<open>KeepAlive\<close>
    (\<open>server/keepalivereader.go\<close>), \<open>Auth\<close> (the vendored \<open>authenticater\<close>), \<open>Util\<close> (package \<open>util\<close>).
  \<^item> \<open>Server\<close>, \<open>Handlers\<close>, \<open>Streams\<close>: \<open>server/server.go\<close>, \<open>middleware.go\<close>, \<open>errors.go\<close>,
    \<open>writeflusher.go\<close>. \<open>Handlers\<close> says what requests leave behind, \<open>Streams\<close> what a subscriber gets.
  \<^item> \<open>Mux\<close>, \<open>Router\<close>, \<open>MuxUrl\<close>, \<open>Subrouter\<close>: \<open>gorilla/mux\<close> and \<open>gorilla/context\<close>, and the routes of \<open>app\<close>;
    \<open>Subrouter\<close> shows that nested routers route as the flat list of their leaves.
  \<^item> \<open>BlobStore\<close>: what the server relies on of the store (locale \<open>blob_service\<close>, interpreted on a small
    store), and the way of a stream from its upload to a subscriber who comes late.
  \<^item> \<open>FiniteSource\<close>, \<open>Delivery\<close>: readers whose rest is known (locale \<open>finite_source\<close>), as the broker's is on a
    finished channel, and the way of a stream from its \<open>POST\<close> to the last byte of a later \<open>GET\<close>.
  \<^item> \<open>Rollbar\<close>, \<open>RollbarQueue\<close>: the vendored \<open>rollbar\<close>, the reports and their queue.
  \<^item> \<open>Lifecycle\<close>, \<open>Startup\<close>: \<open>main.go\<close>, \<open>util/config.go\<close>, \<open>assets/cat.go\<close>, the \<open>init\<close> functions, the start and the shutdown of
    the server and the vendored \<open>manners\<close>.
  \<^item> \<open>PflagValues\<close>, \<open>Pflag\<close>, \<open>PflagParse\<close>, \<open>PflagTypes\<close>, \<open>PflagPackage\<close>, \<open>Busltee\<close>, \<open>Signals\<close>: the vendored \<open>pflag\<close>,
    \<open>busltee/runner.go\<close>, \<open>log.go\<close> and
    \<open>cmd/busltee/main.go\<close>.
  \<^item> \<open>GoValue\<close>, \<open>Testify\<close>, \<open>Assertions\<close>, \<open>ForwardAssertions\<close>: values of any type, the vendored \<open>testify/assert\<close>
    the tests are written with, and what its assertions report and decide.

  \<^bold>\<open>Interfaces.\<close> The locales name what one component relies on: \<open>registrar\<close> and the three of the Redis
  server (interpreted on the reference server), \<open>io_reader\<close> (the contract of \<open>io.Reader\<close>, given for
  every layer of a stream: broker, blob, encoder, \<open>served_io\<close>) and its extension \<open>finite_source\<close>, \<open>authenticater\<close> (for basic
  authentication and Logplex tokens), \<open>conn_client\<close> (the connections a pool hands out, interpreted on
  the protocol's implementation over a heap of connections), \<open>blob_service\<close>.

  \<^bold>\<open>Concurrency.\<close> Goroutines are steps of inductive relations: \<open>reader_step\<close> and \<open>env_step\<close> at the
  grain of the Redis commands, \<open>ka_step\<close> for the keepalive reader and its channel, \<open>pool_step\<close> for the
  locked sections of the pool, \<open>queue_step\<close> for the queue of the reports, \<open>own_step\<close> and \<open>world_step\<close>
  for the life of the process. What one lock guards is one step.

  \<^bold>\<open>Bounds.\<close> Every function of the model is total. Loops that follow a counter of the code recurse on it
  (the retries of \<open>Put\<close>, \<open>Get\<close> and \<open>stream\<close>). \<open>readReply\<close> recurses on fuel, one more than the bytes of
  the input, and \<open>readReply_recursion\<close> shows that it is never used up. \<open>drain\<close> in \<open>Pool\<close>, which may wait
  for ever, is a \<open>partial_function\<close>.

  \<^bold>\<open>Not modelled.\<close> The texts of log lines, metrics and error messages, where nothing reads them, the usage
  text of \<open>busltee\<close> and an example program of the vendored \<open>authenticater\<close>. The
  HTTP client, the URL parser, the child process of \<open>busltee\<close>, the formats of \<open>fmt\<close> and the Redis server
  are arguments.
\<close>

section \<open>Properties that span components\<close>

text \<open>What the response's headers do not touch.\<close>

lemma addDefaultHeaders_fields:
  obtains s' where "addDefaultHeaders fn r s = fn r s'"
    "sv_redis s' = sv_redis s" "sv_http s' = sv_http s" "sv_uploads s' = sv_uploads s"
    "sv_uploaders s' = sv_uploaders s"
proof -
  define s' where "s' = setHeader ''Access-Control-Allow-Credentials'' ''true''
    (setHeader ''Access-Control-Allow-Headers'' ''Content-Type, Content-Length, Accept-Encoding, X-CSRF-Token''
      (setHeader ''Access-Control-Allow-Methods'' ''POST, GET, OPTIONS, PUT, DELETE''
        (let origin = header_get (hr_headers r) ''Origin''
         in if origin \<noteq> [] then setHeader ''Access-Control-Allow-Origin'' origin s else s)))"
  have "addDefaultHeaders fn r s = fn r s'" by (simp add: addDefaultHeaders_def s'_def Let_def)
  then show thesis by (rule that) (simp_all add: s'_def setHeader_def Let_def)
qed

lemma pub_uploads:
  assumes "redis_up (cf_redis cf) db_of inbox pats"
    and "''chunked'' \<in> set (hr_te r)" and "db_of (sv_redis s) (chan_id (req_key r)) \<noteq> None"
    and "hr_body r = map (\<lambda>d. (d, None)) ds" and "\<forall>d \<in> set ds. d \<noteq> []"
  shows "sv_uploads (pub cf r s) = sv_uploads s @ [(req_key r, req_requestURI r)]"
    and "sv_http (pub cf r s) = sv_http s"
proof -
  have b: "hr_body r = map (\<lambda>d. (d, None)) ds @ []" by (simp add: assms(4))
  have p: "pub cf r s = s\<lparr>sv_uploads := sv_uploads s @ [(req_key r, req_requestURI r)]\<rparr>
      \<lparr>sv_redis := sv_redis (pub cf r s)\<rparr>"
    using redis_up.pub_db(2) [OF assms(1) refl assms(2,3) b assms(5) disjI1 [OF refl]]
    by (simp only: Let_def simp_thms if_True)
  show "sv_uploads (pub cf r s) = sv_uploads s @ [(req_key r, req_requestURI r)]" by (subst p) simp
  show "sv_http (pub cf r s) = sv_http s" by (subst p) simp
qed

text \<open>The upload of a channel asks the store first to put all of its content.\<close>

lemma storeOutput_first:
  assumes "redis_up (cf_redis cf) db_of inbox pats" and "cf_http cf = traced H"
    and "fst (channels_of (db_of (sv_redis s)) key) = Some v"
    and "storage_newRequest (cf_urls cf) (cf_storageBaseURL cf) ''PUT'' uri (Some v) = Inr rq"
  shows "\<exists>x rest. snd (sv_http (storeOutput cf key uri s)) = snd (sv_http s) @ Sent rq x # rest"
proof -
  obtain w' where g: "broker_get (cf_redis cf) (sv_redis s) key = (w', v, None)"
    using redis_up.get_up [OF assms(1,3)] by blast
  obtain h es where h: "sv_http s = (h, es)" by (cases "sv_http s")
  from put_first_request [OF assms(4), of H h es]
  show ?thesis by (auto simp: storeOutput_def g assms(2) h Let_def split: prod.splits)
qed

text \<open>
  C5. What is posted reaches the store: a request \<open>POST /streams/key\<close> with a chunked body, led by
  the router to its handler, appends the body to the channel of the key and finishes it; it starts
  one upload, and the first request of that upload puts to the store, under the key and the query of
  the request, all that the channel held and the whole body behind it.
\<close>

theorem posted_is_stored:
  assumes "redis_up (cf_redis cf) db_of inbox pats" and "cf_http cf = traced H"
    and "cleanPath path = path" and "stream_key path = Some key"
    and "hr_method r = ''POST''" and "''chunked'' \<in> set (hr_te r)"
    and "hr_body r = map (\<lambda>d. (d, None)) ds" and "\<forall>d \<in> set ds. d \<noteq> []"
    and "db_of (sv_redis s) (chan_id key) \<noteq> None"
    and "content = chan_val (db_of (sv_redis s)) key @ concat ds"
    and "uri = key @ (if hr_query r \<noteq> [] then ''?'' @ hr_query r else [])"
    and "storage_newRequest (cf_urls cf) (cf_storageBaseURL cf) ''PUT'' uri (Some content) = Inr rq"
    and "s1 = fst (serve_routed cf now n cx path r s)"
  shows "channels_of (db_of (sv_redis s1)) key = (Some content, True)
    \<and> sv_uploads s1 = sv_uploads s @ [(key, uri)]
    \<and> (\<exists>x rest. snd (sv_http (storeOutput cf key uri s1)) = snd (sv_http s) @ Sent rq x # rest)
    \<and> rq_method rq = ''PUT'' \<and> rq_body rq = Some content"
proof -
  let ?r = "r\<lparr>hr_key := key\<rparr>"
  have path: "path \<noteq> ''/health''" "path \<noteq> ''/streams''" using assms(4) by (auto simp: stream_key_def)
  have k: "req_key ?r = key" "req_requestURI ?r = uri" by (simp_all add: req_key_def req_requestURI_def assms(11))
  obtain s' where s': "addDefaultHeaders (pub cf) ?r s = pub cf ?r s'"
    "sv_redis s' = sv_redis s" "sv_http s' = sv_http s" "sv_uploads s' = sv_uploads s"
    using addDefaultHeaders_fields [of "pub cf" ?r s] by metis
  have s1: "s1 = pub cf ?r s'"
    using assms(3-5) path by (simp add: assms(13) serve_routed_cases route_of_def app_handler_def s'(1))
  have te: "''chunked'' \<in> set (hr_te ?r)" and body: "hr_body ?r = map (\<lambda>d. (d, None)) ds"
    and reg: "db_of (sv_redis s') (chan_id (req_key ?r)) \<noteq> None"
    using assms(6,7,9) by (simp_all add: k s')
  have chan: "channels_of (db_of (sv_redis s1)) key = (Some content, True)"
    using redis_up.pub_db(1) [OF assms(1) refl te reg, of ds "[]"] body assms(8,10) by (simp add: s1 k s')
  have up: "sv_uploads s1 = sv_uploads s @ [(key, uri)]" "sv_http s1 = sv_http s"
    using pub_uploads [OF assms(1) te reg body assms(8)] by (simp_all add: s1 k s')
  have "\<exists>x rest. snd (sv_http (storeOutput cf key uri s1)) = snd (sv_http s1) @ Sent rq x # rest"
    by (rule storeOutput_first [OF assms(1,2) _ assms(12)]) (simp add: chan)
  with chan up newRequest_fields [OF assms(12)] show ?thesis by simp
qed

text \<open>The demonstration's server with a store that takes every upload.\<close>

definition demo_store ::
  "(refworld, http_response list \<times> string h_event list, string) config" where
  "demo_store = \<lparr>cf_redis = ref_redis, cf_http = traced script_http, cf_urls = script_url,
     cf_bodyRead = (\<lambda>h b p. (h, Return (p, 0, Some EOF))), cf_storageBaseURL = ''http://s3'', cf_creds = [],
     cf_enforceHTTPS = False, cf_httpCatGone = ''GONE''\<rparr>"

definition demo_post :: request where
  "demo_post = \<lparr>hr_method = ''POST'', hr_path = ''/streams/k'', hr_query = [], hr_host = ''busl'',
     hr_headers = [], hr_te = [''chunked''], hr_key = [], hr_body = [(''ab'', None), (''c'', None)]\<rparr>"

definition demo_state :: "(refworld, http_response list \<times> string h_event list) serv" where
  "demo_state = \<lparr>rp_headers = [], rp_status = None, rp_body = [], rp_calls = [], rp_flushed = 0,
     sv_redis = expiry_run ''k'' ''data'' 9 9, sv_http = (script [200], []),
     sv_rand = (\<lambda>i. (replicate 16 CHR 0x61, 16, None)), sv_uploaders = [], sv_uploads = [], sv_log = [], sv_reports = []\<rparr>"

lemma demo_state_content:
  "rw_db (sv_redis demo_state) (chan_id ''k'') \<noteq> None" "chan_val (rw_db (sv_redis demo_state)) ''k'' = ''data''"
  using expiry_run_db(1) [of 9 9 "''k''" "''data''"] by (simp_all add: demo_state_def chan_val_def db_get_def)

lemma demo_put_request:
  "storage_newRequest (cf_urls demo_store) (cf_storageBaseURL demo_store) ''PUT'' ''k'' (Some b) =
     Inr \<lparr>rq_method = ''PUT'', rq_url = ''http://s3/k'', rq_body = Some b, rq_te = [], rq_headers = []\<rparr>"
  by (simp add: demo_store_def storage_newRequest_def storage_absoluteURL_def storage_baseURI_def
      storage_normalize_def script_url_def http_newRequest_def)

theorem posted_is_stored_witness:
  "\<exists>s1 x rest. s1 = fst (serve_routed demo_store 0 0 \<lparr>cx_data = [], cx_datat = []\<rparr> ''/streams/k'' demo_post demo_state)
     \<and> channels_of (rw_db (sv_redis s1)) ''k'' = (Some ''dataabc'', True)
     \<and> snd (sv_http (storeOutput demo_store ''k'' ''k'' s1)) =
         Sent \<lparr>rq_method = ''PUT'', rq_url = ''http://s3/k'', rq_body = Some ''dataabc'', rq_te = [], rq_headers = []\<rparr> x # rest"
proof -
  have up: "redis_up (cf_redis demo_store) rw_db rw_inbox rw_pats"
    using refred.redis_up_axioms by (simp add: demo_store_def)
  have h: "cf_http demo_store = traced script_http" by (simp add: demo_store_def)
  have p: "cleanPath ''/streams/k'' = ''/streams/k''" "stream_key ''/streams/k'' = Some ''k''" by code_simp+
  have r: "hr_method demo_post = ''POST''" "''chunked'' \<in> set (hr_te demo_post)"
    "hr_body demo_post = map (\<lambda>d. (d, None)) [''ab'', ''c'']" "\<forall>d \<in> set [''ab'', ''c'']. d \<noteq> []"
    "''k'' = ''k'' @ (if hr_query demo_post \<noteq> [] then ''?'' @ hr_query demo_post else [])"
    by (simp_all add: demo_post_def)
  have c: "''dataabc'' = chan_val (rw_db (sv_redis demo_state)) ''k'' @ concat [''ab'', ''c'']"
    by (simp add: demo_state_content)
  from posted_is_stored [OF up h p r(1-4) demo_state_content(1) c r(5) demo_put_request refl,
      of 0 0 "\<lparr>cx_data = [], cx_datat = []\<rparr>"]
  show ?thesis by (simp add: demo_state_def)
qed

lemma newRequest_other:
  "storage_newRequest L base m uri body = Inr rq \<Longrightarrow>
   storage_newRequest L base m' uri body' = Inr (rq\<lparr>rq_method := m', rq_body := body'\<rparr>)"
  by (auto simp: storage_newRequest_def http_newRequest_def split: sum.splits)

text \<open>
  C6. What was stored is served when Redis has forgotten it: after an upload of the channel that the
  store has accepted, a subscriber who asks for the same key and query gets the stream of the stored
  object from its offset on. Through the keepalive reader and its heartbeats it receives a prefix of
  the rest of the content, in order, and all of it when the stream ends while the client is there.
\<close>

theorem stored_is_served:
  assumes "redis_up (cf_redis cf) db_of inbox pats"
    and "blob_service (cf_http cf) (cf_bodyRead cf) obj left"
    and "fst (channels_of (db_of (sv_redis s)) key) = Some v"
    and "storage_newRequest (cf_urls cf) (cf_storageBaseURL cf) ''PUT'' uri (Some v) = Inr rq"
    and "h_do (cf_http cf) (sv_http s) rq = (h1, n, Inr res)" and "ok_status res"
    and "sv_http s2 = sv_http (storeOutput cf key uri s)" and "db_of (sv_redis s2) (chan_id key) = None"
    and "req_key r = key" and "req_requestURI r = uri"
    and "header_get (hr_headers r) ''Accept'' \<noteq> ''text/event-stream''"
    and "0 \<le> req_offset r" and "req_offset r < int (length v)"
  shows "\<exists>s3 k. sub cf True r s2 = (s3, Some k) \<and>
    (\<forall>t. ka_reach (served_io cf) \<lparr>kr_k = k, kr_src = [], kr_out = [], kr_err = None, kr_gone = False\<rparr> t \<longrightarrow>
      prefix (pieces_data (kr_out t)) (drop (nat (req_offset r)) v)
      \<and> (kr_err t = Some EOF \<and> \<not> kr_gone t \<longrightarrow> pieces_data (kr_out t) = drop (nat (req_offset r)) v))"
proof -
  let ?get = "rq\<lparr>rq_method := ''GET'', rq_body := None\<rparr>"
  have get: "storage_newRequest (cf_urls cf) (cf_storageBaseURL cf) ''GET'' (req_requestURI r) None = Inr ?get"
    using newRequest_other [OF assms(4)] assms(10) by simp
  have "obj (sv_http s2) (rq_url ?get) = Some v"
    using blob_service.storeOutput_stores [OF assms(2,1) refl assms(3-6)] assms(7) by simp
  from blob_service.sub_from_store [OF assms(2,1) refl _ assms(11) get this assms(12,13)] assms(8,9)
  obtain s3 w h k where sub: "sub cf True r s2 = (s3, Some (newKeepAliveReader ((w, h), Sv_plain (Src_blob k)) getNullByte))"
    and l: "left h k = drop (nat (req_offset r)) v" by auto
  have "prefix (pieces_data (kr_out t)) (left h k)
      \<and> (kr_err t = Some EOF \<and> \<not> kr_gone t \<longrightarrow> pieces_data (kr_out t) = left h k)"
    if "ka_reach (served_io cf) (ka_init ((w, h), Sv_plain (Src_blob k)) getNullByte) t" for t
    by (rule blob_service.blob_run [OF assms(2) refl assms(1) that])
  with sub l show ?thesis by (auto simp: ka_init_def)
qed

definition demo_s3 :: "(refworld, blobs, string) config" where
  "demo_s3 = \<lparr>cf_redis = ref_redis, cf_http = blob_http, cf_urls = script_url,
     cf_bodyRead = blob_read, cf_storageBaseURL = ''http://s3'', cf_creds = [],
     cf_enforceHTTPS = False, cf_httpCatGone = ''GONE''\<rparr>"

definition demo_s3_state :: "refworld \<Rightarrow> blobs \<Rightarrow> (refworld, blobs) serv" where
  "demo_s3_state w h = \<lparr>rp_headers = [], rp_status = None, rp_body = [], rp_calls = [], rp_flushed = 0,
     sv_redis = w, sv_http = h, sv_rand = (\<lambda>i. (replicate 16 CHR 0x61, 16, None)), sv_uploaders = [],
     sv_uploads = [], sv_log = [], sv_reports = []\<rparr>"

definition demo_resume :: request where
  "demo_resume = \<lparr>hr_method = ''GET'', hr_path = ''/streams/k'', hr_query = [], hr_host = ''busl'',
     hr_headers = [(''Last-Event-Id'', ''2'')], hr_te = [], hr_key = ''k'', hr_body = []\<rparr>"

theorem stored_is_served_witness:
  "\<exists>s2 s3 k. sv_redis s2 = ref_empty \<and> sub demo_s3 True demo_resume s2 = (s3, Some k) \<and>
    (\<forall>t. ka_reach (served_io demo_s3) \<lparr>kr_k = k, kr_src = [], kr_out = [], kr_err = None, kr_gone = False\<rparr> t \<longrightarrow>
      prefix (pieces_data (kr_out t)) ''ta'')"
proof -
  let ?h = "\<lparr>bl_objs = (\<lambda>u. None), bl_open = (\<lambda>k. []), bl_next = 0\<rparr>"
  let ?s = "demo_s3_state (expiry_run ''k'' ''data'' 9 9) ?h"
  let ?rq = "\<lparr>rq_method = ''PUT'', rq_url = ''http://s3/k'', rq_body = Some ''data'', rq_te = [], rq_headers = []\<rparr>"
  let ?s2 = "demo_s3_state ref_empty (sv_http (storeOutput demo_s3 ''k'' ''k'' ?s))"
  have up: "redis_up (cf_redis demo_s3) rw_db rw_inbox rw_pats"
    using refred.redis_up_axioms by (simp add: demo_s3_def)
  have s3: "blob_service (cf_http demo_s3) (cf_bodyRead demo_s3) bl_objs bl_open"
    using s3.blob_service_axioms by (simp add: demo_s3_def)
  have v: "fst (channels_of (rw_db (sv_redis ?s)) ''k'') = Some ''data''"
    using expiry_run_db(1) [of 9 9 "''k''" "''data''"] by (simp add: demo_s3_state_def channels_of_def db_get_def)
  have rq: "storage_newRequest (cf_urls demo_s3) (cf_storageBaseURL demo_s3) ''PUT'' ''k'' (Some ''data'') = Inr ?rq"
    by (simp add: demo_s3_def storage_newRequest_def storage_absoluteURL_def storage_baseURI_def
      storage_normalize_def script_url_def http_newRequest_def)
  obtain h1 where do: "h_do (cf_http demo_s3) (sv_http ?s) ?rq = (h1, 4, Inr \<lparr>rs_status = 200, rs_body = 0\<rparr>)"
    by (simp add: demo_s3_def demo_s3_state_def blob_http_def blob_do_def answer_def)
  have r: "req_key demo_resume = ''k''" "req_requestURI demo_resume = ''k''"
    by (simp_all add: req_key_def req_requestURI_def demo_resume_def)
  have a: "header_get (hr_headers demo_resume) ''Accept'' \<noteq> ''text/event-stream''" and o: "req_offset demo_resume = 2"
    by code_simp+
  have w: "sv_redis ?s2 = ref_empty" "sv_http ?s2 = sv_http (storeOutput demo_s3 ''k'' ''k'' ?s)"
    by (simp_all add: demo_s3_state_def)
  have "rw_db (sv_redis ?s2) (chan_id ''k'') = None" by (simp add: demo_s3_state_def ref_empty_def)
  from stored_is_served [OF up s3 v rq do _ w(2) this r a] o obtain s3 k where
    "sub demo_s3 True demo_resume ?s2 = (s3, Some k)"
    "\<forall>t. ka_reach (served_io demo_s3) \<lparr>kr_k = k, kr_src = [], kr_out = [], kr_err = None, kr_gone = False\<rparr> t \<longrightarrow>
      prefix (pieces_data (kr_out t)) ''ta''"
    by (auto simp: ok_status_def)
  with w(1) show ?thesis by blast
qed

end
